(* ===== verification/Xtls_Prelude.thy ===== *)
theory Xtls_Prelude
  imports Main "HOL-Library.Word"
begin

text \<open>
  Shared vocabulary of the development: machine integers, byte buffers and the
  byte order conversions that the C sources use, together with the lemmas that
  the component theories rely on.

  \<^item> \<open>be_bytes\<close>/\<open>be_word\<close> and \<open>le_bytes\<close>/\<open>le_word\<close> are the two byte orders;
    \<open>ntohl\<close>, \<open>htonl\<close>, \<open>ntohs\<close>, \<open>htons\<close> are the libc functions on a
    little-endian machine (x86-64 on the host, AArch64 on the SmartNIC).
  \<^item> \<open>seg\<close> is a read of a run of bytes and \<open>blit\<close> the effect of
    \<^verbatim>\<open>memcpy\<close> into a buffer; \<open>ld16\<close>, \<open>ld32\<close> are loads through a cast pointer.
  \<^item> the collections \<open>byte_simps\<close> and \<open>layout_simps\<close> gather the rewrite rules
    for byte order and for fixed buffer layouts.
\<close>

unbundle bit_operations_syntax

type_synonym u8 = "8 word"
type_synonym u16 = "16 word"
type_synonym u32 = "32 word"
type_synonym u64 = "64 word"
type_synonym bytes = "8 word list"

named_theorems byte_simps \<open>byte order conversions\<close>
named_theorems layout_simps \<open>reads from and writes into byte buffers\<close>


section \<open>Control effects\<close>

text \<open>A C function either returns a value or takes the process down
  (\<^verbatim>\<open>exit\<close>, a failed \<^verbatim>\<open>assert\<close>); \<open>Stop\<close> is the latter.\<close>

datatype 'a outcome = Ok 'a | Stop

primrec bind_outcome :: "'a outcome \<Rightarrow> ('a \<Rightarrow> 'b outcome) \<Rightarrow> 'b outcome" where
  "bind_outcome (Ok x) f = f x"
| "bind_outcome Stop f = Stop"

primrec is_ok :: "'a outcome \<Rightarrow> bool" where
  "is_ok (Ok x) = True"
| "is_ok Stop = False"

lemma is_ok_iff: "is_ok r \<longleftrightarrow> (\<exists>x. r = Ok x)"
  by (cases r) auto

lemma bind_outcome_Ok_iff [simp]:
  "bind_outcome r f = Ok y \<longleftrightarrow> (\<exists>x. r = Ok x \<and> f x = Ok y)"
  by (cases r) auto


lemma option_ext: "(\<And>x. a = Some x \<longleftrightarrow> b = Some x) \<Longrightarrow> a = b"
  by (cases a; cases b) auto


section \<open>Buffers\<close>

text \<open>A string literal of the source.\<close>

definition str :: "string \<Rightarrow> bytes" where
  "str s = map of_char s"

lemma length_str [simp]: "length (str s) = length s"
  by (simp add: str_def)

definition seg :: "nat \<Rightarrow> nat \<Rightarrow> 'a list \<Rightarrow> 'a list" where
  "seg i n b = take n (drop i b)"

definition blit :: "'a list \<Rightarrow> nat \<Rightarrow> 'a list \<Rightarrow> 'a list" where
  "blit b i s = take i b @ s @ drop (i + length s) b"

lemma length_seg [simp]: "length (seg i n b) = min n (length b - i)"
  by (simp add: seg_def min.commute)

lemma length_blit [simp]: "i + length s \<le> length b \<Longrightarrow> length (blit b i s) = length b"
  by (simp add: blit_def)

lemma seg_0 [simp]: "seg i 0 b = []"
  by (simp add: seg_def)

lemma seg_all: "seg 0 (length b) b = b"
  by (simp add: seg_def)

lemma nth_seg: "k < n \<Longrightarrow> i + k < length b \<Longrightarrow> seg i n b ! k = b ! (i + k)"
  by (simp add: seg_def)

lemma nth_blit:
  assumes "i + length s \<le> length b" "k < length b"
  shows "blit b i s ! k = (if i \<le> k \<and> k < i + length s then s ! (k - i) else b ! k)"
  using assms by (auto simp: blit_def nth_append min_def)

lemma seg_blit_same [layout_simps]:
  "i + length s \<le> length b \<Longrightarrow> n = length s \<Longrightarrow> seg i n (blit b i s) = s"
  by (simp add: seg_def blit_def)

lemma seg_blit_other [layout_simps]:
  assumes "i + length s \<le> length b" "j + n \<le> i \<or> i + length s \<le> j"
  shows "seg j n (blit b i s) = seg j n b"
proof (rule nth_equalityI)
  show "length (seg j n (blit b i s)) = length (seg j n b)"
    using assms(1) by simp
next
  fix k assume k: "k < length (seg j n (blit b i s))"
  then have "k < n" "j + k < length b" using assms(1) by auto
  with assms show "seg j n (blit b i s) ! k = seg j n b ! k"
    by (auto simp: nth_seg nth_blit)
qed

lemma seg_blit_inside:
  assumes "i + length s \<le> length b" "i \<le> j" "j + n \<le> i + length s"
  shows "seg j n (blit b i s) = seg (j - i) n s"
proof (rule nth_equalityI)
  show "length (seg j n (blit b i s)) = length (seg (j - i) n s)"
    using assms by simp
next
  fix k assume k: "k < length (seg j n (blit b i s))"
  then have "k < n" "j + k < length b" using assms(1) by auto
  with assms show "seg j n (blit b i s) ! k = seg (j - i) n s ! k"
    by (auto simp: nth_seg nth_blit)
qed

lemma seg_append_left [layout_simps]:
  "i + n \<le> length xs \<Longrightarrow> seg i n (xs @ ys) = seg i n xs"
  by (simp add: seg_def)

lemma seg_append_right [layout_simps]:
  "length xs \<le> i \<Longrightarrow> seg i n (xs @ ys) = seg (i - length xs) n ys"
  by (simp add: seg_def)

lemma seg_update_other [layout_simps]:
  assumes "k < i \<or> i + n \<le> k"
  shows "seg i n (b[k := x]) = seg i n b"
proof (cases "k < i")
  case True
  then show ?thesis by (simp add: seg_def)
next
  case False
  with assms have "i + n \<le> k" by simp
  then show ?thesis by (simp add: seg_def drop_update_swap)
qed

lemma seg_seg: "i + n \<le> m \<Longrightarrow> seg i n (seg j m b) = seg (j + i) n b"
  by (simp add: seg_def take_drop add.commute min_def)

lemma seg_replicate: "i + n \<le> m \<Longrightarrow> seg i n (replicate m x) = replicate n x"
  by (simp add: seg_def)

lemma blit_append_exact: "length xs = i \<Longrightarrow> length ys = length s \<Longrightarrow> blit (xs @ ys @ zs) i s = xs @ s @ zs"
  by (simp add: blit_def)


section \<open>Lists of lists\<close>

lemma in_concat_nth: "p \<in> set (concat xss) \<longleftrightarrow> (\<exists>i < length xss. p \<in> set (xss ! i))"
  by (metis UN_iff in_set_conv_nth set_concat)

lemma in_concat_update:
  assumes "i < length xss"
  shows "p \<in> set (concat (xss[i := ys])) \<longleftrightarrow>
         p \<in> set ys \<or> (\<exists>j < length xss. j \<noteq> i \<and> p \<in> set (xss ! j))"
  unfolding in_concat_nth using assms by (metis length_list_update nth_list_update)

lemma length_concat_update:
  "i < length xss \<Longrightarrow>
     length (concat (xss[i := ys])) + length (xss ! i) = length (concat xss) + length ys"
  by (induction xss arbitrary: i) (auto split: nat.splits)


section \<open>Byte order\<close>

definition be_bytes :: "nat \<Rightarrow> 'a::len word \<Rightarrow> bytes" where
  "be_bytes k w = map (\<lambda>i. ucast (drop_bit (8 * i) w)) (rev [0..<k])"

definition be_word :: "bytes \<Rightarrow> 'a::len word" where
  "be_word bs = foldl (\<lambda>acc b. push_bit 8 acc OR ucast b) 0 bs"

definition le_bytes :: "nat \<Rightarrow> 'a::len word \<Rightarrow> bytes" where
  "le_bytes k w = rev (be_bytes k w)"

definition le_word :: "bytes \<Rightarrow> 'a::len word" where
  "le_word bs = be_word (rev bs)"

text \<open>The host representation of integers is little-endian, so the libc
  conversions reverse the bytes of the value.\<close>

definition ntohl :: "u32 \<Rightarrow> u32" where "ntohl w = be_word (le_bytes 4 w)"
definition htonl :: "u32 \<Rightarrow> u32" where "htonl w = le_word (be_bytes 4 w)"
definition ntohs :: "u16 \<Rightarrow> u16" where "ntohs w = be_word (le_bytes 2 w)"
definition htons :: "u16 \<Rightarrow> u16" where "htons w = le_word (be_bytes 2 w)"

definition ld32 :: "bytes \<Rightarrow> nat \<Rightarrow> u32" where "ld32 b i = le_word (seg i 4 b)"
definition ld16 :: "bytes \<Rightarrow> nat \<Rightarrow> u16" where "ld16 b i = le_word (seg i 2 b)"

lemma length_be_bytes [simp]: "length (be_bytes k w) = k"
  by (simp add: be_bytes_def)

lemma length_le_bytes [simp]: "length (le_bytes k w) = k"
  by (simp add: le_bytes_def)

lemma be_bytes_0 [simp]: "be_bytes 0 w = []"
  by (simp add: be_bytes_def)

lemma be_bytes_Suc: "be_bytes (Suc k) w = ucast (drop_bit (8 * k) w) # be_bytes k w"
  by (simp add: be_bytes_def)

lemma be_word_Nil [simp]: "be_word [] = 0"
  by (simp add: be_word_def)

lemma be_word_snoc: "be_word (bs @ [b]) = push_bit 8 (be_word bs) OR ucast b"
  by (simp add: be_word_def)

lemma be_word_foldl_be_bytes:
  fixes w :: "'a::len word"
  shows "foldl (\<lambda>acc b. push_bit 8 acc OR ucast b) a (be_bytes k w) =
         push_bit (8 * k) a OR take_bit (8 * k) w"
proof (induction k arbitrary: a)
  case 0
  then show ?case by simp
next
  case (Suc k)
  have "push_bit (8 * k) (push_bit 8 a OR ucast (ucast (drop_bit (8 * k) w) :: u8)) OR
        take_bit (8 * k) w = push_bit (8 * Suc k) a OR take_bit (8 * Suc k) w"
    by (rule bit_eqI) (auto simp: bit_simps ac_simps)
  with Suc show ?case by (simp add: be_bytes_Suc)
qed

lemma be_word_be_bytes [byte_simps]: "be_word (be_bytes k w) = take_bit (8 * k) w"
  by (simp add: be_word_def be_word_foldl_be_bytes)

lemma le_word_le_bytes [byte_simps]: "le_word (le_bytes k w) = take_bit (8 * k) w"
  by (simp add: le_word_def le_bytes_def be_word_be_bytes)

lemma be_bytes_snoc: "be_bytes (Suc k) w = be_bytes k (drop_bit 8 w) @ [ucast w]"
proof -
  have "[0..<Suc k] = 0 # map Suc [0..<k]"
    by (simp add: map_Suc_upt upt_conv_Cons)
  then show ?thesis
    by (simp add: be_bytes_def rev_map o_def add.commute)
qed

lemma be_bytes_be_word [byte_simps]:
  "length bs = k \<Longrightarrow> 8 * k \<le> LENGTH('a) \<Longrightarrow> be_bytes k (be_word bs :: 'a::len word) = bs"
proof (induction bs arbitrary: k rule: rev_induct)
  case Nil
  then show ?case by simp
next
  case (snoc b bs)
  then obtain j where k: "k = Suc j" and j: "length bs = j" by auto
  let ?w = "be_word bs :: 'a word"
  have "be_bytes j (drop_bit 8 (push_bit 8 ?w OR ucast b)) = be_bytes j ?w"
  proof (unfold be_bytes_def, rule map_cong[OF refl])
    fix i assume "i \<in> set (rev [0..<j])"
    then have "8 * i + 8 \<le> 8 * j" by simp
    with snoc.prems(2) k show "(ucast (drop_bit (8 * i) (drop_bit 8 (push_bit 8 ?w OR ucast b))) :: u8) =
        ucast (drop_bit (8 * i) ?w)"
      by (intro bit_eqI) (auto simp: bit_simps dest: bit_imp_le_length)
  qed
  moreover have "(ucast (push_bit 8 ?w OR ucast b) :: u8) = b"
    using snoc.prems(2) k by (intro bit_eqI) (auto simp: bit_simps)
  ultimately show ?case
    using snoc.IH[OF j] snoc.prems(2) k by (simp add: be_word_snoc be_bytes_snoc)
qed

lemma le_bytes_le_word [byte_simps]:
  "length bs = k \<Longrightarrow> 8 * k \<le> LENGTH('a) \<Longrightarrow> le_bytes k (le_word bs :: 'a::len word) = bs"
  by (simp add: le_word_def le_bytes_def be_bytes_be_word)

lemma take_bit_full [byte_simps]:
  "take_bit 32 (w :: u32) = w" "take_bit 16 (v :: u16) = v" "take_bit 64 (x :: u64) = x"
  by (simp_all add: take_bit_word_eq_self)

lemma ntohl_htonl [byte_simps]: "ntohl (htonl w) = w"
  by (simp add: ntohl_def htonl_def byte_simps)

lemma ntohs_htons [byte_simps]: "ntohs (htons w) = w"
  by (simp add: ntohs_def htons_def byte_simps)

lemma htonl_ntohl [byte_simps]: "htonl (ntohl w) = w"
  by (simp add: ntohl_def htonl_def byte_simps)

lemma htons_ntohs [byte_simps]: "htons (ntohs w) = w"
  by (simp add: ntohs_def htons_def byte_simps)

lemma le_bytes_htonl [byte_simps]: "le_bytes 4 (htonl w) = be_bytes 4 w"
  by (simp add: htonl_def byte_simps)

lemma le_bytes_htons [byte_simps]: "le_bytes 2 (htons w) = be_bytes 2 w"
  by (simp add: htons_def byte_simps)

lemma ntohl_ld32 [byte_simps]: "i + 4 \<le> length b \<Longrightarrow> ntohl (ld32 b i) = be_word (seg i 4 b)"
  by (simp add: ntohl_def ld32_def byte_simps)

lemma ntohs_ld16 [byte_simps]: "i + 2 \<le> length b \<Longrightarrow> ntohs (ld16 b i) = be_word (seg i 2 b)"
  by (simp add: ntohs_def ld16_def byte_simps)

lemma be_word_be_bytes_full [byte_simps]:
  "be_word (be_bytes 4 (w :: u32)) = w"
  "be_word (be_bytes 2 (v :: u16)) = v"
  "le_word (le_bytes 4 (w :: u32)) = w"
  "le_word (le_bytes 2 (v :: u16)) = v"
  by (simp_all add: byte_simps)


section \<open>Powers of two\<close>

lemma nat_and_pred_pow2:
  fixes n :: nat
  shows "n > 0 \<Longrightarrow> n AND (n - 1) = 0 \<Longrightarrow> \<exists>k. n = 2 ^ k"
proof (induction n rule: less_induct)
  case (less n)
  show ?case
  proof (cases "even n")
    case True
    then obtain m where m: "n = 2 * m" by blast
    with less.prems have "m > 0" by simp
    then obtain q where q: "m = Suc q" by (cases m) auto
    have "n AND (n - 1) = 2 * (m AND (m - 1))"
      by (subst and_rec) (simp add: m q)
    with less.prems have "m AND (m - 1) = 0" by simp
    with less.IH[of m] m \<open>m > 0\<close> obtain k where "m = 2 ^ k" by auto
    with m have "n = 2 ^ Suc k" by simp
    then show ?thesis by blast
  next
    case False
    then obtain m where m: "n = 2 * m + 1" by (elim oddE)
    have "n AND (n - 1) = 2 * m" by (subst and_rec) (simp add: m)
    with less.prems m have "n = 2 ^ 0" by simp
    then show ?thesis by blast
  qed
qed

lemma word_and_pred_pow2:
  fixes c :: "'a::len word"
  assumes "c \<noteq> 0" "c AND (c - 1) = 0"
  obtains k where "unat c = 2 ^ k" "k < LENGTH('a)"
proof -
  have pos: "unat c > 0" using assms(1) by (simp add: unat_gt_0)
  have "unat c AND (unat c - 1) = unat (c AND (c - 1))"
    using pos by (simp add: unsigned_and_eq unat_minus_one assms(1))
  also have "\<dots> = 0" using assms(2) by simp
  finally obtain k where k: "unat c = 2 ^ k" using nat_and_pred_pow2[OF pos] by blast
  have "(2::nat) ^ k < 2 ^ LENGTH('a)" using k unsigned_less[of c] by (metis of_nat_numeral)
  then have "k < LENGTH('a)" by (simp add: power_less_imp_less_exp)
  with k show thesis by (rule that)
qed

lemma unat_succ_less:
  fixes x y :: "'a::len word"
  assumes "x < y"
  shows "unat (x + 1) = Suc (unat x)"
proof -
  have "unat x < unat y" using assms by (simp add: word_less_nat_alt)
  also have "unat y < 2 ^ LENGTH('a)" by (rule unsigned_less)
  finally have lt: "unat x < 2 ^ LENGTH('a) - 1"
    using \<open>unat x < unat y\<close> unsigned_less[of y, where ?'a = nat] by linarith
  then have "Suc (unat x) < 2 ^ LENGTH('a)" by simp
  then show ?thesis by (simp add: unat_word_ariths)
qed

lemma unat_and_pred_mod:
  fixes c x :: "'a::len word"
  assumes "unat c = 2 ^ k"
  shows "unat (x AND (c - 1)) = unat x mod unat c"
proof -
  have "c \<noteq> 0" using assms by auto
  then have "unat (x AND (c - 1)) = unat x AND (2 ^ k - 1)"
    by (simp add: unsigned_and_eq unat_minus_one assms)
  also have "\<dots> = take_bit k (unat x)" by (simp add: take_bit_eq_mask mask_eq_exp_minus_1)
  finally show ?thesis by (simp add: assms take_bit_eq_mod)
qed

end
