(* ===== verification/Ring.thy ===== *)
theory Ring
  imports Xtls_Prelude "HOL-Library.Sublist"
begin

text \<open>
  The single-producer single-consumer ring of
  \<^verbatim>\<open>src/smartnic/offload_ssl/src/ring.c\<close>, which carries requests between the
  SmartNIC worker cores and the core that owns the public-key accelerator.

  The record \<open>sj_ring\<close> is the C struct; pointers are \<open>'a option\<close> with \<open>None\<close>
  for \<^verbatim>\<open>NULL\<close>.  \<open>ring_contents\<close> lifts a ring to the list of queued pointers and
  the locale \<open>bounded_fifo\<close> states what the clients rely on: a FIFO of fixed
  capacity.  The second half splits both operations into their atomic loads and
  stores and shows that every interleaving of one producer with one consumer
  delivers the accepted pointers in order, once each.
\<close>


section \<open>Model\<close>

record 'a sj_ring =
  r_size :: u32
  r_mask :: u32
  r_name :: string
  r_tail :: u32
  r_head :: u32
  r_ring :: "'a option list"

definition SJ_SUCCESS :: int where "SJ_SUCCESS = 0"
definition SJ_ERROR :: int where "SJ_ERROR = - 1"

text \<open>\<open>alloc_ok\<close> is whether \<^verbatim>\<open>aligned_alloc\<close> returned memory.\<close>

definition sj_ring_create :: "bool \<Rightarrow> string \<Rightarrow> u32 \<Rightarrow> 'a sj_ring outcome" where
  "sj_ring_create alloc_ok name count =
     (if count = 0 \<or> count AND (count - 1) \<noteq> 0 then Stop
      else if \<not> alloc_ok then Stop
      else Ok \<lparr> r_size = count, r_mask = count - 1, r_name = take 31 name,
                r_tail = 0, r_head = 0, r_ring = replicate (unat count) None \<rparr>)"

definition sj_ring_enqueue :: "'a sj_ring \<Rightarrow> 'a option \<Rightarrow> int \<times> 'a sj_ring" where
  "sj_ring_enqueue r obj =
     (let t = r_tail r; h = r_head r in
      if (t + 1) AND r_mask r = h then (SJ_ERROR, r)
      else (SJ_SUCCESS,
            r\<lparr> r_ring := (r_ring r)[unat t := obj],
               r_tail := (t + 1) AND r_mask r \<rparr>))"

text \<open>The result carries the value stored through \<^verbatim>\<open>obj_p\<close>, if any.\<close>

definition sj_ring_dequeue :: "'a sj_ring \<Rightarrow> int \<times> 'a option option \<times> 'a sj_ring" where
  "sj_ring_dequeue r =
     (let h = r_head r; t = r_tail r in
      if h = t then (SJ_ERROR, None, r)
      else (SJ_SUCCESS, Some (r_ring r ! unat h),
            r\<lparr> r_head := (h + 1) AND r_mask r \<rparr>))"


section \<open>Bounded FIFO interface\<close>

locale bounded_fifo =
  fixes enq :: "'q \<Rightarrow> 'e \<Rightarrow> int \<times> 'q"
    and deq :: "'q \<Rightarrow> int \<times> 'e option \<times> 'q"
    and contents :: "'q \<Rightarrow> 'e list"
    and cap :: "'q \<Rightarrow> nat"
    and inv :: "'q \<Rightarrow> bool"
  assumes enq_full: "inv q \<Longrightarrow> length (contents q) = cap q \<Longrightarrow> enq q x = (-1, q)"
    and enq_room: "inv q \<Longrightarrow> length (contents q) < cap q \<Longrightarrow>
          \<exists>q'. enq q x = (0, q') \<and> inv q' \<and> cap q' = cap q \<and> contents q' = contents q @ [x]"
    and deq_empty: "inv q \<Longrightarrow> contents q = [] \<Longrightarrow> deq q = (-1, None, q)"
    and deq_cons: "inv q \<Longrightarrow> contents q = x # xs \<Longrightarrow>
          \<exists>q'. deq q = (0, Some x, q') \<and> inv q' \<and> cap q' = cap q \<and> contents q' = xs"
    and contents_cap: "inv q \<Longrightarrow> length (contents q) \<le> cap q"
begin

text \<open>A run of operations, \<open>Some x\<close> for an enqueue of \<open>x\<close> and \<open>None\<close> for a
  dequeue: the accepted and the delivered elements and the final queue.\<close>

primrec run :: "'e option list \<Rightarrow> 'q \<Rightarrow> 'e list \<times> 'e list \<times> 'q" where
  "run [] q = ([], [], q)"
| "run (c # cs) q =
     (case c of
        Some x \<Rightarrow>
          (let (rc, q') = enq q x; (acc, del, q'') = run cs q'
           in (if rc = 0 then x # acc else acc, del, q''))
      | None \<Rightarrow>
          (let (rc, y, q') = deq q; (acc, del, q'') = run cs q'
           in (acc, if rc = 0 then the y # del else del, q'')))"

lemma enq_cases:
  assumes "inv q"
  obtains (full) "length (contents q) = cap q" "enq q x = (-1, q)"
  | (room) q' where "enq q x = (0, q')" "inv q'" "cap q' = cap q" "contents q' = contents q @ [x]"
  using assms enq_full enq_room contents_cap by (metis le_neq_implies_less)

lemma deq_cases:
  assumes "inv q"
  obtains (empty) "contents q = []" "deq q = (-1, None, q)"
  | (some) x q' where "deq q = (0, Some x, q')" "inv q'" "cap q' = cap q" "contents q = x # contents q'"
  using assms deq_empty deq_cons by (metis neq_Nil_conv)

lemma run_fifo:
  "inv q \<Longrightarrow> run cs q = (acc, del, q') \<Longrightarrow>
     inv q' \<and> cap q' = cap q \<and> contents q @ acc = del @ contents q'"
proof (induction cs arbitrary: q acc del)
  case Nil
  then show ?case by simp
next
  case (Cons c cs)
  show ?case
  proof (cases c)
    case (Some x)
    from \<open>inv q\<close> show ?thesis
    proof (cases rule: enq_cases[where x = x])
      case full
      with Cons.prems(2) Some have "run cs q = (acc, del, q')"
        by (auto simp: Let_def split: prod.splits)
      then show ?thesis by (rule Cons.IH[OF Cons.prems(1)])
    next
      case (room q1)
      from Cons.prems(2) Some room obtain acc1 where "run cs q1 = (acc1, del, q')" "acc = x # acc1"
        by (auto simp: Let_def split: prod.splits)
      with Cons.IH[OF room(2)] room show ?thesis by auto
    qed
  next
    case None
    from \<open>inv q\<close> show ?thesis
    proof (cases rule: deq_cases)
      case empty
      with Cons.prems(2) None have "run cs q = (acc, del, q')"
        by (auto simp: Let_def split: prod.splits)
      then show ?thesis by (rule Cons.IH[OF Cons.prems(1)])
    next
      case (some x q1)
      from Cons.prems(2) None some obtain del1 where "run cs q1 = (acc, del1, q')" "del = x # del1"
        by (auto simp: Let_def split: prod.splits)
      with Cons.IH[OF some(2)] some show ?thesis by auto
    qed
  qed
qed

end


section \<open>The ring implements the interface\<close>

definition ring_count :: "'a sj_ring \<Rightarrow> nat" where
  "ring_count r = (unat (r_tail r) + unat (r_size r) - unat (r_head r)) mod unat (r_size r)"

definition ring_contents :: "'a sj_ring \<Rightarrow> 'a option list" where
  "ring_contents r =
     map (\<lambda>i. r_ring r ! ((unat (r_head r) + i) mod unat (r_size r))) [0..<ring_count r]"

definition ring_cap :: "'a sj_ring \<Rightarrow> nat" where
  "ring_cap r = unat (r_size r) - 1"

definition ring_inv :: "'a sj_ring \<Rightarrow> bool" where
  "ring_inv r \<longleftrightarrow>
     r_size r \<noteq> 0 \<and> r_size r AND (r_size r - 1) = 0 \<and> r_mask r = r_size r - 1 \<and>
     length (r_ring r) = unat (r_size r) \<and>
     r_head r < r_size r \<and> r_tail r < r_size r"

lemma length_ring_contents [simp]: "length (ring_contents r) = ring_count r"
  by (simp add: ring_contents_def)

lemma mod_Suc_shift:
  fixes a n :: nat
  assumes "a < n"
  shows "Suc a mod n = (if Suc a = n then 0 else Suc a)"
  using assms by auto

lemma ring_next:
  assumes "ring_inv r" "x < r_size r"
  shows "unat ((x + 1) AND r_mask r) = Suc (unat x) mod unat (r_size r)"
    and "(x + 1) AND r_mask r < r_size r"
proof -
  let ?c = "r_size r"
  from assms(1) have c: "?c \<noteq> 0" "?c AND (?c - 1) = 0" and m: "r_mask r = ?c - 1"
    by (auto simp: ring_inv_def)
  from c obtain k where k: "unat ?c = 2 ^ k" by (rule word_and_pred_pow2)
  have "unat (x + 1) = Suc (unat x)" using assms(2) by (rule unat_succ_less)
  then show 1: "unat ((x + 1) AND r_mask r) = Suc (unat x) mod unat ?c"
    by (simp add: m unat_and_pred_mod[OF k])
  show "(x + 1) AND r_mask r < r_size r"
    unfolding word_less_nat_alt 1 using c(1) by (simp add: unat_gt_0)
qed

text \<open>Circular index arithmetic on naturals.\<close>

definition circ_count :: "nat \<Rightarrow> nat \<Rightarrow> nat \<Rightarrow> nat" where
  "circ_count n h t = (t + n - h) mod n"

lemma mod_less_double: "(a::nat) < 2 * n \<Longrightarrow> a mod n = (if a < n then a else a - n)"
  by (simp add: le_mod_geq)

lemma circ_count_eq:
  "h < n \<Longrightarrow> t < n \<Longrightarrow> circ_count n h t = (if h \<le> t then t - h else t + n - h)"
  unfolding circ_count_def by (subst mod_less_double) auto

lemma circ_full: "h < n \<Longrightarrow> t < n \<Longrightarrow> Suc t mod n = h \<longleftrightarrow> circ_count n h t = n - 1"
  by (auto simp: circ_count_eq mod_Suc_shift)

lemma circ_enq:
  "h < n \<Longrightarrow> t < n \<Longrightarrow> Suc t mod n \<noteq> h \<Longrightarrow> circ_count n h (Suc t mod n) = Suc (circ_count n h t)"
  by (auto simp: circ_count_eq mod_Suc_shift)

lemma circ_deq:
  "h < n \<Longrightarrow> t < n \<Longrightarrow> h \<noteq> t \<Longrightarrow> circ_count n h t = Suc (circ_count n (Suc h mod n) t)"
  by (auto simp: circ_count_eq mod_Suc_shift)

lemma circ_at_count: "h < n \<Longrightarrow> t < n \<Longrightarrow> (h + circ_count n h t) mod n = t"
  by (auto simp: circ_count_eq)

lemma circ_before_count:
  "h < n \<Longrightarrow> t < n \<Longrightarrow> i < circ_count n h t \<Longrightarrow> (h + i) mod n \<noteq> t"
  by (subst mod_less_double) (auto simp: circ_count_eq split: if_splits)

lemma circ_count_less: "0 < n \<Longrightarrow> circ_count n h t < n"
  by (simp add: circ_count_def)

lemma ring_count_circ:
  "ring_count r = circ_count (unat (r_size r)) (unat (r_head r)) (unat (r_tail r))"
  by (simp add: ring_count_def circ_count_def)

lemma ring_inv_bounds:
  assumes "ring_inv r"
  shows "unat (r_head r) < unat (r_size r)" "unat (r_tail r) < unat (r_size r)"
    "0 < unat (r_size r)" "length (r_ring r) = unat (r_size r)"
  using assms by (auto simp: ring_inv_def word_less_nat_alt unat_gt_0)

lemma ring_full_iff:
  assumes "ring_inv r"
  shows "(r_tail r + 1) AND r_mask r = r_head r \<longleftrightarrow> ring_count r = ring_cap r"
proof -
  note b = ring_inv_bounds[OF assms]
  have "(r_tail r + 1) AND r_mask r = r_head r \<longleftrightarrow>
        Suc (unat (r_tail r)) mod unat (r_size r) = unat (r_head r)"
    using ring_next(1)[OF assms, of "r_tail r"] assms
    by (auto simp: ring_inv_def word_unat_eq_iff)
  then show ?thesis
    using b by (simp add: circ_full ring_count_circ ring_cap_def)
qed

text \<open>The two stores of an enqueue: filling the free slot is invisible, moving the
  tail publishes it.\<close>

lemma ring_write_tail:
  fixes x :: "'a option"
  assumes inv: "ring_inv r"
  defines "r' \<equiv> r\<lparr> r_ring := (r_ring r)[unat (r_tail r) := x] \<rparr>"
  shows "ring_inv r'" "ring_contents r' = ring_contents r" "r_ring r' ! unat (r_tail r) = x"
proof -
  note b = ring_inv_bounds[OF inv]
  show "ring_inv r'" using inv by (simp add: ring_inv_def r'_def)
  have "\<And>i. i < ring_count r \<Longrightarrow> unat (r_tail r) \<noteq> (unat (r_head r) + i) mod unat (r_size r)"
    using circ_before_count[OF b(1,2)] unfolding ring_count_circ by metis
  then show "ring_contents r' = ring_contents r"
    by (auto simp: ring_contents_def ring_count_def r'_def)
  show "r_ring r' ! unat (r_tail r) = x" using b by (simp add: r'_def)
qed

lemma ring_publish:
  assumes inv: "ring_inv r" and room: "ring_count r < ring_cap r"
  defines "r' \<equiv> r\<lparr> r_tail := (r_tail r + 1) AND r_mask r \<rparr>"
  shows "ring_inv r'" "ring_contents r' = ring_contents r @ [r_ring r ! unat (r_tail r)]"
proof -
  note b = ring_inv_bounds[OF inv]
  let ?n = "unat (r_size r)" and ?h = "unat (r_head r)" and ?t = "unat (r_tail r)"
  have tl: "r_tail r < r_size r" using inv by (simp add: ring_inv_def)
  show "ring_inv r'" using inv ring_next(2)[OF inv tl] by (simp add: ring_inv_def r'_def)
  have "Suc ?t mod ?n \<noteq> ?h"
    using room b by (simp add: circ_full ring_count_circ ring_cap_def)
  then have "ring_count r' = Suc (ring_count r)"
    using circ_enq[OF b(1,2)] ring_next(1)[OF inv tl] by (simp add: ring_count_circ r'_def)
  moreover have "(?h + ring_count r) mod ?n = ?t"
    using circ_at_count[OF b(1,2)] by (simp add: ring_count_circ)
  ultimately show "ring_contents r' = ring_contents r @ [r_ring r ! ?t]"
    by (simp add: ring_contents_def) (simp add: r'_def)
qed

lemma ring_enqueue_room:
  fixes x :: "'a option"
  assumes inv: "ring_inv r" and room: "ring_count r < ring_cap r"
  defines "r' \<equiv> r\<lparr> r_ring := (r_ring r)[unat (r_tail r) := x], r_tail := (r_tail r + 1) AND r_mask r \<rparr>"
  shows "sj_ring_enqueue r x = (0, r')" "ring_inv r'" "ring_cap r' = ring_cap r"
    "ring_contents r' = ring_contents r @ [x]"
proof -
  let ?w = "r\<lparr> r_ring := (r_ring r)[unat (r_tail r) := x] \<rparr>"
  have "(r_tail r + 1) AND r_mask r \<noteq> r_head r"
    using ring_full_iff[OF inv] room by simp
  then show "sj_ring_enqueue r x = (0, r')"
    by (simp add: sj_ring_enqueue_def r'_def SJ_SUCCESS_def Let_def)
  note w = ring_write_tail[OF inv, of x]
  have "ring_count ?w < ring_cap ?w" using room by (simp add: ring_count_def ring_cap_def)
  note p = ring_publish[OF w(1) this]
  have r': "r' = ?w\<lparr> r_tail := (r_tail ?w + 1) AND r_mask ?w \<rparr>" by (simp add: r'_def)
  show "ring_inv r'" unfolding r' by (rule p(1))
  show "ring_contents r' = ring_contents r @ [x]" unfolding r' p(2) using w(2,3) by simp
  show "ring_cap r' = ring_cap r" by (simp add: ring_cap_def r'_def)
qed

lemma ring_dequeue_some:
  fixes r :: "'a sj_ring"
  assumes inv: "ring_inv r" and ne: "ring_contents r = x # xs"
  defines "r' \<equiv> r\<lparr> r_head := (r_head r + 1) AND r_mask r \<rparr>"
  shows "sj_ring_dequeue r = (0, Some x, r')" "ring_inv r'" "ring_cap r' = ring_cap r"
    "ring_contents r' = xs"
proof -
  note b = ring_inv_bounds[OF inv]
  let ?n = "unat (r_size r)" and ?h = "unat (r_head r)" and ?t = "unat (r_tail r)"
  have hl: "r_head r < r_size r" using inv by (simp add: ring_inv_def)
  have pos: "ring_count r \<noteq> 0" using ne by (metis length_ring_contents list.size(3) list.distinct(1) length_0_conv)
  then have ht: "?h \<noteq> ?t" using b by (auto simp: ring_count_circ circ_count_eq)
  have cnt: "ring_count r = Suc (ring_count r')"
    using circ_deq[OF b(1,2) ht] ring_next(1)[OF inv hl] by (simp add: ring_count_circ r'_def)
  have shift: "(Suc ?h mod ?n + i) mod ?n = (?h + Suc i) mod ?n" for i
    by (simp add: mod_add_left_eq)
  have "ring_contents r = r_ring r ! ?h # ring_contents r'"
    unfolding ring_contents_def cnt upt_conv_Cons[OF zero_less_Suc]
    using b ring_next(1)[OF inv hl]
    by (simp add: r'_def shift map_Suc_upt[symmetric] o_def del: upt_Suc)
  with ne have x: "x = r_ring r ! ?h" and "ring_contents r' = xs" by auto
  then show "ring_contents r' = xs" by simp
  show "sj_ring_dequeue r = (0, Some x, r')"
    using ht x by (auto simp: sj_ring_dequeue_def r'_def SJ_SUCCESS_def Let_def)
  show "ring_inv r'"
    using inv ring_next(2)[OF inv hl] by (simp add: ring_inv_def r'_def)
  show "ring_cap r' = ring_cap r" by (simp add: ring_cap_def r'_def)
qed

lemma ring_dequeue_empty: "ring_inv r \<Longrightarrow> ring_contents r = [] \<Longrightarrow> sj_ring_dequeue r = (-1, None, r)"
proof -
  assume inv: "ring_inv r" and "ring_contents r = []"
  then have "ring_count r = 0" by (metis length_ring_contents list.size(3))
  with ring_inv_bounds[OF inv] have "unat (r_head r) = unat (r_tail r)"
    by (auto simp: ring_count_circ circ_count_eq split: if_splits)
  then have "r_head r = r_tail r" by (simp add: word_unat_eq_iff)
  then show ?thesis by (simp add: sj_ring_dequeue_def SJ_ERROR_def Let_def)
qed

interpretation sj: bounded_fifo sj_ring_enqueue sj_ring_dequeue ring_contents ring_cap ring_inv
proof unfold_locales
  fix q :: "'a sj_ring" and x
  assume inv: "ring_inv q"
  show "length (ring_contents q) = ring_cap q \<Longrightarrow> sj_ring_enqueue q x = (-1, q)"
    using ring_full_iff[OF inv] by (simp add: sj_ring_enqueue_def SJ_ERROR_def Let_def)
  show "length (ring_contents q) < ring_cap q \<Longrightarrow>
      \<exists>q'. sj_ring_enqueue q x = (0, q') \<and> ring_inv q' \<and> ring_cap q' = ring_cap q \<and>
           ring_contents q' = ring_contents q @ [x]"
    using ring_enqueue_room[OF inv, where x = x] by auto
  show "ring_contents q = [] \<Longrightarrow> sj_ring_dequeue q = (-1, None, q)"
    using inv by (rule ring_dequeue_empty)
  show "length (ring_contents q) \<le> ring_cap q"
    using circ_count_less[OF ring_inv_bounds(3)[OF inv], of "unat (r_head q)" "unat (r_tail q)"]
    by (simp add: ring_count_circ ring_cap_def)
  fix xs
  show "ring_contents q = x # xs \<Longrightarrow>
      \<exists>q'. sj_ring_dequeue q = (0, Some x, q') \<and> ring_inv q' \<and> ring_cap q' = ring_cap q \<and>
           ring_contents q' = xs"
    using ring_dequeue_some[OF inv] by blast
qed

lemma ring_create_inv:
  assumes "sj_ring_create a name count = Ok r"
  shows "ring_inv r" "ring_contents r = []" "ring_cap r = unat count - 1"
proof -
  have c: "count \<noteq> 0" "count AND (count - 1) = 0"
    using assms by (auto simp: sj_ring_create_def split: if_splits)
  then have r: "r = \<lparr> r_size = count, r_mask = count - 1, r_name = take 31 name,
                r_tail = 0, r_head = 0, r_ring = replicate (unat count) None \<rparr>"
    using assms by (simp add: sj_ring_create_def split: if_splits)
  show "ring_inv r" using c by (simp add: ring_inv_def r word_gt_0)
  show "ring_contents r = []" by (simp add: ring_contents_def ring_count_def r)
  show "ring_cap r = unat count - 1" by (simp add: ring_cap_def r)
qed


section \<open>Interleaving of a producer with a consumer\<close>

text \<open>Each core runs its operation as the four accesses of the C code: the load
  of its own index, the load of the other index with the emptiness or fullness
  test, the access of the slot, and the store of its own index.  The ghost lists
  record what the producer has published and what the consumer has taken.\<close>

datatype 'a producer =
    P_Idle
  | P_Tail "'a option" u32
  | P_Room "'a option" u32
  | P_Stored "'a option" u32

datatype 'a consumer =
    C_Idle
  | C_Head u32
  | C_Avail u32
  | C_Read u32 "'a option"

record 'a spsc =
  s_ring :: "'a sj_ring"
  s_prod :: "'a producer"
  s_cons :: "'a consumer"
  s_sent :: "'a option list"
  s_rcvd :: "'a option list"

inductive spsc_step :: "'a spsc \<Rightarrow> 'a spsc \<Rightarrow> bool" where
  p_load_tail: "s_prod s = P_Idle \<Longrightarrow>
     spsc_step s (s\<lparr> s_prod := P_Tail obj (r_tail (s_ring s)) \<rparr>)"
| p_full: "s_prod s = P_Tail obj t \<Longrightarrow> (t + 1) AND r_mask (s_ring s) = r_head (s_ring s) \<Longrightarrow>
     spsc_step s (s\<lparr> s_prod := P_Idle \<rparr>)"
| p_room: "s_prod s = P_Tail obj t \<Longrightarrow> (t + 1) AND r_mask (s_ring s) \<noteq> r_head (s_ring s) \<Longrightarrow>
     spsc_step s (s\<lparr> s_prod := P_Room obj t \<rparr>)"
| p_write: "s_prod s = P_Room obj t \<Longrightarrow>
     spsc_step s (s\<lparr> s_prod := P_Stored obj t,
                     s_ring := (s_ring s)\<lparr> r_ring := (r_ring (s_ring s))[unat t := obj] \<rparr> \<rparr>)"
| p_store_tail: "s_prod s = P_Stored obj t \<Longrightarrow>
     spsc_step s (s\<lparr> s_prod := P_Idle, s_sent := s_sent s @ [obj],
                     s_ring := (s_ring s)\<lparr> r_tail := (t + 1) AND r_mask (s_ring s) \<rparr> \<rparr>)"
| c_load_head: "s_cons s = C_Idle \<Longrightarrow>
     spsc_step s (s\<lparr> s_cons := C_Head (r_head (s_ring s)) \<rparr>)"
| c_empty: "s_cons s = C_Head h \<Longrightarrow> h = r_tail (s_ring s) \<Longrightarrow>
     spsc_step s (s\<lparr> s_cons := C_Idle \<rparr>)"
| c_avail: "s_cons s = C_Head h \<Longrightarrow> h \<noteq> r_tail (s_ring s) \<Longrightarrow>
     spsc_step s (s\<lparr> s_cons := C_Avail h \<rparr>)"
| c_read: "s_cons s = C_Avail h \<Longrightarrow>
     spsc_step s (s\<lparr> s_cons := C_Read h (r_ring (s_ring s) ! unat h) \<rparr>)"
| c_store_head: "s_cons s = C_Read h obj \<Longrightarrow>
     spsc_step s (s\<lparr> s_cons := C_Idle, s_rcvd := s_rcvd s @ [obj],
                     s_ring := (s_ring s)\<lparr> r_head := (h + 1) AND r_mask (s_ring s) \<rparr> \<rparr>)"

definition spsc_init :: "'a sj_ring \<Rightarrow> 'a spsc" where
  "spsc_init r = \<lparr> s_ring = r, s_prod = P_Idle, s_cons = C_Idle, s_sent = [], s_rcvd = [] \<rparr>"

primrec prod_ok :: "'a sj_ring \<Rightarrow> 'a producer \<Rightarrow> bool" where
  "prod_ok r P_Idle = True"
| "prod_ok r (P_Tail obj t) = (t = r_tail r)"
| "prod_ok r (P_Room obj t) = (t = r_tail r \<and> ring_count r < ring_cap r)"
| "prod_ok r (P_Stored obj t) =
     (t = r_tail r \<and> ring_count r < ring_cap r \<and> r_ring r ! unat t = obj)"

primrec cons_ok :: "'a sj_ring \<Rightarrow> 'a consumer \<Rightarrow> bool" where
  "cons_ok r C_Idle = True"
| "cons_ok r (C_Head h) = (h = r_head r)"
| "cons_ok r (C_Avail h) = (h = r_head r \<and> ring_contents r \<noteq> [])"
| "cons_ok r (C_Read h obj) = (h = r_head r \<and> ring_contents r \<noteq> [] \<and> hd (ring_contents r) = obj)"

definition spsc_inv :: "'a spsc \<Rightarrow> bool" where
  "spsc_inv s \<longleftrightarrow> ring_inv (s_ring s) \<and> s_sent s = s_rcvd s @ ring_contents (s_ring s) \<and>
     prod_ok (s_ring s) (s_prod s) \<and> cons_ok (s_ring s) (s_cons s)"

lemma ring_contents_nonempty_iff:
  assumes "ring_inv r"
  shows "ring_contents r \<noteq> [] \<longleftrightarrow> r_head r \<noteq> r_tail r"
proof -
  note b = ring_inv_bounds[OF assms]
  have "ring_contents r \<noteq> [] \<longleftrightarrow> ring_count r \<noteq> 0"
    by (metis length_0_conv length_ring_contents)
  also have "\<dots> \<longleftrightarrow> unat (r_head r) \<noteq> unat (r_tail r)"
    using b by (auto simp: ring_count_circ circ_count_eq)
  finally show ?thesis by (simp add: word_unat_eq_iff)
qed

lemma ring_contents_hd:
  assumes "ring_inv r" "ring_contents r \<noteq> []"
  shows "hd (ring_contents r) = r_ring r ! unat (r_head r)"
proof -
  have "ring_count r \<noteq> 0" using assms(2) by (metis length_0_conv length_ring_contents)
  then show ?thesis
    using ring_inv_bounds[OF assms(1)]
    by (simp add: ring_contents_def hd_map upt_conv_Cons)
qed

lemma ring_consume:
  assumes "ring_inv r" "ring_contents r \<noteq> []"
  defines "r' \<equiv> r\<lparr> r_head := (r_head r + 1) AND r_mask r \<rparr>"
  shows "ring_inv r'" "ring_contents r' = tl (ring_contents r)" "ring_count r' < ring_count r"
    "ring_cap r' = ring_cap r"
proof -
  from assms(2) obtain x xs where x: "ring_contents r = x # xs" by (cases "ring_contents r") auto
  note d = ring_dequeue_some[OF assms(1) x]
  show "ring_inv r'" unfolding r'_def by (rule d)
  show c: "ring_contents r' = tl (ring_contents r)" unfolding r'_def using d(4) x by simp
  show "ring_cap r' = ring_cap r" unfolding r'_def by (rule d)
  have "length (ring_contents r') < length (ring_contents r)" unfolding c by (simp add: x)
  then show "ring_count r' < ring_count r" by simp
qed

lemma spsc_step_inv: "spsc_step s s' \<Longrightarrow> spsc_inv s \<Longrightarrow> spsc_inv s'"
proof (induction rule: spsc_step.induct)
  case (p_room s obj t)
  then have "ring_inv (s_ring s)" "t = r_tail (s_ring s)" by (auto simp: spsc_inv_def)
  with p_room have "ring_count (s_ring s) \<noteq> ring_cap (s_ring s)"
    using ring_full_iff[of "s_ring s"] by simp
  with sj.contents_cap[OF \<open>ring_inv (s_ring s)\<close>] p_room show ?case
    by (auto simp: spsc_inv_def)
next
  case (p_write s obj t)
  then have i: "ring_inv (s_ring s)" and t: "t = r_tail (s_ring s)"
    and room: "ring_count (s_ring s) < ring_cap (s_ring s)" by (auto simp: spsc_inv_def)
  note w = ring_write_tail[OF i, of obj]
  have "cons_ok ((s_ring s)\<lparr> r_ring := (r_ring (s_ring s))[unat t := obj] \<rparr>) (s_cons s)"
    using p_write w by (cases "s_cons s") (auto simp: spsc_inv_def t)
  with p_write w room show ?case
    by (auto simp: spsc_inv_def t ring_count_def ring_cap_def)
next
  case (p_store_tail s obj t)
  then have i: "ring_inv (s_ring s)" and t: "t = r_tail (s_ring s)"
    and room: "ring_count (s_ring s) < ring_cap (s_ring s)"
    and obj: "r_ring (s_ring s) ! unat t = obj" by (auto simp: spsc_inv_def)
  note w = ring_publish[OF i room]
  have "cons_ok ((s_ring s)\<lparr> r_tail := (t + 1) AND r_mask (s_ring s) \<rparr>) (s_cons s)"
    using p_store_tail w by (cases "s_cons s") (auto simp: spsc_inv_def t)
  with p_store_tail w obj show ?case by (auto simp: spsc_inv_def t)
next
  case (c_avail s h)
  then show ?case
    using ring_contents_nonempty_iff[of "s_ring s"] by (auto simp: spsc_inv_def)
next
  case (c_read s h)
  then show ?case
    using ring_contents_hd[of "s_ring s"] by (auto simp: spsc_inv_def)
next
  case (c_store_head s h obj)
  then have i: "ring_inv (s_ring s)" and h: "h = r_head (s_ring s)"
    and ne: "ring_contents (s_ring s) \<noteq> []" and obj: "hd (ring_contents (s_ring s)) = obj"
    by (auto simp: spsc_inv_def)
  note w = ring_consume[OF i ne]
  have "prod_ok ((s_ring s)\<lparr> r_head := (h + 1) AND r_mask (s_ring s) \<rparr>) (s_prod s)"
    using c_store_head w by (cases "s_prod s") (auto simp: spsc_inv_def h)
  moreover have "obj # tl (ring_contents (s_ring s)) = ring_contents (s_ring s)"
    using ne obj by (cases "ring_contents (s_ring s)") auto
  ultimately show ?case using c_store_head w by (simp add: spsc_inv_def h)
qed (auto simp: spsc_inv_def)

lemma spsc_reachable_inv:
  "spsc_step\<^sup>*\<^sup>* (spsc_init r) s \<Longrightarrow> ring_inv r \<Longrightarrow> ring_contents r = [] \<Longrightarrow> spsc_inv s"
proof (induction rule: rtranclp_induct)
  case base
  then show ?case by (simp add: spsc_inv_def spsc_init_def)
next
  case (step y z)
  then show ?case using spsc_step_inv by blast
qed


section \<open>Properties\<close>



text \<open>C13: with one producer and one consumer running concurrently, in every
  interleaving of their loads and stores the pointers taken by the consumer are a
  prefix of the pointers published by the producer: nothing is lost, duplicated,
  reordered or read before it was written, and at most \<open>count - 1\<close> are in flight.\<close>

theorem spsc_no_loss:
  assumes "sj_ring_create a name count = Ok r" "spsc_step\<^sup>*\<^sup>* (spsc_init r) s"
  shows "s_sent s = s_rcvd s @ ring_contents (s_ring s) \<and> prefix (s_rcvd s) (s_sent s) \<and>
         length (s_sent s) \<le> length (s_rcvd s) + (unat count - 1)"
proof -
  note c = ring_create_inv[OF assms(1)]
  have inv: "spsc_inv s" using assms(2) c(1,2) by (rule spsc_reachable_inv)
  moreover have "ring_cap (s_ring s) = ring_cap r"
    using assms(2) by (induction rule: rtranclp_induct)
      (auto simp: spsc_init_def ring_cap_def elim!: spsc_step.cases)
  ultimately show ?thesis
    using sj.contents_cap[of "s_ring s"] c(3) by (simp add: spsc_inv_def)
qed

theorem spsc_no_loss_witness:
  "\<exists>r s. sj_ring_create True ''q'' 2 = Ok (r :: nat sj_ring) \<and> spsc_step\<^sup>*\<^sup>* (spsc_init r) s \<and>
     s_sent s = [Some 7] \<and> s_cons s = C_Read 0 (Some 7) \<and>
     s_sent s = s_rcvd s @ ring_contents (s_ring s) \<and> prefix (s_rcvd s) (s_sent s) \<and>
     length (s_sent s) \<le> length (s_rcvd s) + 1"
proof -
  let ?r = "\<lparr> r_size = 2, r_mask = 1, r_name = ''q'', r_tail = 0, r_head = 0, r_ring = [None, None] \<rparr> :: nat sj_ring"
  have c: "sj_ring_create True ''q'' 2 = Ok ?r"
    by (simp add: sj_ring_create_def) (simp add: numeral_2_eq_2)
  let ?s0 = "spsc_init ?r"
  let ?s1 = "?s0\<lparr> s_prod := P_Tail (Some 7) 0 \<rparr>"
  let ?s2 = "?s1\<lparr> s_prod := P_Room (Some 7) 0 \<rparr>"
  let ?s3 = "?s2\<lparr> s_prod := P_Stored (Some 7) 0, s_ring := ?r\<lparr> r_ring := [Some 7, None] \<rparr> \<rparr>"
  let ?s4 = "?s3\<lparr> s_prod := P_Idle, s_sent := [Some 7], s_ring := ?r\<lparr> r_ring := [Some 7, None], r_tail := 1 \<rparr> \<rparr>"
  let ?s5 = "?s4\<lparr> s_cons := C_Head 0 \<rparr>"
  let ?s6 = "?s5\<lparr> s_cons := C_Avail 0 \<rparr>"
  let ?s7 = "?s6\<lparr> s_cons := C_Read 0 (Some 7) \<rparr>"
  have "spsc_step ?s0 ?s1" using p_load_tail[of ?s0 "Some 7"] by (simp add: spsc_init_def)
  moreover have "spsc_step ?s1 ?s2" using p_room[of ?s1 "Some 7" 0] by (simp add: spsc_init_def)
  moreover have "spsc_step ?s2 ?s3" using p_write[of ?s2 "Some 7" 0] by (simp add: spsc_init_def)
  moreover have "spsc_step ?s3 ?s4" using p_store_tail[of ?s3 "Some 7" 0] by (simp add: spsc_init_def)
  moreover have "spsc_step ?s4 ?s5" using c_load_head[of ?s4] by (simp add: spsc_init_def)
  moreover have "spsc_step ?s5 ?s6" using c_avail[of ?s5 0] by (simp add: spsc_init_def)
  moreover have "spsc_step ?s6 ?s7" using c_read[of ?s6 0] by (simp add: spsc_init_def)
  ultimately have r: "spsc_step\<^sup>*\<^sup>* ?s0 ?s7"
    by (meson converse_rtranclp_into_rtranclp rtranclp.rtrancl_refl)
  have "s_sent ?s7 = [Some 7]" "s_cons ?s7 = C_Read 0 (Some 7)" "unat (2 :: u32) - 1 = 1"
    by simp_all
  with spsc_no_loss[OF c r] c r show ?thesis by metis
qed

end
