(* ===== verification/Conn_Hash.thy ===== *)
theory Conn_Hash
  imports Xtls_Prelude
begin

text \<open>
  The chained hash tables of active connections:
  \<^verbatim>\<open>src/smartnic/offload_ssl/src/fhash.c\<close> (keyed by the TCP four-tuple) and
  \<^verbatim>\<open>src/host/custom_server/src/fhash.c\<close> (keyed by client address and port).

  Both files share one algorithm, Jenkins' one-at-a-time hash over the key bytes
  masked to 1024 bins, and \<^verbatim>\<open>TAILQ\<close> buckets that link the connection objects
  themselves.  A table therefore holds pointers \<open>'p\<close>; the key of an object is
  read through its pointer, so the operations take the function that maps a
  pointer to its current key.  The locale \<open>conn_table\<close> is the contract of the
  packet handlers: a partial map from keys to connections.
\<close>


section \<open>Hash function\<close>

definition NUM_BINS :: u32 where "NUM_BINS = 1024"

text \<open>One round of the loop over the key bytes, and the final mixing.\<close>

definition jenkins_round :: "u32 \<Rightarrow> u8 \<Rightarrow> u32" where
  "jenkins_round hash b =
     (let hash = hash + ucast b;
          hash = hash + push_bit 10 hash
      in hash XOR drop_bit 6 hash)"

definition jenkins_final :: "u32 \<Rightarrow> u32" where
  "jenkins_final hash =
     (let hash = hash + push_bit 3 hash;
          hash = hash XOR drop_bit 11 hash
      in hash + push_bit 15 hash)"

definition jenkins_bin :: "bytes \<Rightarrow> u32" where
  "jenkins_bin key = jenkins_final (foldl jenkins_round 0 key) AND (NUM_BINS - 1)"

text \<open>SmartNIC: the twelve bytes that start at \<^verbatim>\<open>client_ip\<close> in
  \<^verbatim>\<open>struct tcp_connection\<close>, that is client and server address, then client and
  server port, all in memory order.\<close>

type_synonym flow = "u32 \<times> u32 \<times> u16 \<times> u16"

fun flow_bytes :: "flow \<Rightarrow> bytes" where
  "flow_bytes (client_ip, server_ip, client_port, server_port) =
     le_bytes 4 client_ip @ le_bytes 4 server_ip @ le_bytes 2 client_port @ le_bytes 2 server_port"

definition calculate_hash :: "flow \<Rightarrow> u32" where
  "calculate_hash k = jenkins_bin (flow_bytes k)"

text \<open>Host: client address and client port.\<close>

type_synonym client = "u32 \<times> u16"

fun host_calculate_hash :: "client \<Rightarrow> u32" where
  "host_calculate_hash (client_ip, client_port) =
     jenkins_bin (le_bytes 4 client_ip @ le_bytes 2 client_port)"


section \<open>Tables\<close>

record 'p hashtable =
  ht_bins :: u32
  ht_table :: "'p list list"
  ht_count :: u64

text \<open>\<open>ok1\<close> and \<open>ok2\<close> tell whether the two \<^verbatim>\<open>calloc\<close> calls succeed; \<open>None\<close> is the
  null pointer.  The handlers call it with \<open>NUM_BINS\<close>.\<close>

definition create_ht :: "bool \<Rightarrow> bool \<Rightarrow> u32 \<Rightarrow> 'p hashtable option" where
  "create_ht ok1 ok2 bins =
     (if \<not> ok1 then None
      else if \<not> ok2 then None
      else Some \<lparr> ht_bins = bins, ht_table = replicate (unat bins) [], ht_count = 0 \<rparr>)"

definition host_create_ht :: "bool \<Rightarrow> bool \<Rightarrow> u32 \<Rightarrow> 'p hashtable option" where
  "host_create_ht = create_ht"

text \<open>Bucket operations shared by both files, for the bin \<open>idx\<close> of the item.\<close>

definition bucket_insert :: "u32 \<Rightarrow> 'p hashtable \<Rightarrow> 'p \<Rightarrow> 'p hashtable" where
  "bucket_insert idx ht p =
     ht\<lparr> ht_table := (ht_table ht)[unat idx := ht_table ht ! unat idx @ [p]],
         ht_count := ht_count ht + 1 \<rparr>"

definition bucket_remove :: "u32 \<Rightarrow> 'p hashtable \<Rightarrow> 'p \<Rightarrow> 'p hashtable" where
  "bucket_remove idx ht p =
     ht\<lparr> ht_table := (ht_table ht)[unat idx := remove1 p (ht_table ht ! unat idx)],
         ht_count := ht_count ht - 1 \<rparr>"

definition ht_insert :: "('p \<Rightarrow> flow) \<Rightarrow> 'p hashtable \<Rightarrow> 'p \<Rightarrow> 'p hashtable" where
  "ht_insert key ht item = (let idx = calculate_hash (key item) in bucket_insert idx ht item)"

definition ht_remove :: "('p \<Rightarrow> flow) \<Rightarrow> 'p hashtable \<Rightarrow> 'p \<Rightarrow> 'p hashtable" where
  "ht_remove key ht item = (let idx = calculate_hash (key item) in bucket_remove idx ht item)"

text \<open>The walk of a bucket; on the SmartNIC every visited entry is asserted not to
  be idle.\<close>

fun ht_walk :: "('p \<Rightarrow> flow) \<Rightarrow> ('p \<Rightarrow> bool) \<Rightarrow> flow \<Rightarrow> 'p list \<Rightarrow> 'p option outcome" where
  "ht_walk key idle k [] = Ok None"
| "ht_walk key idle k (walk # rest) =
     (if idle walk then Stop
      else if key walk = k then Ok (Some walk)
      else ht_walk key idle k rest)"

definition ht_search ::
  "('p \<Rightarrow> flow) \<Rightarrow> ('p \<Rightarrow> bool) \<Rightarrow> 'p hashtable \<Rightarrow> u32 \<Rightarrow> u16 \<Rightarrow> u32 \<Rightarrow> u16 \<Rightarrow> 'p option outcome" where
  "ht_search key idle ht client_ip client_port server_ip server_port =
     (let target = (client_ip, server_ip, client_port, server_port);
          idx = calculate_hash target
      in ht_walk key idle target (ht_table ht ! unat idx))"

definition host_ht_insert :: "('p \<Rightarrow> client) \<Rightarrow> 'p hashtable \<Rightarrow> 'p \<Rightarrow> 'p hashtable" where
  "host_ht_insert key ht conn = (let idx = host_calculate_hash (key conn) in bucket_insert idx ht conn)"

definition host_ht_remove :: "('p \<Rightarrow> client) \<Rightarrow> 'p hashtable \<Rightarrow> 'p \<Rightarrow> 'p hashtable" where
  "host_ht_remove key ht conn = (let idx = host_calculate_hash (key conn) in bucket_remove idx ht conn)"

definition host_ht_search :: "('p \<Rightarrow> client) \<Rightarrow> 'p hashtable \<Rightarrow> u32 \<Rightarrow> u16 \<Rightarrow> 'p option" where
  "host_ht_search key ht client_ip client_port =
     (let idx = host_calculate_hash (client_ip, client_port)
      in List.find (\<lambda>walk. key walk = (client_ip, client_port)) (ht_table ht ! unat idx))"


section \<open>Contract of a connection table\<close>

locale conn_table =
  fixes ins :: "'t \<Rightarrow> 'p \<Rightarrow> 't"
    and del :: "'t \<Rightarrow> 'p \<Rightarrow> 't"
    and srch :: "'t \<Rightarrow> 'k \<Rightarrow> 'p option"
    and key :: "'p \<Rightarrow> 'k"
    and members :: "'t \<Rightarrow> 'p set"
    and adm :: "'p \<Rightarrow> bool"
    and inv :: "'t \<Rightarrow> bool"
  assumes srch_found: "inv t \<Longrightarrow> srch t k = Some p \<Longrightarrow> p \<in> members t \<and> key p = k"
    and srch_missing: "inv t \<Longrightarrow> srch t k = None \<Longrightarrow> p \<in> members t \<Longrightarrow> key p \<noteq> k"
    and ins_fresh: "inv t \<Longrightarrow> adm p \<Longrightarrow> srch t (key p) = None \<Longrightarrow>
          inv (ins t p) \<and> members (ins t p) = insert p (members t)"
    and del_member: "inv t \<Longrightarrow> p \<in> members t \<Longrightarrow>
          inv (del t p) \<and> members (del t p) = members t - {p}"
    and key_unique: "inv t \<Longrightarrow> p \<in> members t \<Longrightarrow> q \<in> members t \<Longrightarrow> key p = key q \<Longrightarrow> p = q"
begin

lemma srch_iff: "inv t \<Longrightarrow> srch t k = Some p \<longleftrightarrow> p \<in> members t \<and> key p = k"
  using srch_found srch_missing key_unique by (metis option.exhaust)

lemma srch_ins:
  assumes "inv t" "adm p" "srch t (key p) = None"
  shows "srch (ins t p) k = (if k = key p then Some p else srch t k)"
proof (rule option_ext)
  fix q
  have "inv (ins t p)" "members (ins t p) = insert p (members t)"
    using ins_fresh[OF assms] by auto
  moreover have "q \<in> members t \<Longrightarrow> key q \<noteq> key p"
    using srch_missing[OF assms(1,3)] by blast
  ultimately show "srch (ins t p) k = Some q \<longleftrightarrow> (if k = key p then Some p else srch t k) = Some q"
    using srch_iff[of t k q] srch_iff[of "ins t p" k q] assms(1) by auto
qed

lemma srch_del:
  assumes "inv t" "p \<in> members t"
  shows "srch (del t p) k = (if k = key p then None else srch t k)"
proof (rule option_ext)
  fix q
  have "inv (del t p)" "members (del t p) = members t - {p}"
    using del_member[OF assms] by auto
  moreover have "q \<in> members t \<Longrightarrow> key q = key p \<Longrightarrow> q = p"
    using key_unique[OF assms(1)] assms(2) by blast
  ultimately show "srch (del t p) k = Some q \<longleftrightarrow> (if k = key p then None else srch t k) = Some q"
    using srch_iff[of t k q] srch_iff[of "del t p" k q] assms by auto
qed

lemma del_ins_cancel:
  assumes "inv t" "adm p" "srch t (key p) = None"
  shows "srch (del (ins t p) p) k = srch t k"
proof -
  have "inv (ins t p)" "p \<in> members (ins t p)" using ins_fresh[OF assms] by auto
  with srch_del[of "ins t p" p k] srch_ins[OF assms] assms(3) show ?thesis by simp
qed

end


section \<open>The tables implement the contract\<close>

definition ht_members :: "'p hashtable \<Rightarrow> 'p set" where
  "ht_members ht = set (concat (ht_table ht))"

definition table_inv :: "('k \<Rightarrow> u32) \<Rightarrow> ('p \<Rightarrow> 'k) \<Rightarrow> 'p hashtable \<Rightarrow> bool" where
  "table_inv hash key ht \<longleftrightarrow>
     length (ht_table ht) = unat NUM_BINS \<and>
     (\<forall>i < length (ht_table ht). distinct (ht_table ht ! i) \<and>
        (\<forall>p \<in> set (ht_table ht ! i). unat (hash (key p)) = i)) \<and>
     inj_on key (ht_members ht) \<and>
     ht_count ht = of_nat (length (concat (ht_table ht)))"

lemma jenkins_bin_less: "unat (jenkins_bin key) < unat NUM_BINS"
proof -
  have "jenkins_bin key \<le> NUM_BINS - 1"
    unfolding jenkins_bin_def by (rule word_and_le1)
  then show ?thesis by (simp add: word_le_nat_alt NUM_BINS_def)
qed

lemma calculate_hash_less: "unat (calculate_hash k) < unat NUM_BINS"
  unfolding calculate_hash_def by (rule jenkins_bin_less)

lemma host_calculate_hash_less: "unat (host_calculate_hash k) < unat NUM_BINS"
  by (cases k) (simp add: jenkins_bin_less)

lemma ht_members_iff:
  assumes "table_inv hash key ht"
  shows "p \<in> ht_members ht \<longleftrightarrow>
         unat (hash (key p)) < length (ht_table ht) \<and> p \<in> set (ht_table ht ! unat (hash (key p)))"
proof
  assume "p \<in> ht_members ht"
  then obtain i where i: "i < length (ht_table ht)" "p \<in> set (ht_table ht ! i)"
    unfolding ht_members_def in_concat_nth by blast
  with assms have "unat (hash (key p)) = i" unfolding table_inv_def by blast
  with i show "unat (hash (key p)) < length (ht_table ht) \<and> p \<in> set (ht_table ht ! unat (hash (key p)))"
    by simp
next
  assume "unat (hash (key p)) < length (ht_table ht) \<and> p \<in> set (ht_table ht ! unat (hash (key p)))"
  then show "p \<in> ht_members ht" unfolding ht_members_def in_concat_nth by blast
qed

lemma table_inv_cong:
  assumes "\<And>p. p \<in> ht_members ht \<Longrightarrow> key p = key' p"
  shows "table_inv hash key ht \<longleftrightarrow> table_inv hash key' ht"
proof -
  have "i < length (ht_table ht) \<Longrightarrow> p \<in> set (ht_table ht ! i) \<Longrightarrow> key p = key' p" for i p
    using assms unfolding ht_members_def in_concat_nth by blast
  moreover have "inj_on key (ht_members ht) \<longleftrightarrow> inj_on key' (ht_members ht)"
    using assms by (rule inj_on_cong)
  ultimately show ?thesis unfolding table_inv_def by auto
qed

lemma host_ht_search_cong:
  assumes "length (ht_table ht) = unat NUM_BINS"
    and "\<And>p. p \<in> ht_members ht \<Longrightarrow> key p = key' p"
  shows "host_ht_search key ht ip port = host_ht_search key' ht ip port"
proof -
  have "unat (host_calculate_hash (ip, port)) < length (ht_table ht)"
    using assms(1) host_calculate_hash_less[of "(ip, port)"] by simp
  then have "p \<in> set (ht_table ht ! unat (host_calculate_hash (ip, port))) \<Longrightarrow> key p = key' p" for p
    using assms(2) unfolding ht_members_def in_concat_nth by blast
  then show ?thesis unfolding host_ht_search_def Let_def by (intro find_cong) auto
qed

lemma bucket_insert_inv:
  assumes inv: "table_inv hash key ht" and bound: "unat (hash (key p)) < unat NUM_BINS"
    and fresh: "\<And>q. q \<in> ht_members ht \<Longrightarrow> key q \<noteq> key p"
  shows "table_inv hash key (bucket_insert (hash (key p)) ht p)"
    and "ht_members (bucket_insert (hash (key p)) ht p) = insert p (ht_members ht)"
proof -
  let ?i = "unat (hash (key p))" and ?t = "ht_table ht"
  let ?t' = "?t[?i := ?t ! ?i @ [p]]"
  have i: "?i < length ?t" using inv bound by (simp add: table_inv_def)
  have "set (concat ?t') = insert p (set (concat ?t))"
  proof (rule set_eqI)
    fix x
    show "x \<in> set (concat ?t') \<longleftrightarrow> x \<in> insert p (set (concat ?t))"
      using in_concat_update[OF i, of x "?t ! ?i @ [p]"] in_concat_nth[of x ?t] i
      unfolding insert_iff set_append by auto
  qed
  then show m: "ht_members (bucket_insert (hash (key p)) ht p) = insert p (ht_members ht)"
    by (simp add: ht_members_def bucket_insert_def)
  have nin: "p \<notin> ht_members ht" using fresh by blast
  then have "p \<notin> set (?t ! ?i)" using ht_members_iff[OF inv] i by blast
  moreover have "length (concat ?t') = Suc (length (concat ?t))"
    using length_concat_update[OF i, of "?t ! ?i @ [p]"] by simp
  moreover have "inj_on key (insert p (ht_members ht))"
  proof -
    have "key p \<notin> key ` ht_members ht" using fresh by force
    then show ?thesis using inv by (auto simp: table_inv_def)
  qed
  ultimately show "table_inv hash key (bucket_insert (hash (key p)) ht p)"
    using inv i unfolding table_inv_def m
    by (auto simp: bucket_insert_def nth_list_update)
qed

lemma bucket_remove_inv:
  assumes inv: "table_inv hash key ht" and mem: "p \<in> ht_members ht"
  shows "table_inv hash key (bucket_remove (hash (key p)) ht p)"
    and "ht_members (bucket_remove (hash (key p)) ht p) = ht_members ht - {p}"
proof -
  let ?i = "unat (hash (key p))" and ?t = "ht_table ht"
  let ?t' = "?t[?i := remove1 p (?t ! ?i)]"
  have i: "?i < length ?t" and pi: "p \<in> set (?t ! ?i)"
    using ht_members_iff[OF inv] mem by auto
  have d: "distinct (?t ! ?i)" using inv i by (simp add: table_inv_def)
  have "p \<notin> set (?t ! j)" if "j < length ?t" "j \<noteq> ?i" for j
    using that inv by (auto simp: table_inv_def)
  then have "set (concat ?t') = set (concat ?t) - {p}"
  proof (intro set_eqI)
    fix x
    assume p: "\<And>j. j < length ?t \<Longrightarrow> j \<noteq> ?i \<Longrightarrow> p \<notin> set (?t ! j)"
    show "x \<in> set (concat ?t') \<longleftrightarrow> x \<in> set (concat ?t) - {p}"
      using in_concat_update[OF i, of x "remove1 p (?t ! ?i)"] in_concat_nth[of x ?t] i d p
      unfolding Diff_iff set_remove1_eq[OF d] by auto
  qed
  then show m: "ht_members (bucket_remove (hash (key p)) ht p) = ht_members ht - {p}"
    by (simp add: ht_members_def bucket_remove_def)
  have "length (?t ! ?i) > 0" using pi by (auto simp: length_pos_if_in_set)
  moreover have "length (remove1 p (?t ! ?i)) = length (?t ! ?i) - 1"
    using pi by (simp add: length_remove1)
  ultimately have "length (concat ?t) = Suc (length (concat ?t'))"
    using length_concat_update[OF i, of "remove1 p (?t ! ?i)"] by linarith
  moreover have "inj_on key (ht_members ht - {p})"
    using inv by (auto simp: table_inv_def intro: inj_on_diff)
  ultimately show "table_inv hash key (bucket_remove (hash (key p)) ht p)"
    using inv i d unfolding table_inv_def m
    by (auto simp: bucket_remove_def nth_list_update)
qed

lemma create_ht_inv:
  assumes "create_ht ok1 ok2 NUM_BINS = Some ht"
  shows "table_inv hash key ht" "ht_members ht = {}"
proof -
  have ht: "ht = \<lparr> ht_bins = NUM_BINS, ht_table = replicate (unat NUM_BINS) [], ht_count = 0 \<rparr>"
    using assms by (simp add: create_ht_def split: if_splits)
  have "concat (ht_table ht) = []" unfolding ht by simp
  then show "ht_members ht = {}" by (simp add: ht_members_def)
  with \<open>concat (ht_table ht) = []\<close> show "table_inv hash key ht"
    unfolding table_inv_def by (simp add: ht)
qed

lemma find_unique:
  assumes "\<And>x y. x \<in> set xs \<Longrightarrow> y \<in> set xs \<Longrightarrow> P x \<Longrightarrow> P y \<Longrightarrow> x = y"
  shows "List.find P xs = Some p \<longleftrightarrow> p \<in> set xs \<and> P p"
  using assms by (induction xs) auto

lemma find_bucket:
  assumes inv: "table_inv hash key ht" and b: "unat (hash k) < unat NUM_BINS"
  shows "List.find (\<lambda>p. key p = k) (ht_table ht ! unat (hash k)) = Some p \<longleftrightarrow>
         p \<in> ht_members ht \<and> key p = k"
proof -
  have i: "unat (hash k) < length (ht_table ht)" using inv b by (simp add: table_inv_def)
  have m: "q \<in> set (ht_table ht ! unat (hash k)) \<Longrightarrow> q \<in> ht_members ht" for q
    using i unfolding ht_members_def in_concat_nth by blast
  have "List.find (\<lambda>p. key p = k) (ht_table ht ! unat (hash k)) = Some p \<longleftrightarrow>
        p \<in> set (ht_table ht ! unat (hash k)) \<and> key p = k"
    using m inv by (intro find_unique) (auto simp: table_inv_def dest: inj_onD)
  with ht_members_iff[OF inv, of p] i show ?thesis by auto
qed

interpretation host_tab: conn_table "host_ht_insert key" "host_ht_remove key"
  "\<lambda>t (ip, port). host_ht_search key t ip port" key ht_members "\<lambda>_. True"
  "table_inv host_calculate_hash key" for key
proof unfold_locales
  fix t :: "'a hashtable" and k p q
  assume inv: "table_inv host_calculate_hash key t"
  have s: "(case k of (ip, port) \<Rightarrow> host_ht_search key t ip port) = Some p \<longleftrightarrow>
           p \<in> ht_members t \<and> key p = k" for k p
    using find_bucket[OF inv host_calculate_hash_less, of k p]
    by (cases k) (simp add: host_ht_search_def)
  show "(case k of (ip, port) \<Rightarrow> host_ht_search key t ip port) = Some p \<Longrightarrow>
        p \<in> ht_members t \<and> key p = k" by (simp only: s)
  show "(case k of (ip, port) \<Rightarrow> host_ht_search key t ip port) = None \<Longrightarrow>
        p \<in> ht_members t \<Longrightarrow> key p \<noteq> k"
    using s[of k p] by auto
  show "(case key p of (ip, port) \<Rightarrow> host_ht_search key t ip port) = None \<Longrightarrow>
        table_inv host_calculate_hash key (host_ht_insert key t p) \<and>
        ht_members (host_ht_insert key t p) = insert p (ht_members t)"
    using bucket_insert_inv[OF inv host_calculate_hash_less, of p] s[of "key p"]
    by (auto simp: host_ht_insert_def)
  show "p \<in> ht_members t \<Longrightarrow> table_inv host_calculate_hash key (host_ht_remove key t p) \<and>
        ht_members (host_ht_remove key t p) = ht_members t - {p}"
    using bucket_remove_inv[OF inv, of p] by (simp add: host_ht_remove_def)
  show "p \<in> ht_members t \<Longrightarrow> q \<in> ht_members t \<Longrightarrow> key p = key q \<Longrightarrow> p = q"
    using inv by (auto simp: table_inv_def dest: inj_onD)
qed

text \<open>SmartNIC table: the search also asserts that no visited connection is idle,
  so the invariant asks every linked connection to be in use.\<close>

definition nic_search :: "('p \<Rightarrow> flow) \<Rightarrow> ('p \<Rightarrow> bool) \<Rightarrow> 'p hashtable \<Rightarrow> flow \<Rightarrow> 'p option" where
  "nic_search key idle ht k =
     (case k of (cip, sip, cport, sport) \<Rightarrow>
       (case ht_search key idle ht cip cport sip sport of Ok r \<Rightarrow> r | Stop \<Rightarrow> None))"

definition nic_table_inv :: "('p \<Rightarrow> flow) \<Rightarrow> ('p \<Rightarrow> bool) \<Rightarrow> 'p hashtable \<Rightarrow> bool" where
  "nic_table_inv key idle ht \<longleftrightarrow>
     table_inv calculate_hash key ht \<and> (\<forall>p \<in> ht_members ht. \<not> idle p)"

lemma ht_walk_find:
  "\<forall>p \<in> set ps. \<not> idle p \<Longrightarrow> ht_walk key idle k ps = Ok (List.find (\<lambda>p. key p = k) ps)"
  by (induction ps) auto

lemma ht_search_find:
  assumes "nic_table_inv key idle ht"
  shows "ht_search key idle ht cip cport sip sport =
         Ok (List.find (\<lambda>p. key p = (cip, sip, cport, sport))
               (ht_table ht ! unat (calculate_hash (cip, sip, cport, sport))))"
proof -
  let ?b = "ht_table ht ! unat (calculate_hash (cip, sip, cport, sport))"
  have "unat (calculate_hash (cip, sip, cport, sport)) < length (ht_table ht)"
    using assms calculate_hash_less by (simp add: nic_table_inv_def table_inv_def)
  then have "\<forall>p \<in> set ?b. p \<in> ht_members ht" unfolding ht_members_def in_concat_nth by blast
  then show ?thesis
    using assms by (simp add: ht_search_def Let_def ht_walk_find nic_table_inv_def)
qed

lemma nic_search_iff:
  assumes "nic_table_inv key idle t"
  shows "nic_search key idle t k = Some p \<longleftrightarrow> p \<in> ht_members t \<and> key p = k"
  using find_bucket[of calculate_hash key t k p] assms calculate_hash_less
  by (cases k) (simp add: nic_search_def ht_search_find nic_table_inv_def)

interpretation nic_tab: conn_table "ht_insert key" "ht_remove key" "nic_search key idle" key
  ht_members "\<lambda>p. \<not> idle p" "nic_table_inv key idle" for key idle
proof unfold_locales
  fix t :: "'a hashtable" and k p q
  assume inv: "nic_table_inv key idle t"
  then have ti: "table_inv calculate_hash key t" by (simp add: nic_table_inv_def)
  note s = nic_search_iff[OF inv]
  show "nic_search key idle t k = Some p \<Longrightarrow> p \<in> ht_members t \<and> key p = k" by (simp only: s)
  show "nic_search key idle t k = None \<Longrightarrow> p \<in> ht_members t \<Longrightarrow> key p \<noteq> k"
    using s[of k p] by auto
  show "\<not> idle p \<Longrightarrow> nic_search key idle t (key p) = None \<Longrightarrow>
        nic_table_inv key idle (ht_insert key t p) \<and>
        ht_members (ht_insert key t p) = insert p (ht_members t)"
    using bucket_insert_inv[OF ti calculate_hash_less, of p] s[of "key p"] inv
    by (auto simp: ht_insert_def nic_table_inv_def)
  show "p \<in> ht_members t \<Longrightarrow> nic_table_inv key idle (ht_remove key t p) \<and>
        ht_members (ht_remove key t p) = ht_members t - {p}"
    using bucket_remove_inv[OF ti, of p] inv by (auto simp: ht_remove_def nic_table_inv_def)
  show "p \<in> ht_members t \<Longrightarrow> q \<in> ht_members t \<Longrightarrow> key p = key q \<Longrightarrow> p = q"
    using ti by (auto simp: table_inv_def dest: inj_onD)
qed


section \<open>Properties\<close>


text \<open>The concrete table of the witness: two flows in an otherwise empty table.\<close>

definition demo_key :: "nat \<Rightarrow> flow" where
  "demo_key p = (0x0A000001 + of_nat p, 0x0A000002, 0x1F90, 443)"


end
