(* ===== verification/Bpf.thy ===== *)
theory Bpf
  imports Xtls_Prelude
begin

text \<open>
  The classic packet filter machine of the kernel, with the instructions the host server
  uses.  Accumulator and index register start at zero, a load beyond the end of the
  packet ends the program with the verdict zero (drop), and jump offsets count from the
  following instruction.  The verdict is the number of bytes of the packet to keep.
\<close>

datatype bpf_insn =
    LD_H_ABS nat | LD_B_ABS nat | LD_H_IND nat | LD_B_IND nat
  | ALU_AND u32 | ALU_MUL u32 | ST_M nat
  | JMP_JEQ u32 nat nat | JMP_JSET u32 nat nat | RET_K u32

text \<open>The 16-bit number in network order at offset \<open>i\<close>.\<close>

definition half_at :: "bytes \<Rightarrow> nat \<Rightarrow> nat" where
  "half_at pkt i = 256 * unat (pkt ! i) + unat (pkt ! (i + 1))"

definition ld_half :: "bytes \<Rightarrow> nat \<Rightarrow> u32 option" where
  "ld_half pkt i = (if i + 2 \<le> length pkt then Some (of_nat (half_at pkt i)) else None)"

definition ld_byte :: "bytes \<Rightarrow> nat \<Rightarrow> u32 option" where
  "ld_byte pkt i = (if i < length pkt then Some (ucast (pkt ! i)) else None)"

text \<open>The machine runs on the rest of the program; a jump drops instructions.\<close>

fun bpf_run :: "bpf_insn list \<Rightarrow> bytes \<Rightarrow> u32 \<Rightarrow> u32 \<Rightarrow> (nat \<Rightarrow> u32) \<Rightarrow> u32" where
  "bpf_run [] pkt a x m = 0"
| "bpf_run (LD_H_ABS k # is) pkt a x m = (case ld_half pkt k of None \<Rightarrow> 0 | Some v \<Rightarrow> bpf_run is pkt v x m)"
| "bpf_run (LD_B_ABS k # is) pkt a x m = (case ld_byte pkt k of None \<Rightarrow> 0 | Some v \<Rightarrow> bpf_run is pkt v x m)"
| "bpf_run (LD_H_IND k # is) pkt a x m = (case ld_half pkt (unat x + k) of None \<Rightarrow> 0 | Some v \<Rightarrow> bpf_run is pkt v x m)"
| "bpf_run (LD_B_IND k # is) pkt a x m = (case ld_byte pkt (unat x + k) of None \<Rightarrow> 0 | Some v \<Rightarrow> bpf_run is pkt v x m)"
| "bpf_run (ALU_AND k # is) pkt a x m = bpf_run is pkt (a AND k) x m"
| "bpf_run (ALU_MUL k # is) pkt a x m = bpf_run is pkt (a * k) x m"
| "bpf_run (ST_M i # is) pkt a x m = bpf_run is pkt a x (m(i := a))"
| "bpf_run (JMP_JEQ k t f # is) pkt a x m = bpf_run (drop (if a = k then t else f) is) pkt a x m"
| "bpf_run (JMP_JSET k t f # is) pkt a x m = bpf_run (drop (if a AND k \<noteq> 0 then t else f) is) pkt a x m"
| "bpf_run (RET_K k # is) pkt a x m = k"

definition bpf_filter :: "bpf_insn list \<Rightarrow> bytes \<Rightarrow> u32" where
  "bpf_filter prog pkt = bpf_run prog pkt 0 0 (\<lambda>_. 0)"

end
