(* ===== verification/Host_Types.thy ===== *)
theory Host_Types
  imports Xtls_Prelude Bpf Conn_Hash "HOL-Library.Monad_Syntax"
begin

text \<open>
  Data of the host server, \<^verbatim>\<open>src/host/custom_server/include/common.h\<close>: the
  connection object, the meta information received from the SmartNIC, the kernel
  TLS parameters, and the world the server runs in.

  The kernel is a parameter: a \<open>world\<close> carries a function that gives the result
  of the \<open>n\<close>-th system call and the list of calls made so far.  A function of the
  server that only performs system calls maps a world to a world; one that works
  on a connection also maps the connection.  A result \<open>None\<close> stands for
  \<^verbatim>\<open>exit(EXIT_FAILURE)\<close>.
\<close>


section \<open>Constants\<close>

definition MAX_THREAD_NUM :: nat where "MAX_THREAD_NUM = 16"
definition SERVER_IP :: u32 where "SERVER_IP = 0x0A000002"
definition MAX_CONN :: nat where "MAX_CONN = 65536"
definition SSL_PORT :: u16 where "SSL_PORT = 443"
definition MAX_KEY_SIZE :: nat where "MAX_KEY_SIZE = 128"
definition HTTP_HEADER_LEN :: nat where "HTTP_HEADER_LEN = 1460"
definition URL_LEN :: nat where "URL_LEN = 256"
definition MAX_FILES :: nat where "MAX_FILES = 256"
definition NAME_LIMIT :: nat where "NAME_LIMIT = 256"
definition FULL_PATH_LIMIT :: nat where "FULL_PATH_LIMIT = 512"
definition FILE_SIZE_THRESHOLD :: int where "FILE_SIZE_THRESHOLD = 0"
definition WEIRD_SYN :: u16 where "WEIRD_SYN = 0x0800"
definition RST_CONN_META_ETH_TYPE :: u16 where "RST_CONN_META_ETH_TYPE = 0x08FF"
definition RECV_META_BUF_SIZE :: nat where "RECV_META_BUF_SIZE = 1460"
definition SND_META_PKT_SIZE :: nat where "SND_META_PKT_SIZE = 64"

text \<open>The array \<^verbatim>\<open>key_eth_types\<close>, one EtherType per host thread; the same list
  appears in \<^verbatim>\<open>helpers.c\<close>, \<^verbatim>\<open>set_sock.c\<close> and, on the SmartNIC, in \<^verbatim>\<open>tcp.c\<close>.\<close>

definition key_eth_types :: "u16 list" where
  "key_eth_types =
     [0x0801, 0x0802, 0x0803, 0x0804, 0x0805, 0x0806, 0x0807, 0x0808,
      0x0809, 0x080A, 0x080B, 0x080C, 0x080D, 0x080E, 0x080F, 0x0810]"

text \<open>Sizes of the AES-GCM-256 fields of the kernel interface \<^verbatim>\<open>linux/tls.h\<close>.\<close>

definition TLS_CIPHER_AES_GCM_256 :: u16 where "TLS_CIPHER_AES_GCM_256 = 52"
definition GCM_256_IV_SIZE :: nat where "GCM_256_IV_SIZE = 8"
definition GCM_256_KEY_SIZE :: nat where "GCM_256_KEY_SIZE = 32"
definition GCM_256_SALT_SIZE :: nat where "GCM_256_SALT_SIZE = 4"
definition GCM_256_REC_SEQ_SIZE :: nat where "GCM_256_REC_SEQ_SIZE = 8"


section \<open>Connection objects\<close>

type_synonym timespec = "int \<times> int"

datatype sock_state_t =
    DEFAULT | INIT | CONNECTED | READY_TO_RECV | TLS_HS_RECVED | HTTP_REQ_RECVED
  | HTTP_RESP_SENT | CLOSE_META_PKT_SENT | WAIT_TCP_FIN | CLOSED | ERRORED

datatype req_handler_result =
    RECV_ERR | RECV_CONTINUE | RECV_OK | RECV_TLS | RECV_CLOSE_NOTIFY | RECV_FIN

datatype meta_type = META_TYPE_UNKNOWN | META_TYPE_KEY | META_TYPE_RST_CONN | META_TYPE_WEIRD_SYN

text \<open>\<^verbatim>\<open>struct tls12_crypto_info_aes_gcm_256\<close>.\<close>

record crypto_info =
  ci_version :: u16
  ci_cipher_type :: u16
  ci_iv :: bytes
  ci_key :: bytes
  ci_salt :: bytes
  ci_rec_seq :: bytes

text \<open>\<open>mi_ssl_meta\<close> is the pointer into the receive buffer, as an offset.\<close>

record meta_info =
  mi_client_ip :: u32
  mi_client_port :: u16
  mi_seq_num :: u32
  mi_ack_num :: u32
  mi_ssl_meta :: "nat option"

record conn_state =
  sock_fd :: int
  sock_state :: sock_state_t
  recv_bytes :: int
  meta_info :: meta_info
  crypto_info_rx :: crypto_info
  crypto_info_tx :: crypto_info
  keep_alive :: int
  scode :: int
  sccs_sf_buf :: bytes
  record_len :: int
  hdr_sent :: bool
  hdr_len :: nat
  hdr_offset :: nat
  hdr_remain :: nat
  hdr_buf :: bytes
  file_idx :: int
  file_size :: nat
  req_buf :: bytes
  req_len :: nat
  resp_fd :: int
  resp_offset :: nat
  resp_remain :: nat
  conn_start :: timespec
  conn_fin :: timespec

definition crypto_zero :: crypto_info where
  "crypto_zero = \<lparr> ci_version = 0, ci_cipher_type = 0,
     ci_iv = replicate GCM_256_IV_SIZE 0, ci_key = replicate GCM_256_KEY_SIZE 0,
     ci_salt = replicate GCM_256_SALT_SIZE 0, ci_rec_seq = replicate GCM_256_REC_SEQ_SIZE 0 \<rparr>"

text \<open>A connection object after \<^verbatim>\<open>memset(c, 0, sizeof(*c))\<close>.\<close>

definition conn_zero :: conn_state where
  "conn_zero =
    \<lparr> sock_fd = 0, sock_state = DEFAULT, recv_bytes = 0,
      meta_info = \<lparr> mi_client_ip = 0, mi_client_port = 0, mi_seq_num = 0, mi_ack_num = 0, mi_ssl_meta = None \<rparr>,
      crypto_info_rx = crypto_zero, crypto_info_tx = crypto_zero,
      keep_alive = 0, scode = 0,
      sccs_sf_buf = replicate RECV_META_BUF_SIZE 0, record_len = 0,
      hdr_sent = False, hdr_len = 0, hdr_offset = 0, hdr_remain = 0,
      hdr_buf = replicate HTTP_HEADER_LEN 0,
      file_idx = 0, file_size = 0,
      req_buf = replicate HTTP_HEADER_LEN 0, req_len = 0,
      resp_fd = 0, resp_offset = 0, resp_remain = 0, conn_start = (0, 0), conn_fin = (0, 0) \<rparr>"

definition conn_client :: "conn_state \<Rightarrow> client" where
  "conn_client c = (mi_client_ip (meta_info c), mi_client_port (meta_info c))"


section \<open>System calls\<close>

datatype sockopt =
    TCP_REPAIR | SO_REUSEADDR | SO_REUSEPORT | SO_LINGER | TCP_REPAIR_QUEUE | TCP_QUEUE_SEQ
  | TCP_REPAIR_OPTIONS | TCP_ULP | TCP_CORK | TLS_RX | TLS_TX | TLS_TX_ZEROCOPY_RO

datatype optval = Opt_int int | Opt_crypto crypto_info | Opt_repair "(int \<times> int) list" | Opt_ulp

datatype epoll_events = EPOLLIN_only | EPOLLOUT_only | EPOLLIN_OUT

type_synonym conn_ptr = nat

datatype syscall =
    Sys_socket
  | Sys_epoll_create
  | Sys_setsockopt int sockopt optval
  | Sys_bind int u32 u16
  | Sys_connect int u32 u16
  | Sys_fcntl_getfl int
  | Sys_fcntl_setfl int int
  | Sys_close int
  | Sys_epoll_add int epoll_events conn_ptr
  | Sys_epoll_mod int epoll_events conn_ptr
  | Sys_epoll_del int
  | Sys_recvfrom int
  | Sys_sendto int bytes
  | Sys_recvmsg int
  | Sys_send int bytes
  | Sys_sendfile int int nat nat
  | Sys_sendmsg int u8 bytes
  | Sys_clock
  | Sys_raw_socket
  | Sys_ifindex int
  | Sys_bind_iface int int
  | Sys_attach_filter int "bpf_insn list"

text \<open>What a call returns: its value, \<^verbatim>\<open>errno\<close>, and for the receiving calls the
  data and the control messages (level, type, first data byte).\<close>

datatype errno = EAGAIN | EINTR | EPIPE | ECONNRESET | E_other

datatype cmsg = Cmsg_tls_record_type u8 | Cmsg_other

text \<open>The value of \<^verbatim>\<open>clock_gettime\<close> is in nanoseconds.\<close>

record sysret =
  rv :: int
  rerr :: errno
  rdata :: bytes
  rcmsg :: "cmsg list"

record world =
  w_env :: "nat \<Rightarrow> sysret"
  w_n :: nat
  w_out :: "syscall list"

definition sys :: "syscall \<Rightarrow> world \<Rightarrow> sysret \<times> world" where
  "sys c w = (w_env w (w_n w), w\<lparr> w_n := Suc (w_n w), w_out := w_out w @ [c] \<rparr>)"

lemma sys_simps [simp]:
  "fst (sys c w) = w_env w (w_n w)"
  "w_env (snd (sys c w)) = w_env w"
  "w_n (snd (sys c w)) = Suc (w_n w)"
  "w_out (snd (sys c w)) = w_out w @ [c]"
  by (simp_all add: sys_def)

definition timespec_of :: "sysret \<Rightarrow> timespec" where
  "timespec_of r = (rv r div 1000000000, rv r mod 1000000000)"


section \<open>State of a worker thread\<close>

text \<open>\<^verbatim>\<open>struct thread_ctx\<close> with the slices of the global arrays that belong to the
  thread: its connection pool (the array and the stack pointer), the memory of the
  connection objects, the meta packet buffer of \<^verbatim>\<open>worker_thread\<close>, its counters, and the
  world.\<close>

record host =
  core_id :: nat
  meta_sock :: int
  epfd :: int
  ht_conn :: "conn_ptr hashtable"
  conn_pool :: "conn_ptr list"
  pool_top :: int
  conns :: "conn_ptr \<Rightarrow> conn_state"
  meta_buf :: bytes
  key_metas :: u64
  new_conns :: u64
  closed_conns :: u64
  total_conn_time :: timespec
  wrld :: world

abbreviation host_key :: "host \<Rightarrow> conn_ptr \<Rightarrow> client" where
  "host_key h p \<equiv> conn_client (conns h p)"

text \<open>A system call of the thread, and an update of one connection object.\<close>

definition host_sys :: "syscall \<Rightarrow> host \<Rightarrow> sysret \<times> host" where
  "host_sys c h = (let (r, w) = sys c (wrld h) in (r, h\<lparr> wrld := w \<rparr>))"

definition upd_conn :: "conn_ptr \<Rightarrow> (conn_state \<Rightarrow> conn_state) \<Rightarrow> host \<Rightarrow> host" where
  "upd_conn p f h = h\<lparr> conns := (conns h)(p := f (conns h p)) \<rparr>"

end
