(* ===== verification/Host_Pool.thy ===== *)
theory Host_Pool
  imports Host_Types
begin

text \<open>
  The per-thread pool of connection objects, \<^verbatim>\<open>src/host/custom_server/src/mempool.c\<close>:
  an array of pointers used as a stack.  \<open>object_pool\<close> is the contract the packet
  handlers use; a run of allocations and releases never hands out an object that is
  still in use.
\<close>


section \<open>Model\<close>

text \<open>\<open>malloc i\<close> is the pointer the \<open>i\<close>-th allocation returns, if any.\<close>

fun conn_pool_fill :: "(nat \<Rightarrow> conn_ptr option) \<Rightarrow> nat list \<Rightarrow> host \<Rightarrow> host option" where
  "conn_pool_fill malloc [] h = Some h"
| "conn_pool_fill malloc (i # is) h =
     (case malloc i of
        None \<Rightarrow> None
      | Some p \<Rightarrow>
          let h = h\<lparr> conn_pool := (conn_pool h)[i := p] \<rparr>;
              h = h\<lparr> conns := (conns h)(p := conn_zero) \<rparr>;
              h = h\<lparr> pool_top := pool_top h + 1 \<rparr>;
              h = h\<lparr> conn_pool := (conn_pool h)[nat (pool_top h) := conn_pool h ! i] \<rparr>
          in conn_pool_fill malloc is h)"

definition conn_pool_init :: "(nat \<Rightarrow> conn_ptr option) \<Rightarrow> host \<Rightarrow> host option" where
  "conn_pool_init malloc h = conn_pool_fill malloc [0..<MAX_CONN] (h\<lparr> pool_top := - 1 \<rparr>)"

definition conn_state_alloc :: "host \<Rightarrow> conn_ptr option \<times> host" where
  "conn_state_alloc h =
     (if pool_top h < 0 then (None, h)
      else
        let c = conn_pool h ! nat (pool_top h);
            h = h\<lparr> pool_top := pool_top h - 1 \<rparr>;
            h = h\<lparr> conns := (conns h)(c := conn_zero) \<rparr>;
            h = upd_conn c (\<lambda>x. x\<lparr> file_idx := - 1 \<rparr>) h;
            h = upd_conn c (\<lambda>x. x\<lparr> resp_fd := - 1 \<rparr>) h
        in (Some c, h))"

definition conn_state_free :: "conn_ptr option \<Rightarrow> host \<Rightarrow> host" where
  "conn_state_free conn h =
     (case conn of
        None \<Rightarrow> h
      | Some p \<Rightarrow>
          let h = (if resp_fd (conns h p) \<ge> 0
                   then upd_conn p (\<lambda>x. x\<lparr> resp_fd := - 1 \<rparr>)
                          (snd (host_sys (Sys_close (resp_fd (conns h p))) h))
                   else h);
              h = h\<lparr> pool_top := pool_top h + 1 \<rparr>
          in h\<lparr> conn_pool := (conn_pool h)[nat (pool_top h) := p] \<rparr>)"


section \<open>Contract\<close>

locale object_pool =
  fixes alloc :: "'s \<Rightarrow> 'p option \<times> 's"
    and free :: "'p \<Rightarrow> 's \<Rightarrow> 's"
    and avail :: "'s \<Rightarrow> 'p set"
    and cap :: nat
    and inv :: "'s \<Rightarrow> bool"
  assumes alloc_empty: "inv s \<Longrightarrow> avail s = {} \<Longrightarrow> alloc s = (None, s)"
    and alloc_some: "inv s \<Longrightarrow> avail s \<noteq> {} \<Longrightarrow>
          \<exists>p s'. alloc s = (Some p, s') \<and> p \<in> avail s \<and> avail s' = avail s - {p} \<and> inv s'"
    and free_ok: "inv s \<Longrightarrow> p \<notin> avail s \<Longrightarrow> card (avail s) < cap \<Longrightarrow>
          inv (free p s) \<and> avail (free p s) = insert p (avail s)"
    and avail_finite: "inv s \<Longrightarrow> finite (avail s)"
begin

text \<open>A client that allocates (\<open>None\<close>) or releases an object it holds (\<open>Some p\<close>;
  ignored if it does not hold it); \<open>used\<close> is the set of objects it holds.\<close>

primrec client_run :: "'p option list \<Rightarrow> 'p set \<Rightarrow> 's \<Rightarrow> 'p set \<times> 's" where
  "client_run [] used s = (used, s)"
| "client_run (c # cs) used s =
     (case c of
        None \<Rightarrow> (case alloc s of
                  (None, s') \<Rightarrow> client_run cs used s'
                | (Some p, s') \<Rightarrow> client_run cs (insert p used) s')
      | Some p \<Rightarrow> if p \<in> used then client_run cs (used - {p}) (free p s)
                  else client_run cs used s)"

lemma client_run_partition:
  assumes "inv s" "avail s \<inter> used = {}" "avail s \<union> used = A" "finite used" "card A \<le> cap"
    and "client_run cs used s = (used', s')"
  shows "inv s' \<and> avail s' \<inter> used' = {} \<and> avail s' \<union> used' = A"
  using assms
proof (induction cs arbitrary: used s)
  case Nil
  then show ?case by simp
next
  case (Cons c cs)
  show ?case
  proof (cases c)
    case None
    show ?thesis
    proof (cases "avail s = {}")
      case True
      with Cons None alloc_empty[of s] show ?thesis by auto
    next
      case False
      with alloc_some[OF \<open>inv s\<close>] obtain p s1 where
        p: "alloc s = (Some p, s1)" "p \<in> avail s" "avail s1 = avail s - {p}" "inv s1" by blast
      have "client_run cs (insert p used) s1 = (used', s')" using Cons.prems(6) None p(1) by simp
      moreover have "avail s1 \<inter> insert p used = {}" "avail s1 \<union> insert p used = A"
        using Cons.prems(2,3) p(2,3) by auto
      ultimately show ?thesis
        using Cons.prems(4,5) p(4) by (intro Cons.IH) simp_all
    qed
  next
    case (Some p)
    show ?thesis
    proof (cases "p \<in> used")
      case True
      then have np: "p \<notin> avail s" using Cons.prems(2) by blast
      have fin: "finite A" using Cons.prems(3,4) avail_finite[OF Cons.prems(1)] by auto
      have "avail s \<subset> A" using True np Cons.prems(3) by blast
      then have "card (avail s) < card A" using psubset_card_mono[OF fin] by blast
      then have "card (avail s) < cap" using Cons.prems(5) by (rule order_less_le_trans)
      with free_ok[OF Cons.prems(1) np] have f: "inv (free p s)" "avail (free p s) = insert p (avail s)"
        by auto
      have "client_run cs (used - {p}) (free p s) = (used', s')"
        using Cons.prems(6) Some True by simp
      moreover have "avail (free p s) \<inter> (used - {p}) = {}" "avail (free p s) \<union> (used - {p}) = A"
        using Cons.prems(2,3) True f(2) by auto
      ultimately show ?thesis
        using Cons.prems(4,5) f(1) by (intro Cons.IH) simp_all
    next
      case False
      with Cons Some show ?thesis by auto
    qed
  qed
qed

end


section \<open>The stack implements the contract\<close>

definition pool_free_list :: "host \<Rightarrow> conn_ptr list" where
  "pool_free_list h = take (nat (pool_top h + 1)) (conn_pool h)"

definition pool_inv :: "host \<Rightarrow> bool" where
  "pool_inv h \<longleftrightarrow>
     length (conn_pool h) = MAX_CONN \<and> - 1 \<le> pool_top h \<and> pool_top h < int MAX_CONN \<and>
     distinct (pool_free_list h)"

lemma pool_inv_length: "pool_inv h \<Longrightarrow> length (pool_free_list h) = nat (pool_top h + 1)"
  by (auto simp: pool_inv_def pool_free_list_def)

lemma alloc_effect:
  assumes "pool_inv h" "0 \<le> pool_top h"
  shows "\<exists>c h'. conn_state_alloc h = (Some c, h') \<and> pool_free_list h = pool_free_list h' @ [c] \<and>
           pool_inv h' \<and>
           h' = h\<lparr> pool_top := pool_top h - 1,
                   conns := (conns h)(c := conn_zero\<lparr> file_idx := - 1, resp_fd := - 1 \<rparr>) \<rparr>"
proof -
  let ?c = "conn_pool h ! nat (pool_top h)"
  let ?h = "h\<lparr> pool_top := pool_top h - 1,
               conns := (conns h)(?c := conn_zero\<lparr> file_idx := - 1, resp_fd := - 1 \<rparr>) \<rparr>"
  have e: "conn_state_alloc h = (Some ?c, ?h)"
    using assms(2) by (simp add: conn_state_alloc_def upd_conn_def Let_def)
  have t: "nat (pool_top h + 1) = Suc (nat (pool_top h))" "nat (pool_top h) < length (conn_pool h)"
    using assms by (auto simp: pool_inv_def)
  have s: "pool_free_list h = pool_free_list ?h @ [?c]"
    unfolding pool_free_list_def t(1) by (simp add: take_Suc_conv_app_nth[OF t(2)])
  have "distinct (pool_free_list ?h)" using assms(1) s by (simp add: pool_inv_def)
  then have "pool_inv ?h" using assms by (simp add: pool_inv_def pool_free_list_def)
  with e s show ?thesis by auto
qed

lemma free_effect:
  assumes "pool_inv h" "p \<notin> set (pool_free_list h)" "pool_top h < int MAX_CONN - 1"
  shows "pool_inv (conn_state_free (Some p) h)"
    "pool_free_list (conn_state_free (Some p) h) = pool_free_list h @ [p]"
proof -
  let ?h = "conn_state_free (Some p) h"
  have t: "nat (pool_top h + 1) < length (conn_pool h)" "nat (pool_top h + 2) = Suc (nat (pool_top h + 1))"
    using assms by (auto simp: pool_inv_def)
  have f: "conn_pool ?h = (conn_pool h)[nat (pool_top h + 1) := p]" "pool_top ?h = pool_top h + 1"
    by (simp_all add: conn_state_free_def upd_conn_def host_sys_def sys_def Let_def)
  show s: "pool_free_list ?h = pool_free_list h @ [p]"
    unfolding pool_free_list_def f using t by (simp add: take_Suc_conv_app_nth add.commute)
  show "pool_inv ?h"
    using assms s f unfolding pool_inv_def by auto
qed

interpretation mempool: object_pool conn_state_alloc "\<lambda>p. conn_state_free (Some p)"
  "\<lambda>h. set (pool_free_list h)" MAX_CONN pool_inv
proof unfold_locales
  fix s p
  assume inv: "pool_inv s"
  note len = pool_inv_length[OF inv]
  have top: "pool_top s < 0 \<longleftrightarrow> pool_free_list s = []"
    using len inv by (auto simp: pool_inv_def)
  show "set (pool_free_list s) = {} \<Longrightarrow> conn_state_alloc s = (None, s)"
    using top by (simp add: conn_state_alloc_def)
  show "set (pool_free_list s) \<noteq> {} \<Longrightarrow>
      \<exists>p s'. conn_state_alloc s = (Some p, s') \<and> p \<in> set (pool_free_list s) \<and>
             set (pool_free_list s') = set (pool_free_list s) - {p} \<and> pool_inv s'"
  proof -
    assume "set (pool_free_list s) \<noteq> {}"
    with top have "0 \<le> pool_top s" by auto
    with alloc_effect[OF inv] obtain c s' where
      "conn_state_alloc s = (Some c, s')" "pool_free_list s = pool_free_list s' @ [c]" "pool_inv s'"
      by blast
    moreover from this inv have "c \<notin> set (pool_free_list s')" by (simp add: pool_inv_def)
    ultimately show ?thesis by force
  qed
  show "finite (set (pool_free_list s))" by simp
  assume np: "p \<notin> set (pool_free_list s)" and c: "card (set (pool_free_list s)) < MAX_CONN"
  have "pool_top s < int MAX_CONN - 1"
    using c len inv by (simp add: pool_inv_def distinct_card)
  from free_effect[OF inv np this] show "pool_inv (conn_state_free (Some p) s) \<and>
      set (pool_free_list (conn_state_free (Some p) s)) = insert p (set (pool_free_list s))"
    by auto
qed

lemma conn_pool_fill_result:
  assumes "\<And>i. i < n \<Longrightarrow> malloc i = Some (addr i)"
    and "length (conn_pool h) = n" "i \<le> n" "pool_top h = int i - 1"
    and "take i (conn_pool h) = map addr [0..<i]"
  shows "\<exists>h'. conn_pool_fill malloc [i..<n] h = Some h' \<and>
           conn_pool h' = map addr [0..<n] \<and> pool_top h' = int n - 1"
  using assms(2-5)
proof (induction "n - i" arbitrary: i h)
  case 0
  then show ?case by simp
next
  case (Suc m)
  then have i: "i < n" by simp
  define h1 where "h1 = h\<lparr> conns := (conns h)(addr i := conn_zero), pool_top := int i,
      conn_pool := (conn_pool h)[i := addr i] \<rparr>"
  have step: "conn_pool_fill malloc [i..<n] h = conn_pool_fill malloc [Suc i..<n] h1"
    using i Suc.prems assms(1)[OF i] by (simp add: upt_conv_Cons h1_def Let_def)
  have "take (Suc i) (conn_pool h1) = map addr [0..<Suc i]"
    using i Suc.prems by (simp add: h1_def take_Suc_conv_app_nth)
  then have "\<exists>h'. conn_pool_fill malloc [Suc i..<n] h1 = Some h' \<and>
        conn_pool h' = map addr [0..<n] \<and> pool_top h' = int n - 1"
    using i Suc.hyps(2) Suc.prems by (intro Suc.hyps(1)) (auto simp: h1_def)
  then show ?case unfolding step .
qed

lemma conn_pool_init_inv:
  assumes "\<And>i. i < MAX_CONN \<Longrightarrow> malloc i = Some (addr i)" "inj_on addr {..<MAX_CONN}"
    and "length (conn_pool h0) = MAX_CONN"
  shows "\<exists>h. conn_pool_init malloc h0 = Some h \<and> pool_inv h \<and>
           set (pool_free_list h) = addr ` {..<MAX_CONN}"
proof -
  obtain h where h: "conn_pool_fill malloc [0..<MAX_CONN] (h0\<lparr> pool_top := - 1 \<rparr>) = Some h"
    "conn_pool h = map addr [0..<MAX_CONN]" "pool_top h = int MAX_CONN - 1"
    using conn_pool_fill_result[of MAX_CONN malloc addr "h0\<lparr> pool_top := - 1 \<rparr>" 0] assms by auto
  have "pool_free_list h = map addr [0..<MAX_CONN]"
    by (simp add: pool_free_list_def h)
  moreover have "inj_on addr (set [0..<MAX_CONN])"
    using assms(2) by (simp add: lessThan_atLeast0)
  ultimately show ?thesis
    using h by (intro exI[of _ h]) (auto simp: conn_pool_init_def pool_inv_def distinct_map MAX_CONN_def)
qed


section \<open>Properties\<close>

text \<open>C28: once the pool is initialised with distinct objects, initialisation
  succeeds, and after any sequence of allocations and releases by a client every object
  is either free or held, never both: no connection object is handed out twice.\<close>

theorem pool_no_double_use:
  assumes "\<And>i. i < MAX_CONN \<Longrightarrow> malloc i = Some (addr i)" "inj_on addr {..<MAX_CONN}"
    and "length (conn_pool h0) = MAX_CONN"
  shows "\<exists>h. conn_pool_init malloc h0 = Some h \<and>
    (\<forall>cs. case mempool.client_run cs {} h of (used, h') \<Rightarrow>
       set (pool_free_list h') \<inter> used = {} \<and>
       set (pool_free_list h') \<union> used = addr ` {..<MAX_CONN})"
proof -
  obtain h where h: "conn_pool_init malloc h0 = Some h" "pool_inv h"
    "set (pool_free_list h) = addr ` {..<MAX_CONN}"
    using conn_pool_init_inv[OF assms] by blast
  have "card (addr ` {..<MAX_CONN}) \<le> MAX_CONN"
    using card_image_le[of "{..<MAX_CONN}" addr] by simp
  then have "case mempool.client_run cs {} h of (used, h') \<Rightarrow>
       set (pool_free_list h') \<inter> used = {} \<and> set (pool_free_list h') \<union> used = addr ` {..<MAX_CONN}" for cs
    using mempool.client_run_partition[of h "{}" "addr ` {..<MAX_CONN}" cs] h(2,3)
    by (auto split: prod.splits)
  with h(1) show ?thesis by blast
qed

text \<open>An initial thread state, used by the witnesses.\<close>

definition idle_world :: "(nat \<Rightarrow> sysret) \<Rightarrow> world" where
  "idle_world env = \<lparr> w_env = env, w_n = 0, w_out = [] \<rparr>"

definition ret_ok :: sysret where
  "ret_ok = \<lparr> rv = 0, rerr = E_other, rdata = [], rcmsg = [] \<rparr>"

definition empty_ht :: "'p hashtable" where
  "empty_ht = \<lparr> ht_bins = NUM_BINS, ht_table = replicate (unat NUM_BINS) [], ht_count = 0 \<rparr>"

definition host_init :: "(nat \<Rightarrow> sysret) \<Rightarrow> conn_ptr hashtable \<Rightarrow> host" where
  "host_init env ht =
    \<lparr> core_id = 0, meta_sock = 3, epfd = 4, ht_conn = ht,
      conn_pool = replicate MAX_CONN 0, pool_top = - 1, conns = (\<lambda>_. conn_zero), meta_buf = replicate RECV_META_BUF_SIZE 0,
      key_metas = 0, new_conns = 0, closed_conns = 0, total_conn_time = (0, 0),
      wrld = idle_world env \<rparr>"

theorem pool_no_double_use_witness:
  "\<exists>h. conn_pool_init (\<lambda>i. Some i) (host_init (\<lambda>_. ret_ok) empty_ht) = Some h \<and>
    (\<forall>cs. case mempool.client_run cs {} h of (used, h') \<Rightarrow>
       set (pool_free_list h') \<inter> used = {} \<and>
       set (pool_free_list h') \<union> used = (\<lambda>i. i) ` {..<MAX_CONN})"
  by (rule pool_no_double_use) (simp_all add: host_init_def)

end
