(* ===== verification/Host_Sock.thy ===== *)
theory Host_Sock
  imports Host_Types Host_Pool
begin

text \<open>
  Sockets of the host server: \<^verbatim>\<open>src/host/custom_server/src/multiplex_io.c\<close> (epoll
  registration, \<open>None\<close> when the process exits) and the migration of a TCP and TLS
  connection into the kernel, \<^verbatim>\<open>src/host/custom_server/src/set_sock.c\<close>.

  \<open>repair_run\<close> is the documented effect of the \<^verbatim>\<open>TCP_REPAIR\<close> socket options; the
  property shows that the option sequence issued by \<open>set_mig_sock\<close> leaves the two
  queues at the sequence numbers received from the SmartNIC.
\<close>


section \<open>epoll\<close>

definition O_NONBLOCK :: int where "O_NONBLOCK = 2048"

definition set_nonblock :: "int \<Rightarrow> world \<Rightarrow> int \<times> world" where
  "set_nonblock fd w =
     (let (f, w) = sys (Sys_fcntl_getfl fd) w;
          (r, w) = sys (Sys_fcntl_setfl fd (rv f OR O_NONBLOCK)) w
      in (rv r, w))"

text \<open>The object that \<^verbatim>\<open>calloc\<close> returns is passed to epoll with the meta socket.\<close>

definition register_epoll_in_meta_sock ::
  "conn_ptr option \<Rightarrow> int \<Rightarrow> world \<Rightarrow> (int \<times> conn_state \<times> world) option" where
  "register_epoll_in_meta_sock calloc msock w =
     (let (e, w) = sys Sys_epoll_create w; ep = rv e in
      case calloc of
        None \<Rightarrow> None
      | Some p \<Rightarrow>
          let conn = conn_zero\<lparr> sock_fd := msock \<rparr>;
              conn = conn\<lparr> sock_state := INIT \<rparr>
          in if ep < 0 then None
             else let (r, w) = sys (Sys_epoll_add msock EPOLLIN_only p) w
                  in if rv r < 0 then None else Some (ep, conn, w))"

definition epoll_op :: "int \<Rightarrow> syscall \<Rightarrow> world \<Rightarrow> (int \<times> world) option" where
  "epoll_op ep c w =
     (if ep < 0 then None
      else let (r, w) = sys c w in if rv r < 0 then None else Some (ep, w))"

definition register_epoll_in_mig_sock :: "conn_ptr \<Rightarrow> int \<Rightarrow> int \<Rightarrow> world \<Rightarrow> (int \<times> world) option" where
  "register_epoll_in_mig_sock p fd ep w = epoll_op ep (Sys_epoll_add fd EPOLLIN_only p) w"

definition register_epoll_out_mig_sock :: "conn_ptr \<Rightarrow> int \<Rightarrow> int \<Rightarrow> world \<Rightarrow> (int \<times> world) option" where
  "register_epoll_out_mig_sock p fd ep w = epoll_op ep (Sys_epoll_add fd EPOLLOUT_only p) w"

definition mod_epoll_inout_mig_sock :: "conn_ptr \<Rightarrow> int \<Rightarrow> int \<Rightarrow> world \<Rightarrow> (int \<times> world) option" where
  "mod_epoll_inout_mig_sock p fd ep w = epoll_op ep (Sys_epoll_mod fd EPOLLIN_OUT p) w"

definition mod_epoll_in_mig_sock :: "conn_ptr \<Rightarrow> int \<Rightarrow> int \<Rightarrow> world \<Rightarrow> (int \<times> world) option" where
  "mod_epoll_in_mig_sock p fd ep w = epoll_op ep (Sys_epoll_mod fd EPOLLIN_only p) w"

definition mod_epoll_out_mig_sock :: "conn_ptr \<Rightarrow> int \<Rightarrow> int \<Rightarrow> world \<Rightarrow> (int \<times> world) option" where
  "mod_epoll_out_mig_sock p fd ep w = epoll_op ep (Sys_epoll_mod fd EPOLLOUT_only p) w"

definition remove_epoll_mig_sock :: "int \<Rightarrow> int \<Rightarrow> world \<Rightarrow> (int \<times> world) option" where
  "remove_epoll_mig_sock fd ep w = epoll_op ep (Sys_epoll_del fd) w"


section \<open>TCP migration\<close>

definition TCP_RECV_QUEUE :: int where "TCP_RECV_QUEUE = 1"
definition TCP_SEND_QUEUE :: int where "TCP_SEND_QUEUE = 2"
definition TCPOPT_MAXSEG :: int where "TCPOPT_MAXSEG = 2"
definition TCPOPT_WINDOW :: int where "TCPOPT_WINDOW = 3"

text \<open>Each option is one call; on failure the function returns \<open>-1\<close> at once.  The
  repair options fail on any nonzero result, the socket level ones on \<open>-1\<close>.\<close>

definition set_mig_sock :: "meta_info \<Rightarrow> world \<Rightarrow> int \<times> world" where
  "set_mig_sock mi w =
    (let (s, w) = sys Sys_socket w; sock = rv s in
     if sock < 0 then (- 1, w)
     else let (r, w) = sys (Sys_setsockopt sock TCP_REPAIR (Opt_int 1)) w in
     if rv r \<noteq> 0 then (- 1, w)
     else let (r, w) = sys (Sys_setsockopt sock SO_REUSEADDR (Opt_int 1)) w in
     if rv r = - 1 then (- 1, w)
     else let (r, w) = sys (Sys_setsockopt sock SO_REUSEPORT (Opt_int 1)) w in
     if rv r = - 1 then (- 1, w)
     else let (r, w) = sys (Sys_setsockopt sock SO_LINGER (Opt_repair [(1, 0)])) w in
     if rv r = - 1 then (- 1, w)
     else let (r, w) = sys (Sys_setsockopt sock TCP_REPAIR_QUEUE (Opt_int TCP_SEND_QUEUE)) w in
     if rv r \<noteq> 0 then (- 1, w)
     else let (r, w) = sys (Sys_setsockopt sock TCP_QUEUE_SEQ (Opt_int (sint (mi_seq_num mi)))) w in
     if rv r \<noteq> 0 then (- 1, w)
     else let (r, w) = sys (Sys_setsockopt sock TCP_REPAIR_QUEUE (Opt_int TCP_RECV_QUEUE)) w in
     if rv r \<noteq> 0 then (- 1, w)
     else let (r, w) = sys (Sys_setsockopt sock TCP_QUEUE_SEQ (Opt_int (sint (mi_ack_num mi)))) w in
     if rv r \<noteq> 0 then (- 1, w)
     else (sock, w))"

definition mig_tcp_conn :: "conn_ptr \<Rightarrow> conn_state \<Rightarrow> int \<Rightarrow> world \<Rightarrow> (int \<times> world) option" where
  "mig_tcp_conn p conn ep w =
    (let fd = sock_fd conn in
     case register_epoll_out_mig_sock p fd ep w of
       None \<Rightarrow> None
     | Some (e, w) \<Rightarrow> Some
         (if e < 0 then (- 1, w)
          else let (r, w) = sys (Sys_bind fd SERVER_IP SSL_PORT) w in
          if rv r \<noteq> 0 then (- 1, w)
          else let (r, w) = sys (Sys_connect fd (mi_client_ip (meta_info conn)) (mi_client_port (meta_info conn))) w in
          if rv r \<noteq> 0 then (- 1, w)
          else let opts = [(TCPOPT_WINDOW, 14 + push_bit 16 14), (TCPOPT_MAXSEG, 1460)];
                   (r, w) = sys (Sys_setsockopt fd TCP_REPAIR_OPTIONS (Opt_repair opts)) w in
          if rv r < 0 then (- 1, w)
          else let (r, w) = sys (Sys_setsockopt fd TCP_REPAIR (Opt_int 0)) w in
          if rv r \<noteq> 0 then (- 1, w)
          else (0, w)))"

text \<open>\<open>zc\<close>: the kernel headers are version 5.19 or later.  Only the first option can
  make the function fail.\<close>

definition mig_tls_conn :: "bool \<Rightarrow> conn_state \<Rightarrow> world \<Rightarrow> int \<times> world" where
  "mig_tls_conn zc conn w =
    (let fd = sock_fd conn;
         (r, w) = sys (Sys_setsockopt fd TCP_ULP Opt_ulp) w in
     if rv r < 0 then (- 1, w)
     else let (r, w) = sys (Sys_setsockopt fd TCP_CORK (Opt_int 1)) w;
              (r, w) = sys (Sys_setsockopt fd TLS_RX (Opt_crypto (crypto_info_rx conn))) w;
              (r, w) = sys (Sys_setsockopt fd TLS_TX (Opt_crypto (crypto_info_tx conn))) w;
              w = (if zc then snd (sys (Sys_setsockopt fd TLS_TX_ZEROCOPY_RO (Opt_int 1)) w) else w)
          in (0, w))"


section \<open>Effect of the repair options\<close>

text \<open>A socket in repair mode: the selected queue and the sequence number of each
  queue.  \<^verbatim>\<open>TCP_QUEUE_SEQ\<close> sets the number of the selected queue.\<close>

record repair =
  rp_on :: bool
  rp_queue :: int
  rp_snd :: "u32 option"
  rp_rcv :: "u32 option"

fun repair_step :: "int \<Rightarrow> repair \<Rightarrow> syscall \<Rightarrow> repair" where
  "repair_step fd r (Sys_setsockopt fd' opt (Opt_int v)) =
     (if fd' \<noteq> fd then r
      else if opt = TCP_REPAIR then r\<lparr> rp_on := (v = 1) \<rparr>
      else if opt = TCP_REPAIR_QUEUE then r\<lparr> rp_queue := v \<rparr>
      else if opt = TCP_QUEUE_SEQ \<and> rp_on r then
        (if rp_queue r = TCP_SEND_QUEUE then r\<lparr> rp_snd := Some (word_of_int v) \<rparr>
         else if rp_queue r = TCP_RECV_QUEUE then r\<lparr> rp_rcv := Some (word_of_int v) \<rparr>
         else r)
      else r)"
| "repair_step fd r _ = r"

definition repair_run :: "int \<Rightarrow> syscall list \<Rightarrow> repair" where
  "repair_run fd cs =
     foldl (repair_step fd) \<lparr> rp_on = False, rp_queue = 0, rp_snd = None, rp_rcv = None \<rparr> cs"

text \<open>The calls of a successful \<open>set_mig_sock\<close>.\<close>

definition mig_sock_calls :: "int \<Rightarrow> meta_info \<Rightarrow> syscall list" where
  "mig_sock_calls sock mi =
    [Sys_socket, Sys_setsockopt sock TCP_REPAIR (Opt_int 1),
     Sys_setsockopt sock SO_REUSEADDR (Opt_int 1), Sys_setsockopt sock SO_REUSEPORT (Opt_int 1),
     Sys_setsockopt sock SO_LINGER (Opt_repair [(1, 0)]),
     Sys_setsockopt sock TCP_REPAIR_QUEUE (Opt_int TCP_SEND_QUEUE),
     Sys_setsockopt sock TCP_QUEUE_SEQ (Opt_int (sint (mi_seq_num mi))),
     Sys_setsockopt sock TCP_REPAIR_QUEUE (Opt_int TCP_RECV_QUEUE),
     Sys_setsockopt sock TCP_QUEUE_SEQ (Opt_int (sint (mi_ack_num mi)))]"

lemma set_mig_sock_calls:
  assumes "set_mig_sock mi w = (fd, w')" "0 \<le> fd"
  shows "w_out w' = w_out w @ mig_sock_calls fd mi" "fd = rv (w_env w (w_n w))"
  using assms
  by (auto simp: set_mig_sock_def sys_def Let_def mig_sock_calls_def split: if_splits)

lemma set_mig_sock_env:
  "w_env (snd (set_mig_sock mi w)) = w_env w"
  by (simp add: set_mig_sock_def sys_def Let_def)


section \<open>Properties\<close>

text \<open>C29: \<open>set_mig_sock\<close> returns \<open>-1\<close> or the new descriptor, and in the latter case
  its socket options put the socket in repair mode with the send queue at the
  sequence number and the receive queue at the acknowledgement number of the meta
  information.\<close>

theorem set_mig_sock_repair:
  assumes "set_mig_sock mi w = (fd, w')" "fd \<noteq> - 1"
  shows "0 \<le> fd \<and> fd = rv (w_env w (w_n w)) \<and>
    repair_run fd (drop (length (w_out w)) (w_out w')) =
      \<lparr> rp_on = True, rp_queue = TCP_RECV_QUEUE,
        rp_snd = Some (mi_seq_num mi), rp_rcv = Some (mi_ack_num mi) \<rparr>"
proof -
  have pos: "0 \<le> fd"
    using assms by (auto simp: set_mig_sock_def sys_def Let_def split: if_splits)
  note c = set_mig_sock_calls[OF assms(1) pos]
  have "repair_run fd (mig_sock_calls fd mi) =
      \<lparr> rp_on = True, rp_queue = TCP_RECV_QUEUE,
        rp_snd = Some (mi_seq_num mi), rp_rcv = Some (mi_ack_num mi) \<rparr>"
    by (simp add: repair_run_def mig_sock_calls_def TCP_SEND_QUEUE_def TCP_RECV_QUEUE_def)
  with pos c show ?thesis by simp
qed

definition demo_meta :: meta_info where
  "demo_meta = \<lparr> mi_client_ip = 0x0A000001, mi_client_port = 50000,
     mi_seq_num = 0xDEADBEEF, mi_ack_num = 0x01020304, mi_ssl_meta = None \<rparr>"

theorem set_mig_sock_repair_witness:
  "\<exists>fd w'. set_mig_sock demo_meta (idle_world (\<lambda>_. ret_ok)) = (fd, w') \<and> fd \<noteq> - 1 \<and>
     repair_run fd (w_out w') =
       \<lparr> rp_on = True, rp_queue = TCP_RECV_QUEUE,
         rp_snd = Some 0xDEADBEEF, rp_rcv = Some 0x01020304 \<rparr>"
proof -
  obtain w' where e: "set_mig_sock demo_meta (idle_world (\<lambda>_. ret_ok)) = (0, w')"
    by (simp add: set_mig_sock_def sys_def Let_def idle_world_def ret_ok_def)
  from set_mig_sock_repair[OF e] e show ?thesis
    by (intro exI[of _ 0] exI[of _ w']) (simp add: idle_world_def demo_meta_def)
qed

end
