(* ===== verification/Meta_Layout.thy ===== *)
theory Meta_Layout
  imports Xtls_Prelude
begin

text \<open>
  Memory layout of the structures that travel from the SmartNIC to the host in a
  meta packet.  \<^verbatim>\<open>conn_meta_t\<close> (\<^verbatim>\<open>src/smartnic/offload_ssl/include/host.h\<close>) and
  \<^verbatim>\<open>ssl_meta_t\<close> (\<^verbatim>\<open>src/host/custom_server/include/common.h\<close>) declare the same
  fields in the same order; both compilers place them at the offsets below, with one
  byte of padding at the end (788 bytes).  \<^verbatim>\<open>meta_hdr_t\<close> is packed and puts 38 bytes
  of frame header in front.
\<close>

record ssl_meta =
  sm_session_id :: u16
  sm_major :: u8
  sm_minor :: u8
  sm_bulk_cipher_algorithm :: u32
  sm_cipher_type :: u32
  sm_mac_algorithm :: u32
  sm_mac_key_size :: u8
  sm_client_write_MAC_secret :: bytes
  sm_server_write_MAC_secret :: bytes
  sm_enc_key_size :: u8
  sm_client_write_key :: bytes
  sm_server_write_key :: bytes
  sm_fixed_iv_length :: u8
  sm_client_write_IV :: bytes
  sm_server_write_IV :: bytes

definition sizeof_ssl_meta :: nat where "sizeof_ssl_meta = 788"

definition ssl_meta_wf :: "ssl_meta \<Rightarrow> bool" where
  "ssl_meta_wf m \<longleftrightarrow>
     length (sm_client_write_MAC_secret m) = 128 \<and> length (sm_server_write_MAC_secret m) = 128 \<and>
     length (sm_client_write_key m) = 128 \<and> length (sm_server_write_key m) = 128 \<and>
     length (sm_client_write_IV m) = 128 \<and> length (sm_server_write_IV m) = 128"

text \<open>The object as bytes in memory, and the object found at an offset of a buffer.\<close>

definition ssl_meta_bytes :: "ssl_meta \<Rightarrow> bytes" where
  "ssl_meta_bytes m =
     le_bytes 2 (sm_session_id m) @ [sm_major m, sm_minor m] @
     le_bytes 4 (sm_bulk_cipher_algorithm m) @ le_bytes 4 (sm_cipher_type m) @
     le_bytes 4 (sm_mac_algorithm m) @
     [sm_mac_key_size m] @ sm_client_write_MAC_secret m @ sm_server_write_MAC_secret m @
     [sm_enc_key_size m] @ sm_client_write_key m @ sm_server_write_key m @
     [sm_fixed_iv_length m] @ sm_client_write_IV m @ sm_server_write_IV m @ [0]"

definition ssl_meta_at :: "bytes \<Rightarrow> nat \<Rightarrow> ssl_meta" where
  "ssl_meta_at b k =
     \<lparr> sm_session_id = ld16 b k,
       sm_major = b ! (k + 2), sm_minor = b ! (k + 3),
       sm_bulk_cipher_algorithm = ld32 b (k + 4),
       sm_cipher_type = ld32 b (k + 8),
       sm_mac_algorithm = ld32 b (k + 12),
       sm_mac_key_size = b ! (k + 16),
       sm_client_write_MAC_secret = seg (k + 17) 128 b,
       sm_server_write_MAC_secret = seg (k + 145) 128 b,
       sm_enc_key_size = b ! (k + 273),
       sm_client_write_key = seg (k + 274) 128 b,
       sm_server_write_key = seg (k + 402) 128 b,
       sm_fixed_iv_length = b ! (k + 530),
       sm_client_write_IV = seg (k + 531) 128 b,
       sm_server_write_IV = seg (k + 659) 128 b \<rparr>"

record meta_hdr =
  mh_server_seq_num :: u32
  mh_server_ack_num :: u32
  mh_custom_eth_type :: u16
  mh_client_ip :: u32
  mh_server_ip :: u32
  mh_client_port :: u16
  mh_server_port :: u16
  mh_conn_meta :: ssl_meta
  mh_eth_pad :: bytes
  mh_ip_pad :: bytes

definition meta_hdr_bytes :: "meta_hdr \<Rightarrow> bytes" where
  "meta_hdr_bytes h =
     mh_eth_pad h @ le_bytes 4 (mh_server_seq_num h) @ le_bytes 4 (mh_server_ack_num h) @
     le_bytes 2 (mh_custom_eth_type h) @ mh_ip_pad h @
     le_bytes 4 (mh_client_ip h) @ le_bytes 4 (mh_server_ip h) @
     le_bytes 2 (mh_client_port h) @ le_bytes 2 (mh_server_port h) @
     ssl_meta_bytes (mh_conn_meta h)"

definition meta_hdr_wf :: "meta_hdr \<Rightarrow> bool" where
  "meta_hdr_wf h \<longleftrightarrow>
     length (mh_eth_pad h) = 4 \<and> length (mh_ip_pad h) = 12 \<and> ssl_meta_wf (mh_conn_meta h)"

lemma length_ssl_meta_bytes: "ssl_meta_wf m \<Longrightarrow> length (ssl_meta_bytes m) = sizeof_ssl_meta"
  by (simp add: ssl_meta_bytes_def ssl_meta_wf_def sizeof_ssl_meta_def)

lemma length_meta_hdr_bytes: "meta_hdr_wf h \<Longrightarrow> length (meta_hdr_bytes h) = 826"
  by (simp add: meta_hdr_bytes_def meta_hdr_wf_def length_ssl_meta_bytes sizeof_ssl_meta_def)

text \<open>Field reads from a concatenation: skip the fields in front.\<close>

lemma seg_skip: "length xs = k \<Longrightarrow> k \<le> i \<Longrightarrow> seg i n (xs @ ys) = seg (i - k) n ys"
  by (simp add: seg_append_right)

lemma seg_skip1: "0 < i \<Longrightarrow> seg i n (x # xs) = seg (i - 1) n xs"
  by (cases i) (simp_all add: seg_def)

lemma seg_here: "length xs = n \<Longrightarrow> seg 0 n (xs @ ys) = xs"
  by (simp add: seg_def)

lemma seg_full: "length xs = n \<Longrightarrow> seg 0 n xs = xs"
  by (simp add: seg_def)

lemma nth_as_seg: "i < length b \<Longrightarrow> b ! i = hd (seg i 1 b)"
  by (simp add: seg_def hd_drop_conv_nth take_Suc hd_conv_nth)

lemma ssl_meta_fields:
  assumes "ssl_meta_wf m"
  shows "ssl_meta_at (ssl_meta_bytes m) 0 = m"
  using assms unfolding ssl_meta_wf_def
  by (simp add: ssl_meta_at_def ssl_meta_bytes_def ld16_def ld32_def seg_skip seg_skip1 seg_here
      nth_append byte_simps)

text \<open>The reads of the host, at the offsets of the whole frame; the bytes behind the
  header do not matter.\<close>

lemma meta_hdr_fields:
  assumes "meta_hdr_wf h"
  shows "seg 4 4 (meta_hdr_bytes h @ rest) = le_bytes 4 (mh_server_seq_num h)"
    "seg 8 4 (meta_hdr_bytes h @ rest) = le_bytes 4 (mh_server_ack_num h)"
    "seg 12 2 (meta_hdr_bytes h @ rest) = le_bytes 2 (mh_custom_eth_type h)"
    "seg 26 4 (meta_hdr_bytes h @ rest) = le_bytes 4 (mh_client_ip h)"
    "seg 30 4 (meta_hdr_bytes h @ rest) = le_bytes 4 (mh_server_ip h)"
    "seg 34 2 (meta_hdr_bytes h @ rest) = le_bytes 2 (mh_client_port h)"
    "seg 36 2 (meta_hdr_bytes h @ rest) = le_bytes 2 (mh_server_port h)"
    "seg 0 4 (meta_hdr_bytes h @ rest) = mh_eth_pad h"
    "seg 14 2 (meta_hdr_bytes h @ rest) = seg 0 2 (mh_ip_pad h)"
  using assms unfolding meta_hdr_wf_def
  by (simp_all add: meta_hdr_bytes_def seg_skip seg_here seg_append_left seg_full)

lemma seg_meta_hdr_bytes:
  assumes "meta_hdr_wf h" "i + n \<le> sizeof_ssl_meta"
  shows "seg (38 + i) n (meta_hdr_bytes h @ rest) = seg i n (ssl_meta_bytes (mh_conn_meta h))"
proof -
  have l: "length (ssl_meta_bytes (mh_conn_meta h)) = sizeof_ssl_meta"
    using assms(1) by (simp add: meta_hdr_wf_def length_ssl_meta_bytes)
  show ?thesis
    using assms l unfolding meta_hdr_wf_def
    by (simp add: meta_hdr_bytes_def seg_skip seg_append_left)
qed

lemma nth_meta_hdr_bytes:
  assumes "meta_hdr_wf h" "i < sizeof_ssl_meta"
  shows "(meta_hdr_bytes h @ rest) ! (38 + i) = ssl_meta_bytes (mh_conn_meta h) ! i"
proof -
  have l: "length (ssl_meta_bytes (mh_conn_meta h)) = sizeof_ssl_meta"
    using assms(1) by (simp add: meta_hdr_wf_def length_ssl_meta_bytes)
  show ?thesis
    using assms l unfolding meta_hdr_wf_def
    by (simp add: meta_hdr_bytes_def nth_append)
qed

lemma ssl_meta_at_cong:
  assumes "\<And>i n. i + n \<le> 788 \<Longrightarrow> seg (k + i) n b = seg i n c" "\<And>i. i < 788 \<Longrightarrow> b ! (k + i) = c ! i"
  shows "ssl_meta_at b k = ssl_meta_at c 0"
  using assms(1)[of 0] assms(2)[of 2] by (simp add: ssl_meta_at_def ld16_def ld32_def assms numeral_2_eq_2)

lemma ssl_meta_at_frame:
  assumes "meta_hdr_wf h"
  shows "ssl_meta_at (meta_hdr_bytes h @ rest) 38 = mh_conn_meta h"
proof -
  have "ssl_meta_at (meta_hdr_bytes h @ rest) 38 = ssl_meta_at (ssl_meta_bytes (mh_conn_meta h)) 0"
    using seg_meta_hdr_bytes[OF assms] nth_meta_hdr_bytes[OF assms]
    by (intro ssl_meta_at_cong) (simp_all add: sizeof_ssl_meta_def)
  also have "\<dots> = mh_conn_meta h"
    using assms by (simp add: ssl_meta_fields meta_hdr_wf_def)
  finally show ?thesis .
qed

end
