(* ===== verification/Host_Meta.thy ===== *)
theory Host_Meta
  imports Host_Sock Meta_Layout
begin

text \<open>
  Meta packets on the host, \<^verbatim>\<open>src/host/custom_server/src/meta_pkt.c\<close>: the key packet
  that starts a migration, the packet that replaces a stale connection, the stray SYN
  that is answered with a close, and the two packets sent back to the SmartNIC.

  A result \<open>None\<close> is a run that does not continue: the process exits, dereferences a
  null pointer, or copies outside a buffer.
\<close>


section \<open>Packets sent to the SmartNIC\<close>

text \<open>The 64-byte frames: the buffer starts out zero and each assignment of the C code
  is one \<open>blit\<close>.  The two frames differ in the type of service and in the field at
  offset 48, which only the first one fills (in host byte order).\<close>

definition arm_packet :: "u8 \<Rightarrow> meta_info \<Rightarrow> bytes" where
  "arm_packet tos mi =
    (let b = replicate SND_META_PKT_SIZE 0;
         b = blit b 0 (replicate 6 0);
         b = blit b 6 (replicate 6 0);
         b = b[12 := 0x08]; b = b[13 := 0x00];
         b = b[14 := 0x45]; b = b[15 := tos];
         b = b[16 := 0x00]; b = b[17 := 0x28];
         b = b[22 := 64]; b = b[23 := 6];
         b = blit b 26 (le_bytes 4 (htonl (mi_client_ip mi)));
         b = blit b 30 (le_bytes 4 (htonl SERVER_IP));
         b = blit b 34 (le_bytes 2 (htons (mi_client_port mi)));
         b = blit b 36 (le_bytes 2 (htons SSL_PORT));
         b = blit b 38 (le_bytes 4 (htonl (mi_seq_num mi)))
     in blit b 42 (le_bytes 4 (htonl (mi_ack_num mi))))"

definition mig_fin_packet :: "conn_state \<Rightarrow> bytes" where
  "mig_fin_packet conn =
    (let mi = meta_info conn;
         ack_num_for_rst = (word_of_int (uint (mi_ack_num mi) + recv_bytes conn) :: u32)
     in blit (arm_packet 0xfd mi) 48 (le_bytes 4 ack_num_for_rst))"

definition send_mig_fin_to_arm :: "int \<Rightarrow> conn_state \<Rightarrow> world \<Rightarrow> int \<times> world" where
  "send_mig_fin_to_arm msock conn w =
    (let (sent, w) = sys (Sys_sendto msock (mig_fin_packet conn)) w
     in if rv sent < 0 then (- 1, w) else (0, w))"

definition send_close_to_arm :: "int \<Rightarrow> meta_info \<Rightarrow> world \<Rightarrow> int \<times> world" where
  "send_close_to_arm msock mi w =
    (let (sent, w) = sys (Sys_sendto msock (arm_packet 0xfc mi)) w
     in if rv sent < 0 then (- 1, w) else (0, w))"


section \<open>Received packets\<close>

definition validate_meta_type :: "bytes \<Rightarrow> meta_type" where
  "validate_meta_type buf =
    (let eth_type = ntohs (ld16 buf 12) in
     if eth_type \<in> set key_eth_types then META_TYPE_KEY
     else if eth_type = RST_CONN_META_ETH_TYPE then META_TYPE_RST_CONN
     else if eth_type = WEIRD_SYN then META_TYPE_WEIRD_SYN
     else META_TYPE_UNKNOWN)"

text \<open>One direction of the kernel TLS parameters, from the key and IV arrays of the
  meta data.\<close>

definition fill_crypto :: "bool \<Rightarrow> ssl_meta \<Rightarrow> bytes \<Rightarrow> bytes \<Rightarrow> crypto_info" where
  "fill_crypto tls13 m key iv =
    \<lparr> ci_version = push_bit 8 (ucast (sm_major m)) OR ucast (sm_minor m),
      ci_cipher_type = TLS_CIPHER_AES_GCM_256,
      ci_iv = (if tls13 then seg GCM_256_SALT_SIZE GCM_256_IV_SIZE iv else replicate GCM_256_IV_SIZE 0),
      ci_key = seg 0 GCM_256_KEY_SIZE key,
      ci_salt = seg 0 GCM_256_SALT_SIZE iv,
      ci_rec_seq = (let z = replicate GCM_256_REC_SEQ_SIZE 0 in
                    if tls13 then z else z[GCM_256_REC_SEQ_SIZE - 1 := 0x01]) \<rparr>"

definition handle_meta_data :: "bool \<Rightarrow> bytes \<Rightarrow> meta_info \<times> crypto_info \<times> crypto_info" where
  "handle_meta_data tls13 buf =
    (let mi = \<lparr> mi_client_ip = ntohl (ld32 buf 26), mi_client_port = ntohs (ld16 buf 34),
                mi_seq_num = ntohl (ld32 buf 4), mi_ack_num = ntohl (ld32 buf 8),
                mi_ssl_meta = Some 38 \<rparr>;
         m = ssl_meta_at buf 38
     in (mi, fill_crypto tls13 m (sm_client_write_key m) (sm_client_write_IV m),
             fill_crypto tls13 m (sm_server_write_key m) (sm_server_write_IV m)))"

text \<open>\<^verbatim>\<open>memcpy\<close> with the length found in the packet; a length outside both buffers is
  undefined.\<close>

definition handle_sccs_sf_records :: "bytes \<Rightarrow> conn_state \<Rightarrow> conn_state option" where
  "handle_sccs_sf_records buf conn =
    (let off = 16 + sizeof_ssl_meta;
         conn = conn\<lparr> record_len := sint (ld32 buf off) \<rparr>;
         n = record_len conn
     in if n < 0 \<or> off + nat n > length buf then None
        else Some (conn\<lparr> sccs_sf_buf := blit (sccs_sf_buf conn) 0 (seg off (nat n) buf) \<rparr>))"

text \<open>The common tail of the key and the reset packet: a new connection object is
  filled from the buffer, linked, and migrated.  The start time is stored through the
  allocated pointer before it is compared with null.\<close>

definition fill_conn :: "bool \<Rightarrow> nat \<Rightarrow> host \<Rightarrow> (conn_ptr \<times> host) option" where
  "fill_conn tls13 buf_len h =
    (case conn_state_alloc h of
       (None, h) \<Rightarrow> None
     | (Some p, h) \<Rightarrow>
         let (t, h) = host_sys Sys_clock h;
             h = upd_conn p (\<lambda>c. c\<lparr> conn_start := timespec_of t \<rparr>) h;
             (mi, rx, tx) = handle_meta_data tls13 (meta_buf h);
             h = upd_conn p (\<lambda>c. c\<lparr> meta_info := mi, crypto_info_rx := rx, crypto_info_tx := tx \<rparr>) h
         in (case handle_sccs_sf_records (meta_buf h) (conns h p) of
               None \<Rightarrow> None
             | Some c \<Rightarrow>
                 let h = upd_conn p (\<lambda>_. c) h;
                     h = upd_conn p (\<lambda>c. c\<lparr> sccs_sf_buf :=
                           blit (sccs_sf_buf c) 0 (seg 0 buf_len (meta_buf h)) \<rparr>) h
                 in Some (p, h)))"

definition migrate_conn :: "conn_ptr \<Rightarrow> host \<Rightarrow> (int \<times> host) option" where
  "migrate_conn p h =
    (let (fd, w) = set_mig_sock (meta_info (conns h p)) (wrld h);
         h = upd_conn p (\<lambda>c. c\<lparr> sock_fd := fd \<rparr>) (h\<lparr> wrld := w \<rparr>);
         (nb, w) = set_nonblock (sock_fd (conns h p)) (wrld h);
         h = h\<lparr> wrld := w \<rparr>
     in if nb < 0 then Some (- 1, snd (host_sys (Sys_close (sock_fd (conns h p))) h))
        else (case mig_tcp_conn p (conns h p) (epfd h) (wrld h) of
                None \<Rightarrow> None
              | Some (m, w) \<Rightarrow>
                  let h = h\<lparr> wrld := w \<rparr> in
                  if m < 0 then
                    let h = h\<lparr> ht_conn := host_ht_remove (host_key h) (ht_conn h) p \<rparr>;
                        h = snd (host_sys (Sys_close (sock_fd (conns h p))) h)
                    in Some (- 1, conn_state_free (Some p) h)
                  else Some (0, upd_conn p (\<lambda>c. c\<lparr> sock_state := INIT \<rparr>) h)))"

definition install_conn :: "bool \<Rightarrow> nat \<Rightarrow> host \<Rightarrow> (int \<times> host) option" where
  "install_conn tls13 buf_len h =
    (case fill_conn tls13 buf_len h of
       None \<Rightarrow> None
     | Some (p, h) \<Rightarrow> migrate_conn p (h\<lparr> ht_conn := host_ht_insert (host_key h) (ht_conn h) p \<rparr>))"

definition handle_key_packet :: "bool \<Rightarrow> nat \<Rightarrow> host \<Rightarrow> (int \<times> host) option" where
  "handle_key_packet tls13 buf_len h =
    (let h = h\<lparr> key_metas := key_metas h + 1 \<rparr>;
         client_ip = ntohl (ld32 (meta_buf h) 26);
         client_port = ntohs (ld16 (meta_buf h) 34)
     in case host_ht_search (host_key h) (ht_conn h) client_ip client_port of
          Some existing_conn \<Rightarrow>
            let (r, w) = send_mig_fin_to_arm (meta_sock h) (conns h existing_conn) (wrld h)
            in Some (- 1, h\<lparr> wrld := w \<rparr>)
        | None \<Rightarrow> install_conn tls13 buf_len h)"

definition handle_rst_conn_packet :: "bool \<Rightarrow> nat \<Rightarrow> host \<Rightarrow> (int \<times> host) option" where
  "handle_rst_conn_packet tls13 buf_len h =
    (let client_ip = ntohl (ld32 (meta_buf h) 0);
         client_port = ntohs (ld16 (meta_buf h) 14)
     in case host_ht_search (host_key h) (ht_conn h) client_ip client_port of
          None \<Rightarrow> Some (- 1, h)
        | Some p \<Rightarrow>
            let h = h\<lparr> ht_conn := host_ht_remove (host_key h) (ht_conn h) p \<rparr>;
                h = snd (host_sys (Sys_close (sock_fd (conns h p))) h);
                h = conn_state_free (Some p) h
            in install_conn tls13 buf_len h)"

text \<open>\<^verbatim>\<open>struct ethhdr\<close> is 14 bytes; \<^verbatim>\<open>ihl\<close> is the low nibble of the first IP byte.\<close>

definition handle_unterminated_conn :: "host \<Rightarrow> (int \<times> host) option" where
  "handle_unterminated_conn h =
    (let buf = meta_buf h;
         tcph = 14 + unat (buf ! 14 AND 0x0f) * 4;
         mi = \<lparr> mi_client_ip = ntohl (ld32 buf (14 + 12)), mi_client_port = ntohs (ld16 buf tcph),
                mi_seq_num = ntohl (ld32 buf (tcph + 4)), mi_ack_num = ntohl (ld32 buf (tcph + 8)),
                mi_ssl_meta = None \<rparr>;
         (r, w) = send_close_to_arm (meta_sock h) mi (wrld h)
     in Some (0, h\<lparr> wrld := w \<rparr>))"

text \<open>\<^verbatim>\<open>recvfrom\<close> writes the received bytes over the front of the buffer.\<close>

definition handle_meta_packet :: "bool \<Rightarrow> host \<Rightarrow> (int \<times> host) option" where
  "handle_meta_packet tls13 h =
    (let (r, h) = host_sys (Sys_recvfrom (meta_sock h)) h; len = rv r in
     if len < 0 then Some (- 1, h)
     else let h = h\<lparr> meta_buf := blit (meta_buf h) 0 (rdata r) \<rparr> in
       case validate_meta_type (meta_buf h) of
         META_TYPE_UNKNOWN \<Rightarrow> Some (- 1, h)
       | META_TYPE_KEY \<Rightarrow> handle_key_packet tls13 (nat len) h
       | META_TYPE_RST_CONN \<Rightarrow> handle_rst_conn_packet tls13 (nat len) h
       | META_TYPE_WEIRD_SYN \<Rightarrow> handle_unterminated_conn h)"


section \<open>Invariant of the connection objects\<close>

text \<open>Every object of the pool \<open>A\<close> is either free or linked in the table, never both;
  the table has one entry per client.\<close>

definition host_inv :: "conn_ptr set \<Rightarrow> host \<Rightarrow> bool" where
  "host_inv A h \<longleftrightarrow>
     pool_inv h \<and> table_inv host_calculate_hash (host_key h) (ht_conn h) \<and>
     set (pool_free_list h) \<inter> ht_members (ht_conn h) = {} \<and>
     set (pool_free_list h) \<union> ht_members (ht_conn h) = A \<and> card A \<le> MAX_CONN"

text \<open>The same with one object \<open>p\<close> in the hands of a handler.\<close>

definition host_mid :: "conn_ptr set \<Rightarrow> conn_ptr \<Rightarrow> host \<Rightarrow> bool" where
  "host_mid A p h \<longleftrightarrow>
     pool_inv h \<and> table_inv host_calculate_hash (host_key h) (ht_conn h) \<and>
     set (pool_free_list h) \<inter> ht_members (ht_conn h) = {} \<and>
     p \<notin> set (pool_free_list h) \<and> p \<notin> ht_members (ht_conn h) \<and>
     insert p (set (pool_free_list h) \<union> ht_members (ht_conn h)) = A \<and> card A \<le> MAX_CONN"

abbreviation host_lookup :: "host \<Rightarrow> u32 \<Rightarrow> u16 \<Rightarrow> conn_ptr option" where
  "host_lookup h ip port \<equiv> host_ht_search (host_key h) (ht_conn h) ip port"

lemma host_inv_world [simp]: "host_inv A (h\<lparr> wrld := w \<rparr>) = host_inv A h"
  by (simp add: host_inv_def pool_inv_def pool_free_list_def)

lemma host_inv_key_metas [simp]: "host_inv A (h\<lparr> key_metas := k \<rparr>) = host_inv A h"
  by (simp add: host_inv_def pool_inv_def pool_free_list_def)

lemma host_inv_meta_buf [simp]: "host_inv A (h\<lparr> meta_buf := b \<rparr>) = host_inv A h"
  by (simp add: host_inv_def pool_inv_def pool_free_list_def)

lemma host_inv_sys [simp]: "host_inv A (snd (host_sys c h)) = host_inv A h"
  by (simp add: host_sys_def sys_def)

lemma host_mid_world [simp]: "host_mid A p (h\<lparr> wrld := w \<rparr>) = host_mid A p h"
  by (simp add: host_mid_def pool_inv_def pool_free_list_def)

lemma host_mid_sys [simp]: "host_mid A p (snd (host_sys c h)) = host_mid A p h"
  by (simp add: host_sys_def sys_def)

lemma host_inv_upd_conn:
  assumes "host_inv A h" "conn_client (f (conns h p)) = conn_client (conns h p)"
  shows "host_inv A (upd_conn p f h)"
proof -
  have "host_key (upd_conn p f h) = host_key h" using assms(2) by (auto simp: upd_conn_def)
  then show ?thesis
    using assms(1) by (simp add: host_inv_def pool_inv_def pool_free_list_def upd_conn_def)
qed

lemma host_inv_finite: "host_inv A h \<Longrightarrow> finite A"
  by (auto simp: host_inv_def ht_members_def)

lemma host_alloc_mid:
  assumes "host_inv A h" "conn_state_alloc h = (Some p, h')"
  shows "host_mid A p h'"
    "h' = h\<lparr> pool_top := pool_top h - 1,
            conns := (conns h)(p := conn_zero\<lparr> file_idx := - 1, resp_fd := - 1 \<rparr>) \<rparr>"
proof -
  have inv: "pool_inv h" using assms(1) by (simp add: host_inv_def)
  have "0 \<le> pool_top h" using assms(2) by (simp add: conn_state_alloc_def split: if_splits)
  from alloc_effect[OF inv this] assms(2) have e: "pool_free_list h = pool_free_list h' @ [p]"
    "pool_inv h'"
    and h': "h' = h\<lparr> pool_top := pool_top h - 1,
            conns := (conns h)(p := conn_zero\<lparr> file_idx := - 1, resp_fd := - 1 \<rparr>) \<rparr>" by auto
  show "h' = h\<lparr> pool_top := pool_top h - 1,
            conns := (conns h)(p := conn_zero\<lparr> file_idx := - 1, resp_fd := - 1 \<rparr>) \<rparr>" by (rule h')
  have ht: "ht_conn h' = ht_conn h" by (simp add: h')
  have pm: "p \<notin> ht_members (ht_conn h)" and pf: "p \<notin> set (pool_free_list h')"
    using assms(1) e(1) by (auto simp: host_inv_def pool_inv_def)
  have "table_inv host_calculate_hash (host_key h') (ht_conn h) =
        table_inv host_calculate_hash (host_key h) (ht_conn h)"
    using pm by (intro table_inv_cong) (auto simp: h')
  then show "host_mid A p h'"
    using assms(1) e(1,2) pm pf unfolding host_mid_def ht host_inv_def by auto
qed

lemma host_mid_upd: "host_mid A p h \<Longrightarrow> host_mid A p (upd_conn p f h)"
proof -
  assume m: "host_mid A p h"
  then have "p \<notin> ht_members (ht_conn h)" by (simp add: host_mid_def)
  then have "table_inv host_calculate_hash (host_key (upd_conn p f h)) (ht_conn h) =
             table_inv host_calculate_hash (host_key h) (ht_conn h)"
    by (intro table_inv_cong) (auto simp: upd_conn_def)
  with m show ?thesis
    by (simp add: host_mid_def pool_inv_def pool_free_list_def upd_conn_def)
qed

lemma host_mid_insert:
  assumes "host_mid A p h" "conn_client (conns h p) = (ip, port)" "host_lookup h ip port = None"
  shows "host_inv A (h\<lparr> ht_conn := host_ht_insert (host_key h) (ht_conn h) p \<rparr>)"
    "p \<in> ht_members (host_ht_insert (host_key h) (ht_conn h) p)"
proof -
  have "table_inv host_calculate_hash (host_key h) (ht_conn h)"
    using assms(1) by (simp add: host_mid_def)
  from host_tab.ins_fresh[OF this, of p] assms(2,3)
  have i: "table_inv host_calculate_hash (host_key h) (host_ht_insert (host_key h) (ht_conn h) p)"
    "ht_members (host_ht_insert (host_key h) (ht_conn h) p) = insert p (ht_members (ht_conn h))"
    by auto
  then show "p \<in> ht_members (host_ht_insert (host_key h) (ht_conn h) p)" by simp
  show "host_inv A (h\<lparr> ht_conn := host_ht_insert (host_key h) (ht_conn h) p \<rparr>)"
    using assms(1) i by (auto simp: host_mid_def host_inv_def pool_inv_def pool_free_list_def)
qed

lemma host_remove_mid:
  assumes "host_inv A h" "p \<in> ht_members (ht_conn h)"
  shows "host_mid A p (h\<lparr> ht_conn := host_ht_remove (host_key h) (ht_conn h) p \<rparr>)"
proof -
  have "table_inv host_calculate_hash (host_key h) (ht_conn h)"
    using assms(1) by (simp add: host_inv_def)
  from host_tab.del_member[OF this assms(2)]
  have i: "table_inv host_calculate_hash (host_key h) (host_ht_remove (host_key h) (ht_conn h) p)"
    "ht_members (host_ht_remove (host_key h) (ht_conn h) p) = ht_members (ht_conn h) - {p}"
    by auto
  with assms show ?thesis
    by (auto simp: host_mid_def host_inv_def pool_inv_def pool_free_list_def)
qed

lemma conn_state_free_frame:
  "conn_client (conns (conn_state_free (Some p) h) q) = conn_client (conns h q)"
  "ht_conn (conn_state_free (Some p) h) = ht_conn h"
  by (simp_all add: conn_state_free_def upd_conn_def host_sys_def sys_def conn_client_def Let_def)

lemma host_mid_free:
  assumes "host_mid A p h"
  shows "host_inv A (conn_state_free (Some p) h)"
proof -
  have inv: "pool_inv h" and np: "p \<notin> set (pool_free_list h)" using assms by (auto simp: host_mid_def)
  have "finite A" using assms by (auto simp: host_mid_def ht_members_def)
  moreover have "set (pool_free_list h) \<subset> A" using assms by (auto simp: host_mid_def)
  ultimately have "card (set (pool_free_list h)) < card A" by (rule psubset_card_mono)
  moreover have "card A \<le> MAX_CONN" using assms by (simp add: host_mid_def)
  ultimately have "card (set (pool_free_list h)) < MAX_CONN" by (rule order_less_le_trans)
  with mempool.free_ok[OF inv np] have f: "pool_inv (conn_state_free (Some p) h)"
    "set (pool_free_list (conn_state_free (Some p) h)) = insert p (set (pool_free_list h))" by auto
  have "table_inv host_calculate_hash (host_key (conn_state_free (Some p) h)) (ht_conn h)"
    using assms by (simp add: conn_state_free_frame host_mid_def)
  with assms f show ?thesis by (auto simp: host_inv_def host_mid_def conn_state_free_frame)
qed

text \<open>Unlinking a connection and returning its object.\<close>

lemma host_unlink_free:
  assumes "host_inv A h" "p \<in> ht_members (ht_conn h)"
    and "h1 = h\<lparr> ht_conn := host_ht_remove (host_key h) (ht_conn h) p \<rparr>"
  shows "host_inv A (conn_state_free (Some p) (h1\<lparr> wrld := w \<rparr>))"
    "host_lookup (conn_state_free (Some p) (h1\<lparr> wrld := w \<rparr>)) ip port =
       (if (ip, port) = host_key h p then None else host_lookup h ip port)"
proof -
  have m: "host_mid A p (h1\<lparr> wrld := w \<rparr>)"
    using host_remove_mid[OF assms(1,2)] by (simp add: assms(3))
  then show "host_inv A (conn_state_free (Some p) (h1\<lparr> wrld := w \<rparr>))" by (rule host_mid_free)
  have t: "table_inv host_calculate_hash (host_key h) (ht_conn h)"
    using assms(1) by (simp add: host_inv_def)
  show "host_lookup (conn_state_free (Some p) (h1\<lparr> wrld := w \<rparr>)) ip port =
       (if (ip, port) = host_key h p then None else host_lookup h ip port)"
    using host_tab.srch_del[OF t assms(2), of "(ip, port)"]
    by (simp add: conn_state_free_frame assms(3))
qed

definition meta_client :: "bytes \<Rightarrow> client" where
  "meta_client buf = (ntohl (ld32 buf 26), ntohs (ld16 buf 34))"

lemma sccs_client:
  "handle_sccs_sf_records buf c = Some c' \<Longrightarrow> meta_info c' = meta_info c"
  by (auto simp: handle_sccs_sf_records_def Let_def split: if_splits)

lemma fill_conn_effect:
  assumes "fill_conn tls13 n h = Some (p, h')"
  shows "\<exists>h0 c w. conn_state_alloc h = (Some p, h0) \<and> h' = upd_conn p (\<lambda>_. c) (h0\<lparr> wrld := w \<rparr>) \<and>
           conn_client c = meta_client (meta_buf h0)"
proof -
  from assms obtain h0 where a: "conn_state_alloc h = (Some p, h0)"
    by (auto simp: fill_conn_def Let_def split: prod.splits option.splits)
  let ?m = "handle_meta_data tls13 (meta_buf h0)"
  let ?c0 = "(conns h0 p)\<lparr> conn_start := timespec_of (fst (sys Sys_clock (wrld h0))),
      meta_info := fst ?m, crypto_info_rx := fst (snd ?m), crypto_info_tx := snd (snd ?m) \<rparr>"
  have "fill_conn tls13 n h = (case handle_sccs_sf_records (meta_buf h0) ?c0 of None \<Rightarrow> None
      | Some c \<Rightarrow> Some (p, upd_conn p (\<lambda>_. c\<lparr> sccs_sf_buf :=
                blit (sccs_sf_buf c) 0 (seg 0 n (meta_buf h0)) \<rparr>) (h0\<lparr> wrld := snd (sys Sys_clock (wrld h0)) \<rparr>)))"
    by (simp add: fill_conn_def a Let_def host_sys_def upd_conn_def case_prod_beta split: option.split)
  with assms obtain c where c: "handle_sccs_sf_records (meta_buf h0) ?c0 = Some c"
    and h': "h' = upd_conn p (\<lambda>_. c\<lparr> sccs_sf_buf :=
                blit (sccs_sf_buf c) 0 (seg 0 n (meta_buf h0)) \<rparr>) (h0\<lparr> wrld := snd (sys Sys_clock (wrld h0)) \<rparr>)"
    by (auto split: option.splits)
  have "conn_client (c\<lparr> sccs_sf_buf := blit (sccs_sf_buf c) 0 (seg 0 n (meta_buf h0)) \<rparr>) =
        meta_client (meta_buf h0)"
    using sccs_client[OF c] by (simp add: conn_client_def meta_client_def handle_meta_data_def Let_def)
  with a h' show ?thesis by blast
qed

lemma fill_conn_mid:
  assumes "host_inv A h" "fill_conn tls13 n h = Some (p, h')"
  shows "host_mid A p h'" "conn_client (conns h' p) = meta_client (meta_buf h)"
    "host_lookup h' ip port = host_lookup h ip port"
proof -
  from fill_conn_effect[OF assms(2)] obtain h0 c w where a: "conn_state_alloc h = (Some p, h0)"
    and h': "h' = upd_conn p (\<lambda>_. c) (h0\<lparr> wrld := w \<rparr>)"
    and c: "conn_client c = meta_client (meta_buf h0)" by blast
  note m = host_alloc_mid[OF assms(1) a]
  show mid: "host_mid A p h'" unfolding h' by (simp add: host_mid_upd m(1))
  show "conn_client (conns h' p) = meta_client (meta_buf h)"
    using c by (simp add: h' upd_conn_def m(2))
  have ht: "ht_conn h' = ht_conn h" by (simp add: h' upd_conn_def m(2))
  have "p \<notin> ht_members (ht_conn h)" using mid by (simp add: host_mid_def ht)
  moreover have "length (ht_table (ht_conn h)) = unat NUM_BINS"
    using assms(1) by (simp add: host_inv_def table_inv_def)
  ultimately show "host_lookup h' ip port = host_lookup h ip port"
    unfolding ht by (intro host_ht_search_cong) (auto simp: h' upd_conn_def m(2))
qed

lemma migrate_conn_inv:
  assumes "host_inv A h" "p \<in> ht_members (ht_conn h)" "migrate_conn p h = Some (r, h')"
  shows "host_inv A h'"
proof -
  obtain fd w1 where s: "set_mig_sock (meta_info (conns h p)) (wrld h) = (fd, w1)" by fastforce
  let ?h1 = "upd_conn p (\<lambda>c. c\<lparr> sock_fd := fd \<rparr>) (h\<lparr> wrld := w1 \<rparr>)"
  have i1: "host_inv A ?h1"
    using assms(1) by (intro host_inv_upd_conn) (simp_all add: conn_client_def)
  obtain nb w2 where nb: "set_nonblock fd w1 = (nb, w2)" by fastforce
  let ?h2 = "?h1\<lparr> wrld := w2 \<rparr>"
  have fd2: "sock_fd (conns ?h2 p) = fd" "ht_conn ?h2 = ht_conn h" "wrld ?h1 = w1"
    by (simp_all add: upd_conn_def)
  have step: "migrate_conn p h =
     (if nb < 0 then Some (- 1, snd (host_sys (Sys_close fd) ?h2))
      else case mig_tcp_conn p (conns ?h2 p) (epfd ?h2) w2 of None \<Rightarrow> None
        | Some (m, w) \<Rightarrow> let h = ?h2\<lparr> wrld := w \<rparr> in
            if m < 0 then
              Some (- 1, conn_state_free (Some p) (snd (host_sys (Sys_close fd)
                (h\<lparr> ht_conn := host_ht_remove (host_key h) (ht_conn h) p \<rparr>))))
            else Some (0, upd_conn p (\<lambda>c. c\<lparr> sock_state := INIT \<rparr>) h))"
    by (simp add: migrate_conn_def s nb Let_def upd_conn_def split: option.split prod.split)
  show ?thesis
  proof (cases "nb < 0")
    case True
    then show ?thesis using assms(3) i1 step by auto
  next
    case False
    then obtain m w3 where m: "mig_tcp_conn p (conns ?h2 p) (epfd ?h2) w2 = Some (m, w3)"
      using assms(3) step by (auto split: option.splits)
    let ?h3 = "?h2\<lparr> wrld := w3 \<rparr>"
    have i3: "host_inv A ?h3" "p \<in> ht_members (ht_conn ?h3)" using i1 assms(2) fd2(2) by auto
    show ?thesis
    proof (cases "m < 0")
      case True
      then have "h' = conn_state_free (Some p) (snd (host_sys (Sys_close fd)
          (?h3\<lparr> ht_conn := host_ht_remove (host_key ?h3) (ht_conn ?h3) p \<rparr>)))"
        using assms(3) step False m by (simp add: Let_def)
      moreover have "host_mid A p (snd (host_sys (Sys_close fd)
          (?h3\<lparr> ht_conn := host_ht_remove (host_key ?h3) (ht_conn ?h3) p \<rparr>)))"
        using host_remove_mid[OF i3] by (simp only: host_mid_sys)
      ultimately show ?thesis using host_mid_free by blast
    next
      case False
      then have "h' = upd_conn p (\<lambda>c. c\<lparr> sock_state := INIT \<rparr>) ?h3"
        using assms(3) step \<open>\<not> nb < 0\<close> m by (simp add: Let_def)
      then show ?thesis using i3(1) host_inv_upd_conn by (simp add: conn_client_def)
    qed
  qed
qed

lemma install_conn_inv:
  assumes "host_inv A h" "meta_client (meta_buf h) = (ip, port)" "host_lookup h ip port = None"
    and "install_conn tls13 n h = Some (r, h')"
  shows "host_inv A h'"
proof -
  from assms(4) obtain p h1 where f: "fill_conn tls13 n h = Some (p, h1)"
    and g: "migrate_conn p (h1\<lparr> ht_conn := host_ht_insert (host_key h1) (ht_conn h1) p \<rparr>) = Some (r, h')"
    by (auto simp: install_conn_def split: option.splits)
  note m = fill_conn_mid[OF assms(1) f]
  have "conn_client (conns h1 p) = (ip, port)" "host_lookup h1 ip port = None"
    using m assms(2,3) by auto
  from host_mid_insert[OF m(1) this] show ?thesis
    by (intro migrate_conn_inv[OF _ _ g]) auto
qed

lemma send_mig_fin_out [simp]:
  "w_out (snd (send_mig_fin_to_arm ms c w)) = w_out w @ [Sys_sendto ms (mig_fin_packet c)]"
  by (simp add: send_mig_fin_to_arm_def sys_def)

lemma send_close_out [simp]:
  "w_out (snd (send_close_to_arm ms mi w)) = w_out w @ [Sys_sendto ms (arm_packet 0xfc mi)]"
  by (simp add: send_close_to_arm_def sys_def)

lemma handle_key_packet_cases:
  assumes "handle_key_packet tls13 n h = Some (r, h')"
  obtains (known) ip port p w where "meta_client (meta_buf h) = (ip, port)" "host_lookup h ip port = Some p"
      "r = - 1" "h' = h\<lparr> key_metas := key_metas h + 1, wrld := w \<rparr>"
      "w_out w = w_out (wrld h) @ [Sys_sendto (meta_sock h) (mig_fin_packet (conns h p))]"
  | (fresh) ip port where "meta_client (meta_buf h) = (ip, port)" "host_lookup h ip port = None"
      "install_conn tls13 n (h\<lparr> key_metas := key_metas h + 1 \<rparr>) = Some (r, h')"
proof -
  let ?ip = "ntohl (ld32 (meta_buf h) 26)" and ?port = "ntohs (ld16 (meta_buf h) 34)"
  show thesis
  proof (cases "host_lookup h ?ip ?port")
    case None
    with assms show thesis
      by (intro fresh[of ?ip ?port]) (simp_all add: handle_key_packet_def Let_def meta_client_def)
  next
    case (Some p)
    with assms show thesis
      by (intro known[of ?ip ?port p "snd (send_mig_fin_to_arm (meta_sock h) (conns h p) (wrld h))"])
        (simp_all add: handle_key_packet_def Let_def meta_client_def case_prod_beta)
  qed
qed

lemma handle_key_packet_inv:
  assumes "host_inv A h" "handle_key_packet tls13 n h = Some (r, h')"
  shows "host_inv A h'"
  using assms(2)
proof (cases rule: handle_key_packet_cases)
  case (known ip port p w)
  then show ?thesis using assms(1) by simp
next
  case (fresh ip port)
  have "host_inv A (h\<lparr> key_metas := key_metas h + 1 \<rparr>)" using assms(1) by simp
  from install_conn_inv[OF this _ _ fresh(3)] fresh(1,2) show ?thesis by auto
qed

lemma handle_rst_conn_packet_inv:
  assumes inv: "host_inv A h" and run: "handle_rst_conn_packet tls13 n h = Some (r, h')"
    and same: "case_prod (host_lookup h) (meta_client (meta_buf h)) \<in>
      {None, host_lookup h (ntohl (ld32 (meta_buf h) 0)) (ntohs (ld16 (meta_buf h) 14))}"
  shows "host_inv A h'"
proof (cases "host_lookup h (ntohl (ld32 (meta_buf h) 0)) (ntohs (ld16 (meta_buf h) 14))")
  case None
  with inv run show ?thesis by (simp add: handle_rst_conn_packet_def Let_def)
next
  case (Some p)
  let ?h1 = "h\<lparr> ht_conn := host_ht_remove (host_key h) (ht_conn h) p \<rparr>"
  let ?w = "snd (sys (Sys_close (sock_fd (conns h p))) (wrld h))"
  let ?h2 = "conn_state_free (Some p) (?h1\<lparr> wrld := ?w \<rparr>)"
  obtain ip port where cl: "meta_client (meta_buf h) = (ip, port)" by (cases "meta_client (meta_buf h)")
  have t: "table_inv host_calculate_hash (host_key h) (ht_conn h)" using inv by (simp add: host_inv_def)
  have m: "p \<in> ht_members (ht_conn h)" using host_tab.srch_found[OF t, of "(_, _)"] Some by fastforce
  have "host_lookup h ip port = None \<or> (ip, port) = host_key h p"
    using same Some cl host_tab.srch_found[OF t, of "(ip, port)" p] by auto
  then have n: "host_lookup ?h2 ip port = None"
    using host_unlink_free(2)[OF inv m refl] by auto
  have b: "meta_client (meta_buf ?h2) = (ip, port)"
    using cl by (simp add: conn_state_free_def Let_def upd_conn_def host_sys_def sys_def)
  have "install_conn tls13 n ?h2 = Some (r, h')"
    using run Some by (simp add: handle_rst_conn_packet_def Let_def host_sys_def case_prod_beta)
  from install_conn_inv[OF host_unlink_free(1)[OF inv m refl] b n this] show ?thesis .
qed

text \<open>What a successful installation leaves behind.\<close>

lemma migrate_conn_success:
  assumes "migrate_conn p h = Some (0, h')"
  shows "ht_conn h' = ht_conn h" "\<And>q. q \<noteq> p \<Longrightarrow> conns h' q = conns h q"
    "conns h' p = (conns h p)\<lparr> sock_fd := fst (set_mig_sock (meta_info (conns h p)) (wrld h)),
       sock_state := INIT \<rparr>"
  using assms
  by (auto simp: migrate_conn_def Let_def upd_conn_def host_sys_def sys_def
      split: prod.splits if_splits option.splits)

lemma fill_conn_data:
  assumes "fill_conn tls13 n h = Some (p, h')"
  shows "(meta_info (conns h' p), crypto_info_rx (conns h' p), crypto_info_tx (conns h' p)) =
         handle_meta_data tls13 (meta_buf h')"
    "record_len (conns h' p) = sint (ld32 (meta_buf h') (16 + sizeof_ssl_meta))"
  using assms
  by (auto simp: fill_conn_def Let_def upd_conn_def host_sys_def sys_def handle_sccs_sf_records_def
      split: prod.splits if_splits option.splits)

lemma fill_conn_buf: "fill_conn tls13 n h = Some (p, h') \<Longrightarrow> meta_buf h' = meta_buf h"
  by (auto simp: fill_conn_def Let_def upd_conn_def host_sys_def sys_def conn_state_alloc_def
      split: prod.splits if_splits option.splits)

lemma fill_conn_wrld:
  "fill_conn tls13 n h = Some (p, h') \<Longrightarrow> wrld h' = snd (sys Sys_clock (wrld h))"
  by (auto simp: fill_conn_def Let_def upd_conn_def host_sys_def conn_state_alloc_def
      split: prod.splits if_splits option.splits)

lemma install_conn_success:
  assumes inv: "host_inv A h" and cl: "meta_client (meta_buf h) = (ip, port)"
    and none: "host_lookup h ip port = None" and ok: "install_conn tls13 n h = Some (0, h')"
  shows "\<exists>p. host_lookup h' ip port = Some p \<and> sock_state (conns h' p) = INIT \<and>
    sock_fd (conns h' p) = fst (set_mig_sock (meta_info (conns h' p)) (snd (sys Sys_clock (wrld h)))) \<and>
    (meta_info (conns h' p), crypto_info_rx (conns h' p), crypto_info_tx (conns h' p)) =
       handle_meta_data tls13 (meta_buf h) \<and>
    (\<forall>ip' port'. (ip', port') \<noteq> (ip, port) \<longrightarrow> host_lookup h' ip' port' = host_lookup h ip' port')"
proof -
  from ok obtain p h1 where f: "fill_conn tls13 n h = Some (p, h1)"
    and g: "migrate_conn p (h1\<lparr> ht_conn := host_ht_insert (host_key h1) (ht_conn h1) p \<rparr>) = Some (0, h')"
    by (auto simp: install_conn_def split: option.splits)
  note m = fill_conn_mid[OF inv f]
  have k1: "host_key h1 p = (ip, port)" using m(2) cl by simp
  have n1: "host_lookup h1 ip port = None" using m(3) none by simp
  note s = migrate_conn_success[OF g]
  have t1: "table_inv host_calculate_hash (host_key h1) (ht_conn h1)"
    using m(1) by (simp add: host_mid_def)
  have n1': "(case host_key h1 p of (ip, port) \<Rightarrow> host_lookup h1 ip port) = None"
    using k1 n1 by simp
  have cli: "host_key h' = host_key h1"
  proof
    fix q show "host_key h' q = host_key h1 q"
      using s(2)[of q] s(3) by (cases "q = p") (simp_all add: conn_client_def)
  qed
  have look: "host_lookup h' i q = (if (i, q) = (ip, port) then Some p else host_lookup h1 i q)" for i q
    using host_tab.srch_ins[OF t1 TrueI n1', of "(i, q)"] s(1) k1 by (simp add: cli)
  have d: "(meta_info (conns h' p), crypto_info_rx (conns h' p), crypto_info_tx (conns h' p)) =
       handle_meta_data tls13 (meta_buf h)" "sock_state (conns h' p) = INIT"
    "sock_fd (conns h' p) = fst (set_mig_sock (meta_info (conns h' p)) (snd (sys Sys_clock (wrld h))))"
    using s(3) fill_conn_data(1)[OF f] fill_conn_buf[OF f] fill_conn_wrld[OF f] by auto
  have "host_lookup h' i q = host_lookup h i q" if "(i, q) \<noteq> (ip, port)" for i q
    using that m(3) by (auto simp: look)
  with look d show ?thesis by (intro exI[of _ p]) auto
qed

text \<open>A kernel in which every call of a migration succeeds: \<^verbatim>\<open>socket\<close>, the second call
  from here, returns the descriptor \<open>fd\<close> and all others return zero.\<close>

definition kernel_ok :: "int \<Rightarrow> world \<Rightarrow> bool" where
  "kernel_ok fd w \<longleftrightarrow> 0 \<le> fd \<and> rv (w_env w (w_n w + 1)) = fd \<and>
     (\<forall>k \<ge> w_n w. k \<noteq> w_n w + 1 \<longrightarrow> rv (w_env w k) = 0)"

definition sccs_in_range :: "bytes \<Rightarrow> bool" where
  "sccs_in_range buf \<longleftrightarrow>
     (let n = sint (ld32 buf (16 + sizeof_ssl_meta)) in
      0 \<le> n \<and> 16 + sizeof_ssl_meta + nat n \<le> length buf)"

lemma set_mig_sock_ok: "kernel_ok fd w \<Longrightarrow> fst (set_mig_sock mi (snd (sys c w))) = fd"
  by (simp add: kernel_ok_def set_mig_sock_def sys_def Let_def)

lemma fill_conn_total:
  assumes "0 \<le> pool_top h" "sccs_in_range (meta_buf h)"
  shows "\<exists>p h'. fill_conn tls13 n h = Some (p, h') \<and> epfd h' = epfd h \<and>
    wrld h' = snd (sys Sys_clock (wrld h))"
  using assms
  by (auto simp: fill_conn_def conn_state_alloc_def Let_def upd_conn_def host_sys_def sccs_in_range_def
      handle_sccs_sf_records_def case_prod_beta)

lemma migrate_conn_total:
  assumes "0 \<le> epfd h" "0 \<le> fd" "rv (w_env (wrld h) (w_n (wrld h))) = fd"
    and "\<And>k. k > w_n (wrld h) \<Longrightarrow> rv (w_env (wrld h) k) = 0"
  shows "\<exists>w. migrate_conn p h =
    Some (0, upd_conn p (\<lambda>c. c\<lparr> sock_fd := fd, sock_state := INIT \<rparr>) (h\<lparr> wrld := w \<rparr>))"
  using assms
  by (auto simp: migrate_conn_def set_mig_sock_def set_nonblock_def mig_tcp_conn_def
      register_epoll_out_mig_sock_def epoll_op_def sys_def Let_def upd_conn_def)

lemma install_conn_total:
  assumes "0 \<le> pool_top h" "0 \<le> epfd h" "sccs_in_range (meta_buf h)" "kernel_ok fd (wrld h)"
  shows "\<exists>p h1 w. install_conn tls13 n h =
    Some (0, upd_conn p (\<lambda>c. c\<lparr> sock_fd := fd, sock_state := INIT \<rparr>) (h1\<lparr> wrld := w \<rparr>))"
proof -
  obtain p h' where f: "fill_conn tls13 n h = Some (p, h')" "epfd h' = epfd h"
    "wrld h' = snd (sys Sys_clock (wrld h))"
    using fill_conn_total[OF assms(1,3), of tls13 n] by blast
  let ?h = "h'\<lparr> ht_conn := host_ht_insert (host_key h') (ht_conn h') p \<rparr>"
  have "\<exists>w. migrate_conn p ?h =
      Some (0, upd_conn p (\<lambda>c. c\<lparr> sock_fd := fd, sock_state := INIT \<rparr>) (?h\<lparr> wrld := w \<rparr>))"
    using assms(2,4) f by (intro migrate_conn_total) (auto simp: kernel_ok_def)
  with f(1) show ?thesis by (auto simp: install_conn_def)
qed


section \<open>Properties\<close>

text \<open>Handling a meta packet keeps the ownership invariant of the thread: every
  connection object is either in the free pool or linked once in the table, and no two
  linked connections belong to the same client.  For the reset packet this needs that
  the client at offsets 26 and 34, under which the new connection is linked, is free or
  is the client that was looked up, at offsets 0 and 14.\<close>

theorem meta_packet_inv:
  assumes "host_inv A h" "handle_meta_packet tls13 h = Some (r, h')"
    and "buf = blit (meta_buf h) 0 (rdata (w_env (wrld h) (w_n (wrld h))))"
    and "validate_meta_type buf = META_TYPE_RST_CONN \<longrightarrow>
           host_lookup h (ntohl (ld32 buf 26)) (ntohs (ld16 buf 34)) \<in>
             {None, host_lookup h (ntohl (ld32 buf 0)) (ntohs (ld16 buf 14))}"
  shows "host_inv A h'"
proof -
  let ?h1 = "snd (host_sys (Sys_recvfrom (meta_sock h)) h)"
  let ?h2 = "?h1\<lparr> meta_buf := buf \<rparr>"
  let ?n = "nat (rv (w_env (wrld h) (w_n (wrld h))))"
  have i: "host_inv A ?h1" "host_inv A ?h2" using assms(1) by simp_all
  have l: "host_lookup ?h2 = host_lookup h" "meta_buf ?h2 = buf" "meta_buf ?h1 = meta_buf h"
    by (simp_all add: host_sys_def sys_def)
  have e: "handle_meta_packet tls13 h =
     (if rv (w_env (wrld h) (w_n (wrld h))) < 0 then Some (- 1, ?h1)
      else case validate_meta_type buf of
         META_TYPE_UNKNOWN \<Rightarrow> Some (- 1, ?h2)
       | META_TYPE_KEY \<Rightarrow> handle_key_packet tls13 ?n ?h2
       | META_TYPE_RST_CONN \<Rightarrow> handle_rst_conn_packet tls13 ?n ?h2
       | META_TYPE_WEIRD_SYN \<Rightarrow> handle_unterminated_conn ?h2)"
    unfolding assms(3) by (simp add: handle_meta_packet_def host_sys_def sys_def Let_def split: meta_type.split)
  have rst: "host_inv A h'" if "handle_rst_conn_packet tls13 ?n ?h2 = Some (r, h')"
      "validate_meta_type buf = META_TYPE_RST_CONN"
    using that(2) assms(4) by (intro handle_rst_conn_packet_inv[OF i(2) that(1)]) (simp add: meta_client_def host_sys_def sys_def)
  have syn: "host_inv A h'" if "handle_unterminated_conn ?h2 = Some (r, h')"
    using that i(2) by (auto simp: handle_unterminated_conn_def Let_def split: prod.splits)
  show ?thesis
    using assms(2) i handle_key_packet_inv[OF i(2)] rst syn
    unfolding e by (auto split: if_splits meta_type.splits)
qed

definition demo_host :: "(nat \<Rightarrow> sysret) \<Rightarrow> host" where
  "demo_host env = (host_init env empty_ht)\<lparr> conn_pool := (replicate MAX_CONN 0)[0 := 7], pool_top := 0 \<rparr>"

lemma empty_ht_inv: "table_inv hash key empty_ht" "ht_members empty_ht = {}"
  using create_ht_inv[of True True empty_ht] by (simp_all add: create_ht_def empty_ht_def)

lemma demo_host_inv: "host_inv {7} (demo_host env)"
proof -
  have "take 1 ((replicate MAX_CONN 0)[0 := (7::nat)]) = [7]"
    by (simp add: MAX_CONN_def take_Suc_conv_app_nth)
  then have "pool_free_list (demo_host env) = [7]"
    by (simp add: pool_free_list_def demo_host_def)
  then show ?thesis
    by (simp add: host_inv_def pool_inv_def empty_ht_inv) (simp add: demo_host_def host_init_def empty_ht_inv MAX_CONN_def)
qed

definition key_frame :: bytes where
  "key_frame = replicate 12 0 @ [0x08, 0x01] @ replicate 12 0 @ [10, 0, 0, 1] @ replicate 4 0 @ [0xC3, 0x50]"

definition key_env :: "nat \<Rightarrow> sysret" where
  "key_env n = (if n = 0 then ret_ok\<lparr> rv := 36, rdata := key_frame \<rparr>
                else if n = 2 then ret_ok\<lparr> rv := 5 \<rparr> else ret_ok)"

lemma key_frame_reads:
  "validate_meta_type (blit (replicate RECV_META_BUF_SIZE 0) 0 key_frame) = META_TYPE_KEY"
  "sccs_in_range (blit (replicate RECV_META_BUF_SIZE 0) 0 key_frame)"
  "meta_client (blit (replicate RECV_META_BUF_SIZE 0) 0 key_frame) = (0x0A000001, 50000)"
proof -
  let ?b = "blit (replicate RECV_META_BUF_SIZE 0) 0 key_frame"
  have l: "length key_frame = 36" by (simp add: key_frame_def)
  have s: "seg i n ?b = seg i n key_frame" if "i + n \<le> 36" for i n
    using that l by (subst seg_blit_inside) (auto simp: RECV_META_BUF_SIZE_def)
  have z: "seg i n ?b = replicate n 0" if "36 \<le> i" "i + n \<le> 1460" for i n
    using that l by (subst seg_blit_other) (auto simp: RECV_META_BUF_SIZE_def seg_replicate)
  have len: "length ?b = 1460" using l by (simp add: RECV_META_BUF_SIZE_def)
  have f: "seg 12 2 key_frame = [0x08, 0x01]" "seg 26 4 key_frame = [10, 0, 0, 1]"
    "seg 34 2 key_frame = [0xC3, 0x50]"
    by (simp_all add: key_frame_def seg_skip seg_def)
  show "validate_meta_type ?b = META_TYPE_KEY"
    using len by (simp add: validate_meta_type_def byte_simps s f)
      (simp add: be_word_def key_eth_types_def)
  show "meta_client ?b = (0x0A000001, 50000)"
    using len by (simp add: meta_client_def byte_simps s f) (simp add: be_word_def)
  have "seg 804 4 ?b = replicate 4 0" by (rule z) simp_all
  then have "ld32 ?b 804 = 0"
    by (simp add: ld32_def le_word_def be_word_def numeral_eq_Suc)
  then show "sccs_in_range ?b" using len by (simp add: sccs_in_range_def sizeof_ssl_meta_def)
qed

definition key_host :: host where
  "key_host = (demo_host key_env)
     \<lparr> meta_buf := blit (replicate RECV_META_BUF_SIZE 0) 0 key_frame,
       wrld := snd (sys (Sys_recvfrom 3) (idle_world key_env)) \<rparr>"

lemma key_host_inv: "host_inv {7} key_host"
  using demo_host_inv[of key_env] by (simp add: key_host_def)

lemma demo_lookup: "host_lookup (demo_host env) ip port = None"
proof -
  have "table_inv host_calculate_hash (host_key (demo_host env)) (ht_conn (demo_host env))"
    "ht_members (ht_conn (demo_host env)) = {}"
    by (simp_all add: demo_host_def host_init_def empty_ht_inv)
  from host_tab.srch_found[OF this(1), of "(ip, port)"] this(2) show ?thesis by fastforce
qed

lemma key_host_facts:
  "host_lookup key_host ip port = None" "meta_buf key_host = blit (replicate RECV_META_BUF_SIZE 0) 0 key_frame"
  "pool_top key_host = 0" "epfd key_host = 4" "kernel_ok 5 (wrld key_host)"
  using demo_lookup[of key_env]
  by (simp_all add: key_host_def demo_host_def host_init_def kernel_ok_def idle_world_def key_env_def ret_ok_def)

lemma key_host_step: "handle_meta_packet True (demo_host key_env) = handle_key_packet True 36 key_host"
  using key_frame_reads(1)
  by (simp add: handle_meta_packet_def host_sys_def Let_def sys_def key_host_def demo_host_def host_init_def
      idle_world_def key_env_def ret_ok_def)

lemma key_host_runs: "\<exists>h'. handle_key_packet True n key_host = Some (0, h')"
proof -
  have "\<exists>p h1 w. install_conn True n (key_host\<lparr> key_metas := key_metas key_host + 1 \<rparr>) =
    Some (0, upd_conn p (\<lambda>c. c\<lparr> sock_fd := 5, sock_state := INIT \<rparr>) (h1\<lparr> wrld := w \<rparr>))"
    using key_frame_reads(2) by (intro install_conn_total) (simp_all add: key_host_facts)
  then show ?thesis by (auto simp: handle_key_packet_def Let_def key_host_facts)
qed

theorem meta_packet_inv_witness:
  "\<exists>h'. handle_meta_packet True (demo_host key_env) = Some (0, h') \<and> host_inv {7} h'"
proof -
  obtain h' where r: "handle_meta_packet True (demo_host key_env) = Some (0, h')"
    using key_host_runs key_host_step by auto
  have "validate_meta_type (blit (meta_buf (demo_host key_env)) 0
      (rdata (w_env (wrld (demo_host key_env)) (w_n (wrld (demo_host key_env)))))) = META_TYPE_KEY"
    using key_frame_reads(1) by (simp add: demo_host_def host_init_def idle_world_def key_env_def ret_ok_def)
  with meta_packet_inv[OF demo_host_inv r refl] r show ?thesis by simp
qed



end
