(* ===== verification/Hkdf.thy ===== *)
theory Hkdf
  imports Xtls_Prelude
begin

text \<open>
  Key derivation functions of the SmartNIC, \<^verbatim>\<open>src/smartnic/offload_ssl/src/ssl_crypto.c\<close>: the HKDF
  functions of TLS 1.3 and the pseudo random function of TLS 1.2.

  The message authentication code is OpenSSL's and a parameter: \<open>hmac key message\<close> is the digest,
  or \<open>None\<close> when one of the calls \<^verbatim>\<open>HMAC_Init_ex\<close>, \<^verbatim>\<open>HMAC_Update\<close>, \<^verbatim>\<open>HMAC_Final\<close> fails; \<open>hash_len\<close> is
  \<^verbatim>\<open>EVP_MD_get_size\<close>.  Every function returns its result and the output buffer.  \<open>None\<close> is a run that
  does not return.
\<close>

definition hkdf_extract ::
  "(bytes \<Rightarrow> bytes \<Rightarrow> bytes option) \<Rightarrow> bytes \<Rightarrow> bytes \<Rightarrow> bytes \<Rightarrow> int \<times> bytes" where
  "hkdf_extract hmac out salt key =
    (case hmac salt key of
       None \<Rightarrow> (0, out)
     | Some d \<Rightarrow> (1, blit out 0 d))"

text \<open>The loop has an eight bit counter \<open>i\<close> and a \<^verbatim>\<open>size_t\<close> bound \<open>n\<close>.\<close>

partial_function (option) hkdf_loop ::
  "(bytes \<Rightarrow> bytes \<Rightarrow> bytes option) \<Rightarrow> bytes \<Rightarrow> bytes \<Rightarrow> nat \<Rightarrow> nat \<Rightarrow> u8 \<Rightarrow> bytes \<Rightarrow> nat \<Rightarrow> bytes \<Rightarrow> (int \<times> bytes) option" where
  "hkdf_loop hmac prk info out_len n i T fin out =
    (if unat i \<le> n then
       case hmac prk (T @ info @ [i]) of
         None \<Rightarrow> Some (0, out)
       | Some T \<Rightarrow>
           let copy = (if fin + length T > out_len then out_len - fin else length T);
               out = blit out fin (take copy T)
           in hkdf_loop hmac prk info out_len n (i + 1) T (fin + copy) out
     else Some (1, out))"

definition hkdf_expand_internal ::
  "(bytes \<Rightarrow> bytes \<Rightarrow> bytes option) \<Rightarrow> nat \<Rightarrow> bytes \<Rightarrow> nat \<Rightarrow> bytes \<Rightarrow> bytes \<Rightarrow> (int \<times> bytes) option" where
  "hkdf_expand_internal hmac hash_len out out_len prk info =
    (let n = (out_len + hash_len - 1) div hash_len in
     if n > 255 then Some (0, out)
     else hkdf_loop hmac prk info out_len n 1 [] 0 out)"

definition tls13_prefix :: bytes where
  "tls13_prefix = [0x74, 0x6c, 0x73, 0x31, 0x33, 0x20]"

text \<open>\<^verbatim>\<open>info\<close> is an array of 520 bytes.\<close>

definition hkdf_expand_label ::
  "(bytes \<Rightarrow> bytes \<Rightarrow> bytes option) \<Rightarrow> nat \<Rightarrow> bytes \<Rightarrow> nat \<Rightarrow> bytes \<Rightarrow> bytes \<Rightarrow> bytes \<Rightarrow> (int \<times> bytes) option" where
  "hkdf_expand_label hmac hash_len out out_len key label ctx =
    (let info = [of_nat (out_len div 256), of_nat out_len, of_nat (6 + length label)] @ tls13_prefix @ label @
           [of_nat (length ctx)] @ ctx
     in if length info > 520 then None
        else hkdf_expand_internal hmac hash_len out out_len key info)"

text \<open>\<^verbatim>\<open>P_HASH\<close>: \<open>a\<close> is the chaining value at the start of \<^verbatim>\<open>buf\<close>, with the seed behind it.  Each call is
  followed by an assertion on the length of the digest.\<close>

definition MAX_HASH_SIZE :: nat where "MAX_HASH_SIZE = 256"

definition digest_ok :: "bytes \<Rightarrow> bool" where
  "digest_ok d \<longleftrightarrow> length d < MAX_HASH_SIZE \<and> 0 < length d"

partial_function (option) P_HASH_loop ::
  "(bytes \<Rightarrow> bytes \<Rightarrow> bytes) \<Rightarrow> bytes \<Rightarrow> bytes \<Rightarrow> nat \<Rightarrow> bytes \<Rightarrow> bytes \<Rightarrow> bytes option" where
  "P_HASH_loop hmac secret seed out_len a out =
    (if length out < out_len then
       let a = hmac secret a in
       if \<not> digest_ok a then None
       else let d = hmac secret (a @ seed) in
         if \<not> digest_ok d then None
         else P_HASH_loop hmac secret seed out_len a (out @ d)
     else Some out)"

definition P_HASH :: "(bytes \<Rightarrow> bytes \<Rightarrow> bytes) \<Rightarrow> bytes \<Rightarrow> bytes \<Rightarrow> nat \<Rightarrow> bytes option" where
  "P_HASH hmac secret seed out_len =
    (let a = hmac secret seed in
     if \<not> digest_ok a \<or> length a + length seed > 3 * MAX_HASH_SIZE then None
     else let d = hmac secret (a @ seed) in
       if \<not> digest_ok d then None
       else P_HASH_loop hmac secret seed out_len a d)"

text \<open>The output of \<^verbatim>\<open>P_HASH\<close> starts at the beginning of an array of 16384 bytes and is written in whole
  digests; the seed behind it has been copied by then.\<close>

definition PRF :: "(bytes \<Rightarrow> bytes \<Rightarrow> bytes) \<Rightarrow> bytes \<Rightarrow> bytes \<Rightarrow> bytes \<Rightarrow> nat \<Rightarrow> bytes option" where
  "PRF hmac secret label seed out_len =
    (if out_len + 20 + (length label + length seed) \<ge> 16384 then None
     else case P_HASH hmac secret (label @ seed) out_len of
       None \<Rightarrow> None
     | Some d \<Rightarrow> if length d > 16384 then None else Some (take out_len d))"


section \<open>The functions of the standards\<close>

text \<open>RFC 5869, section 2.3.\<close>

fun rfc5869_T :: "(bytes \<Rightarrow> bytes \<Rightarrow> bytes) \<Rightarrow> bytes \<Rightarrow> bytes \<Rightarrow> nat \<Rightarrow> bytes" where
  "rfc5869_T hmac prk info 0 = []"
| "rfc5869_T hmac prk info (Suc i) = hmac prk (rfc5869_T hmac prk info i @ info @ [of_nat (Suc i)])"

definition rfc5869_okm :: "(bytes \<Rightarrow> bytes \<Rightarrow> bytes) \<Rightarrow> bytes \<Rightarrow> bytes \<Rightarrow> nat \<Rightarrow> bytes" where
  "rfc5869_okm hmac prk info n = concat (map (rfc5869_T hmac prk info) [1..<Suc n])"

definition rfc5869_expand :: "(bytes \<Rightarrow> bytes \<Rightarrow> bytes) \<Rightarrow> nat \<Rightarrow> bytes \<Rightarrow> bytes \<Rightarrow> nat \<Rightarrow> bytes" where
  "rfc5869_expand hmac hash_len prk info L =
     take L (rfc5869_okm hmac prk info ((L + hash_len - 1) div hash_len))"

text \<open>RFC 8446, section 7.1: a vector with a length byte, and HKDF-Expand-Label.\<close>

definition opaque8 :: "bytes \<Rightarrow> bytes" where
  "opaque8 v = of_nat (length v) # v"

definition rfc8446_expand_label :: "(bytes \<Rightarrow> bytes \<Rightarrow> bytes) \<Rightarrow> nat \<Rightarrow> bytes \<Rightarrow> bytes \<Rightarrow> bytes \<Rightarrow> nat \<Rightarrow> bytes" where
  "rfc8446_expand_label hmac hash_len secret label context L =
     rfc5869_expand hmac hash_len secret
       (be_bytes 2 (of_nat L :: u16) @ opaque8 (tls13_prefix @ label) @ opaque8 context) L"

text \<open>RFC 5246, section 5.\<close>

fun rfc5246_A :: "(bytes \<Rightarrow> bytes \<Rightarrow> bytes) \<Rightarrow> bytes \<Rightarrow> bytes \<Rightarrow> nat \<Rightarrow> bytes" where
  "rfc5246_A hmac secret seed 0 = seed"
| "rfc5246_A hmac secret seed (Suc i) = hmac secret (rfc5246_A hmac secret seed i)"

definition rfc5246_P_hash :: "(bytes \<Rightarrow> bytes \<Rightarrow> bytes) \<Rightarrow> bytes \<Rightarrow> bytes \<Rightarrow> nat \<Rightarrow> bytes" where
  "rfc5246_P_hash hmac secret seed n =
     concat (map (\<lambda>i. hmac secret (rfc5246_A hmac secret seed i @ seed)) [1..<Suc n])"


section \<open>Lemmas\<close>

lemma blit_more:
  "length x + length y \<le> length b \<Longrightarrow> blit (blit b 0 x) (length x) y = blit b 0 (x @ y)"
  by (simp add: blit_def add.commute)

lemma rfc5869_okm_Suc: "rfc5869_okm hmac prk info (Suc n) = rfc5869_okm hmac prk info n @ rfc5869_T hmac prk info (Suc n)"
  by (simp add: rfc5869_okm_def)

lemma length_rfc5869_okm:
  assumes "\<And>k m. length (hmac k m) = hl"
  shows "length (rfc5869_okm hmac prk info n) = n * hl"
proof (induction n)
  case 0 show ?case by (simp add: rfc5869_okm_def)
next
  case (Suc n) then show ?case by (simp add: rfc5869_okm_Suc assms)
qed

lemma hkdf_loop_step:
  assumes "unat i \<le> n" "hmac prk (T @ info @ [i]) = Some T'"
    and "copy = (if fin + length T' > out_len then out_len - fin else length T')"
  shows "hkdf_loop hmac prk info out_len n i T fin out =
    hkdf_loop hmac prk info out_len n (i + 1) T' (fin + copy) (blit out fin (take copy T'))"
  by (subst hkdf_loop.simps) (simp only: assms Let_def if_True option.case)

lemma hkdf_loop_run:
  assumes hm: "\<And>k m. hmac k m = Some (h k m)" and hl: "\<And>k m. length (h k m) = hl"
    and n: "n < 255" and i: "1 \<le> i" "i \<le> Suc n" and len: "out_len \<le> length out"
  shows "hkdf_loop hmac prk info out_len n (of_nat i) (rfc5869_T h prk info (i - 1))
      (min out_len ((i - 1) * hl)) (blit out 0 (take out_len (rfc5869_okm h prk info (i - 1)))) =
    Some (1, blit out 0 (take out_len (rfc5869_okm h prk info n)))"
  using i
proof (induction "Suc n - i" arbitrary: i)
  case 0
  then have "i = Suc n" by simp
  moreover have "unat (of_nat (Suc n) :: u8) = Suc n" using n by (simp add: unsigned_of_nat take_bit_nat_eq_self del: of_nat_Suc)
  ultimately show ?case by (subst hkdf_loop.simps) simp
next
  case (Suc d)
  obtain j where j: "i = Suc j" using Suc.prems(1) by (cases i) auto
  have jn: "j < n" using Suc.hyps(2) j by simp
  have u: "unat (of_nat i :: u8) = i" using jn j n by (simp add: unsigned_of_nat take_bit_nat_eq_self del: of_nat_Suc)
  let ?T = "rfc5869_T h prk info i"
  let ?fin = "min out_len (j * hl)"
  let ?o = "take out_len (rfc5869_okm h prk info j)"
  have T: "hmac prk (rfc5869_T h prk info j @ info @ [of_nat i]) = Some ?T" by (simp add: hm j)
  have lT: "length ?T = hl" by (simp add: j hl)
  define copy where "copy = (if ?fin + hl > out_len then out_len - ?fin else hl)"
  have fin: "?fin + copy = min out_len (i * hl)" unfolding copy_def j by (auto simp: min_def)
  have lo: "length ?o = ?fin" by (simp add: length_rfc5869_okm[of h hl, OF hl] min.commute)
  have "take copy ?T = take (out_len - j * hl) ?T"
    using lT unfolding copy_def by (cases "j * hl \<le> out_len") (auto simp: min_def)
  then have "?o @ take copy ?T = take out_len (rfc5869_okm h prk info i)"
    by (simp add: j rfc5869_okm_Suc length_rfc5869_okm[of h hl, OF hl])
  moreover have "length ?o + length (take copy ?T) \<le> length out"
  proof -
    have "?fin + copy \<le> out_len" unfolding fin by simp
    moreover have "length (take copy ?T) \<le> copy" by simp
    ultimately show ?thesis using len unfolding lo by linarith
  qed
  ultimately have o: "blit (blit out 0 ?o) ?fin (take copy ?T) = blit out 0 (take out_len (rfc5869_okm h prk info i))"
    using blit_more[of ?o "take copy ?T" out] lo by simp
  have s: "(of_nat i + 1 :: u8) = of_nat (Suc i)" by simp
  have c: "copy = (if ?fin + length ?T > out_len then out_len - ?fin else length ?T)" by (simp only: copy_def lT)
  have le: "unat (of_nat i :: u8) \<le> n" using u jn j by simp
  have "hkdf_loop hmac prk info out_len n (of_nat i) (rfc5869_T h prk info j) ?fin (blit out 0 ?o) =
    hkdf_loop hmac prk info out_len n (of_nat (Suc i)) ?T (min out_len (i * hl)) (blit out 0 (take out_len (rfc5869_okm h prk info i)))"
    unfolding hkdf_loop_step[of "of_nat i" n hmac prk "rfc5869_T h prk info j" info ?T copy out_len ?fin, OF le T c] by (simp only: s fin o)
  also have "\<dots> = Some (1, blit out 0 (take out_len (rfc5869_okm h prk info n)))"
    using Suc.hyps(1)[of "Suc i"] Suc.hyps(2) jn j by simp
  finally have "hkdf_loop hmac prk info out_len n (of_nat i) (rfc5869_T h prk info j) ?fin (blit out 0 ?o) =
    Some (1, blit out 0 (take out_len (rfc5869_okm h prk info n)))" .
  moreover have "i - 1 = j" using j by simp
  ultimately show ?case by (simp only:)
qed

lemma hkdf_loop_returns:
  assumes "hkdf_loop hmac prk info out_len n i T fin out = Some r"
  shows "(\<forall>k m. hmac k m \<noteq> None) \<longrightarrow> n \<noteq> 255"
  using assms
proof (rule hkdf_loop.raw_induct[rotated])
  fix f hmac prk info out_len n and i :: u8 and T fin out r
  assume ih: "\<And>hmac prk info out_len n i T fin out r. f hmac prk info out_len n i T fin out = Some r \<Longrightarrow>
      (\<forall>k m. hmac k m \<noteq> None) \<longrightarrow> n \<noteq> (255::nat)"
    and step: "(if unat i \<le> n then case hmac prk (T @ info @ [i]) of None \<Rightarrow> Some (0, out)
        | Some T \<Rightarrow> let copy = if out_len < fin + length T then out_len - fin else length T; out = blit out fin (take copy T)
            in f hmac prk info out_len n (i + 1) T (fin + copy) out
        else Some (1, out)) = Some r"
  show "(\<forall>k m. hmac k m \<noteq> None) \<longrightarrow> n \<noteq> 255"
  proof (intro impI notI)
    assume a: "\<forall>k m. hmac k m \<noteq> None" and n: "n = 255"
    have "unat i \<le> n" using unsigned_less[of i, where ?'a = nat] n by simp
    moreover obtain T' where "hmac prk (T @ info @ [i]) = Some T'" using a by blast
    ultimately obtain fin' out' where "f hmac prk info out_len n (i + 1) T' fin' out' = Some r"
      using step by (simp add: Let_def)
    from ih[OF this] a n show False by blast
  qed
qed

lemma hkdf_loop_forever:
  "(\<And>k m. hmac k m \<noteq> None) \<Longrightarrow> hkdf_loop hmac prk info out_len 255 i T fin out = None"
  using hkdf_loop_returns[of hmac prk info out_len 255 i T fin out]
  by (cases "hkdf_loop hmac prk info out_len 255 i T fin out") auto

lemma hkdf_expand_internal_ok:
  assumes "\<And>k m. hmac k m = Some (h k m)" "\<And>k m. length (h k m) = hash_len"
    and "(out_len + hash_len - 1) div hash_len < 255" "out_len \<le> length out"
  shows "hkdf_expand_internal hmac hash_len out out_len prk info =
    Some (1, blit out 0 (rfc5869_expand h hash_len prk info out_len))"
  using hkdf_loop_run[of hmac h hash_len _ 1 out_len out prk info, OF assms(1,2,3)] assms(3,4)
  by (simp add: hkdf_expand_internal_def Let_def rfc5869_expand_def rfc5869_okm_def blit_def)

lemma hkdf_info:
  assumes "length label \<le> 249" "length ctx \<le> 255"
  shows "[of_nat (L div 256), of_nat L, of_nat (6 + length label)] @ tls13_prefix @ label @ [of_nat (length ctx)] @ ctx =
      be_bytes 2 (of_nat L :: u16) @ opaque8 (tls13_prefix @ label) @ opaque8 ctx"
proof -
  have "be_bytes 2 (of_nat L :: u16) = [of_nat (L div 256), of_nat L]"
    by (auto simp: numeral_2_eq_2 be_bytes_Suc drop_bit_eq_div[symmetric, where n = 8, simplified]
        intro!: bit_word_eqI simp: bit_simps)
  then show ?thesis by (simp add: opaque8_def tls13_prefix_def)
qed

lemma hkdf_expand_label_ok:
  assumes "\<And>k m. hmac k m = Some (h k m)" "\<And>k m. length (h k m) = hash_len"
    and "(out_len + hash_len - 1) div hash_len < 255" "out_len \<le> length out"
    and "length label \<le> 249" "length ctx \<le> 255"
  shows "hkdf_expand_label hmac hash_len out out_len key label ctx =
    Some (1, blit out 0 (rfc8446_expand_label h hash_len key label ctx out_len))"
  unfolding hkdf_expand_label_def Let_def hkdf_info[OF assms(5,6)] rfc8446_expand_label_def
  using assms(5,6) hkdf_expand_internal_ok[OF assms(1-4)]
  by (simp add: opaque8_def tls13_prefix_def)

lemma rfc5246_P_hash_Suc:
  "rfc5246_P_hash hmac secret seed (Suc n) =
    rfc5246_P_hash hmac secret seed n @ hmac secret (rfc5246_A hmac secret seed (Suc n) @ seed)"
  by (simp add: rfc5246_P_hash_def)

lemma length_rfc5246_P_hash:
  "(\<And>k m. length (hmac k m) = hl) \<Longrightarrow> length (rfc5246_P_hash hmac secret seed n) = n * hl"
  by (induction n) (simp_all add: rfc5246_P_hash_Suc, simp add: rfc5246_P_hash_def)

lemma P_HASH_loop_run:
  assumes hl: "\<And>k m. length (hmac k m) = hl" "0 < hl" "hl < MAX_HASH_SIZE"
    and "0 < i" "i \<le> n" "(n - 1) * hl < out_len \<or> n = 1" "out_len \<le> n * hl"
  shows "P_HASH_loop hmac secret seed out_len (rfc5246_A hmac secret seed i) (rfc5246_P_hash hmac secret seed i) =
    Some (rfc5246_P_hash hmac secret seed n)"
  using assms(4,5)
proof (induction "n - i" arbitrary: i)
  case 0
  then have "i = n" by simp
  then show ?case using assms(7) by (subst P_HASH_loop.simps) (simp add: length_rfc5246_P_hash[OF hl(1)])
next
  case (Suc d)
  then have i: "i < n" by simp
  have "i * hl \<le> (n - 1) * hl" using i by (intro mult_le_mono1) simp
  moreover have "(n - 1) * hl < out_len" using assms(6) i Suc.prems by auto
  ultimately have less: "length (rfc5246_P_hash hmac secret seed i) < out_len"
    unfolding length_rfc5246_P_hash[OF hl(1)] by (rule le_less_trans)
  have ok: "digest_ok (hmac k m)" for k m using hl by (simp add: digest_ok_def)
  have "P_HASH_loop hmac secret seed out_len (rfc5246_A hmac secret seed (Suc i)) (rfc5246_P_hash hmac secret seed (Suc i)) =
      Some (rfc5246_P_hash hmac secret seed n)" using Suc.hyps i by (intro Suc.hyps(1)) auto
  then show ?case by (subst P_HASH_loop.simps) (simp add: less ok Let_def rfc5246_P_hash_Suc)
qed

lemma P_HASH_rfc5246:
  assumes hl: "\<And>k m. length (hmac k m) = hl" "0 < hl" "hl < MAX_HASH_SIZE"
    and "hl + length seed \<le> 3 * MAX_HASH_SIZE" and n: "n = max 1 ((out_len + hl - 1) div hl)"
  shows "P_HASH hmac secret seed out_len = Some (rfc5246_P_hash hmac secret seed n)"
proof -
  let ?m = "(out_len + hl - 1) div hl"
  have dm: "?m * hl + (out_len + hl - 1) mod hl = out_len + hl - 1" "(out_len + hl - 1) mod hl < hl" using hl(2) by auto
  then have up: "out_len \<le> ?m * hl" using hl(2) by linarith
  have "(n - 1) * hl < out_len \<or> n = 1"
  proof (cases "?m \<le> 1")
    case False
    then have "(?m - 1) * hl = ?m * hl - hl" by (simp add: diff_mult_distrib)
    moreover have "hl \<le> ?m * hl" using False by simp
    ultimately have "(?m - 1) * hl < out_len" using dm hl(2) by linarith
    then show ?thesis using n False by (simp add: max_def)
  qed (simp add: n)
  moreover have "out_len \<le> n * hl" using order_trans[OF up mult_le_mono1[of ?m n hl]] n by simp
  ultimately have "P_HASH_loop hmac secret seed out_len (rfc5246_A hmac secret seed 1) (rfc5246_P_hash hmac secret seed 1) =
      Some (rfc5246_P_hash hmac secret seed n)"
    using n by (intro P_HASH_loop_run[OF hl]) (simp_all add: max_def)
  moreover have "digest_ok (hmac k m)" for k m using hl by (simp add: digest_ok_def)
  ultimately show ?thesis using assms(4) by (simp add: P_HASH_def Let_def rfc5246_P_hash_def hl(1))
qed


section \<open>Properties\<close>

text \<open>C25: \<open>hkdf_expand_internal\<close> is HKDF-Expand of RFC 5869 for every output of fewer than 255 digests,
  refuses outputs of more than 255 digests, and for an output of exactly 255 digests, which the
  RFC permits, never returns: its eight bit counter wraps.\<close>

theorem hkdf_expand_rfc5869:
  assumes "\<And>k m. hmac k m = Some (h k m)" "\<And>k m. length (h k m) = hash_len" "out_len \<le> length out"
  shows "hkdf_expand_internal hmac hash_len out out_len prk info =
    (let n = (out_len + hash_len - 1) div hash_len in
     if n > 255 then Some (0, out) else if n = 255 then None
     else Some (1, blit out 0 (rfc5869_expand h hash_len prk info out_len)))"
proof -
  let ?n = "(out_len + hash_len - 1) div hash_len"
  consider "?n > 255" | "?n = 255" | "?n < 255" by linarith
  then show ?thesis
  proof cases
    case 3 then show ?thesis using hkdf_expand_internal_ok[OF assms(1,2) 3 assms(3)] by simp
  next
    case 2 then show ?thesis by (simp add: hkdf_expand_internal_def hkdf_loop_forever assms(1))
  qed (simp add: hkdf_expand_internal_def)
qed

theorem hkdf_expand_rfc5869_witness:
  "hkdf_expand_internal (\<lambda>k m. Some [of_nat (length m)]) 1 [0, 0, 0] 2 [7] [5, 5] =
    Some (1, blit [0, 0, 0] 0 (rfc5869_expand (\<lambda>k m. [of_nat (length m)]) 1 [7] [5, 5] 2)) \<and>
   hkdf_expand_internal (\<lambda>k m. Some [of_nat (length m)]) 1 (replicate 255 0) 255 [7] [5, 5] = None"
  using hkdf_expand_rfc5869[of "\<lambda>k m. Some [of_nat (length m)]" "\<lambda>k m. [of_nat (length m)]" 1 2 "[0, 0, 0]" "[7]" "[5, 5]"]
    hkdf_expand_rfc5869[of "\<lambda>k m. Some [of_nat (length m)]" "\<lambda>k m. [of_nat (length m)]" 1 255 "replicate 255 0" "[7]" "[5, 5]"]
  by simp

end
