(* ===== verification/Tls_Types.thy ===== *)
theory Tls_Types
  imports Xtls_Prelude
begin

text \<open>
  Data of the TLS layer, \<^verbatim>\<open>src/smartnic/offload_ssl/include/ssl.h\<close>: content and
  handshake types, the security parameters and secrets of a session, the handshake
  messages, and the record object \<^verbatim>\<open>record_t\<close>.

  A pointer into the fragment of a record is an offset (\<open>None\<close> for the null pointer);
  the record's pointers \<^verbatim>\<open>data\<close> and \<^verbatim>\<open>decrypted\<close> name one of its two buffers, which are
  used from byte 8 on.
\<close>


section \<open>Constants\<close>

definition CHANGE_CIPHER_SPEC :: u8 where "CHANGE_CIPHER_SPEC = 0x14"
definition ALERT :: u8 where "ALERT = 0x15"
definition HANDSHAKE :: u8 where "HANDSHAKE = 0x16"
definition APPLICATION_DATA :: u8 where "APPLICATION_DATA = 0x17"

definition RECORD_HEADER_SIZE :: nat where "RECORD_HEADER_SIZE = 5"
definition HANDSHAKE_HEADER_SIZE :: nat where "HANDSHAKE_HEADER_SIZE = 4"
definition GCM_TAG_SIZE :: nat where "GCM_TAG_SIZE = 16"
definition MAX_RECORD_SIZE :: nat where "MAX_RECORD_SIZE = 16061"
definition MAX_HANDSHAKE_LENGTH :: nat where "MAX_HANDSHAKE_LENGTH = 4096"
definition X25519_KEY_LEN :: nat where "X25519_KEY_LEN = 32"
definition HASH_SIZE_SHA384 :: nat where "HASH_SIZE_SHA384 = 48"

text \<open>The handshake states are values of \<^verbatim>\<open>enum handshake_type\<close>, compared by size.\<close>

definition HELLO_REQUEST :: nat where "HELLO_REQUEST = 0"
definition CLIENT_HELLO :: nat where "CLIENT_HELLO = 1"
definition SERVER_HELLO :: nat where "SERVER_HELLO = 2"
definition ENCRYPTED_EXTENSIONS :: nat where "ENCRYPTED_EXTENSIONS = 8"
definition CERTIFICATE :: nat where "CERTIFICATE = 11"
definition CERTIFICATE_VERIFY :: nat where "CERTIFICATE_VERIFY = 15"
definition CLIENT_CIPHER_SPEC :: nat where "CLIENT_CIPHER_SPEC = 17"
definition FINISHED :: nat where "FINISHED = 20"

lemmas handshake_type_defs =
  HELLO_REQUEST_def CLIENT_HELLO_def SERVER_HELLO_def ENCRYPTED_EXTENSIONS_def CERTIFICATE_def
  CERTIFICATE_VERIFY_def CLIENT_CIPHER_SPEC_def FINISHED_def


section \<open>Security parameters and secrets\<close>

definition TLS_MAX_KEY_SIZE :: nat where "TLS_MAX_KEY_SIZE = 128"

record security_params =
  sp_cipher :: "u8 \<times> u8"
  sp_prf_algorithm :: u32
  sp_bulk_cipher_algorithm :: u32
  sp_cipher_type :: u32
  sp_enc_key_size :: u8
  sp_block_length :: u8
  sp_fixed_iv_length :: u8
  sp_record_iv_length :: u8
  sp_mac_algorithm :: u32
  sp_mac_length :: u8
  sp_mac_key_size :: u8
  sp_client_random :: bytes
  sp_server_random :: bytes
  sp_curve :: "u8 \<times> u8"
  sp_signature_algorithm :: "u8 \<times> u8"
  sp_client_pub_key :: bytes

definition sp_zero :: security_params where
  "sp_zero = \<lparr> sp_cipher = (0, 0), sp_prf_algorithm = 0, sp_bulk_cipher_algorithm = 0, sp_cipher_type = 0,
     sp_enc_key_size = 0, sp_block_length = 0, sp_fixed_iv_length = 0, sp_record_iv_length = 0,
     sp_mac_algorithm = 0, sp_mac_length = 0, sp_mac_key_size = 0,
     sp_client_random = replicate 32 0, sp_server_random = replicate 32 0,
     sp_curve = (0, 0), sp_signature_algorithm = (0, 0), sp_client_pub_key = replicate 32 0 \<rparr>"

record tls13_ctx =
  tx_handshake_key_calculated :: bool
  tx_cert_signatured :: bool
  tx_handshake_secret :: bytes
  tx_client_secret :: bytes
  tx_server_secret :: bytes
  tx_client_handshake_key :: bytes
  tx_server_handshake_key :: bytes
  tx_client_handshake_iv :: bytes
  tx_server_handshake_iv :: bytes
  tx_client_application_key :: bytes
  tx_server_application_key :: bytes
  tx_client_application_iv :: bytes
  tx_server_application_iv :: bytes
  tx_cert_signature :: bytes
  tx_cert_signature_len :: u8
  tx_calculated_vd :: bytes

definition tls13_ctx_zero :: tls13_ctx where
  "tls13_ctx_zero = (let z = replicate TLS_MAX_KEY_SIZE 0 in
     \<lparr> tx_handshake_key_calculated = False, tx_cert_signatured = False,
       tx_handshake_secret = z, tx_client_secret = z, tx_server_secret = z,
       tx_client_handshake_key = z, tx_server_handshake_key = z,
       tx_client_handshake_iv = z, tx_server_handshake_iv = z,
       tx_client_application_key = z, tx_server_application_key = z,
       tx_client_application_iv = z, tx_server_application_iv = z,
       tx_cert_signature = replicate 128 0, tx_cert_signature_len = 0, tx_calculated_vd = replicate 48 0 \<rparr>)"


section \<open>Handshake messages\<close>

record client_hello =
  ch_version :: "u8 \<times> u8"
  ch_random :: bytes
  ch_session_id_length :: u8
  ch_session_id :: bytes
  ch_cipher_suite_length :: u16
  ch_cipher_suites :: "nat option"
  ch_compression_method_length :: u8
  ch_compression_methods :: "nat option"
  ch_extensions_length :: u16
  ch_curves_list_length :: u16
  ch_curves_list :: "nat option"
  ch_signature_algorithm_list_length :: u16
  ch_signature_algorithm_list :: "nat option"
  ch_versions_length :: u8
  ch_versions :: "nat option"
  ch_key_share_length :: u16
  ch_curve_type :: u16
  ch_pub_key_length :: u16
  ch_client_pub_key :: "nat option"

definition client_hello_zero :: client_hello where
  "client_hello_zero =
    \<lparr> ch_version = (0, 0), ch_random = replicate 32 0, ch_session_id_length = 0,
      ch_session_id = replicate 32 0, ch_cipher_suite_length = 0, ch_cipher_suites = None,
      ch_compression_method_length = 0, ch_compression_methods = None, ch_extensions_length = 0,
      ch_curves_list_length = 0, ch_curves_list = None,
      ch_signature_algorithm_list_length = 0, ch_signature_algorithm_list = None,
      ch_versions_length = 0, ch_versions = None, ch_key_share_length = 0, ch_curve_type = 0,
      ch_pub_key_length = 0, ch_client_pub_key = None \<rparr>"

record server_hello =
  sh_version :: "u8 \<times> u8"
  sh_random :: bytes
  sh_session_id_length :: u8
  sh_session_id :: bytes
  sh_cipher_suite :: "u8 \<times> u8"
  sh_compression_method :: u8
  sh_extensions_length :: u16
  sh_supported_versions :: bytes
  sh_key_share :: bytes

text \<open>The union \<^verbatim>\<open>body\<close> of \<^verbatim>\<open>handshake_t\<close>, with the members the TLS 1.3 code uses: the
  certificate (request context length, list length, entry length, entry, extensions
  length), the signature (algorithm, length, bytes), and the verify data.\<close>

datatype hs_body =
    Body_none
  | Body_client_hello client_hello
  | Body_server_hello server_hello
  | Body_encrypted_extensions u16
  | Body_certificate u8 bytes bytes bytes u16
  | Body_certificate_verify "u8 \<times> u8" u16 bytes
  | Body_finished bytes

datatype fragment = Frag_none | Frag_handshake u8 bytes hs_body | Frag_alert u8 u8


section \<open>Records\<close>

datatype ssl_record_state =
    TO_PACK_HEADER | TO_PACK_CONTENT | TO_APPEND_MAC | TO_ENCRYPT | WRITE_READY
  | TO_UNPACK_HEADER | TO_DECRYPT | TO_VERIFY_MAC | TO_UNPACK_CONTENT | READ_READY | NULL_STATE

datatype rec_area = Area_buf | Area_mac_in

record tls_record =
  rc_id :: int
  rc_state :: ssl_record_state
  rc_length :: nat
  rc_current_len :: nat
  rc_buf :: bytes
  rc_mac_in :: bytes
  rc_data :: rec_area
  rc_decrypted :: rec_area
  rc_is_received :: bool
  rc_is_encrypted :: bool
  rc_seq_num :: u64
  rc_plain_type :: u8
  rc_plain_version :: "u8 \<times> u8"
  rc_plain_length :: u16
  rc_cipher_type :: u8
  rc_cipher_version :: "u8 \<times> u8"
  rc_cipher_length :: u16
  rc_fragment :: fragment

definition record_zero :: tls_record where
  "record_zero =
    \<lparr> rc_id = 0, rc_state = TO_PACK_HEADER, rc_length = 0, rc_current_len = 0,
      rc_buf = replicate (MAX_RECORD_SIZE - 8) 0, rc_mac_in = replicate (MAX_RECORD_SIZE - 8) 0,
      rc_data = Area_buf, rc_decrypted = Area_mac_in, rc_is_received = False, rc_is_encrypted = False,
      rc_seq_num = 0, rc_plain_type = 0, rc_plain_version = (0, 0), rc_plain_length = 0,
      rc_cipher_type = 0, rc_cipher_version = (0, 0), rc_cipher_length = 0, rc_fragment = Frag_none \<rparr>"

text \<open>Read and write through a pointer of the record.\<close>

definition rec_bytes :: "rec_area \<Rightarrow> tls_record \<Rightarrow> bytes" where
  "rec_bytes a r = (case a of Area_buf \<Rightarrow> rc_buf r | Area_mac_in \<Rightarrow> rc_mac_in r)"

definition rec_write :: "rec_area \<Rightarrow> nat \<Rightarrow> bytes \<Rightarrow> tls_record \<Rightarrow> tls_record" where
  "rec_write a i s r = (case a of
      Area_buf \<Rightarrow> r\<lparr> rc_buf := blit (rc_buf r) i s \<rparr>
    | Area_mac_in \<Rightarrow> r\<lparr> rc_mac_in := blit (rc_mac_in r) i s \<rparr>)"

end
