(* ===== verification/Key_Schedule.thy ===== *)
theory Key_Schedule
  imports Hkdf Tls_Types
begin

text \<open>
  The TLS 1.3 key schedule of the SmartNIC (\<^verbatim>\<open>src/smartnic/offload_ssl/src/ssl.c\<close>) for the cipher suite
  \<^verbatim>\<open>TLS_AES_256_GCM_SHA384\<close>, and the schedule of RFC 8446, section 7.1, that it has to compute.

  The hash functions, the message authentication codes and AES-GCM are OpenSSL's and parameters, the
  fields of \<open>openssl\<close>.  Arrays on the stack are not initialised; every byte that is read has been
  written before.
\<close>

text \<open>\<open>ossl_hmac384\<close> is \<open>None\<close> when one of its calls fails.  \<open>ossl_gcm_dec key iv aad text tag\<close> gives the
  result of the tag check and the plain text, which is written in either case.\<close>

record openssl =
  ossl_sha1 :: "bytes \<Rightarrow> bytes"
  ossl_sha256 :: "bytes \<Rightarrow> bytes"
  ossl_sha384 :: "bytes \<Rightarrow> bytes"
  ossl_hmac384 :: "bytes \<Rightarrow> bytes \<Rightarrow> bytes option"
  ossl_hmac1 :: "bytes \<Rightarrow> bytes \<Rightarrow> bytes"
  ossl_gcm_enc :: "bytes \<Rightarrow> bytes \<Rightarrow> bytes \<Rightarrow> bytes \<Rightarrow> bytes \<times> bytes"
  ossl_gcm_dec :: "bytes \<Rightarrow> bytes \<Rightarrow> bytes \<Rightarrow> bytes \<Rightarrow> bytes \<Rightarrow> bool \<times> bytes"

definition stack_hash :: bytes where
  "stack_hash = replicate MAX_HASH_SIZE 0"

definition zeros48 :: bytes where
  "zeros48 = replicate 48 0"

text \<open>\<^verbatim>\<open>hkdf_expand_label\<close> with SHA-384 and a secret of 48 bytes.\<close>

definition expand384 :: "openssl \<Rightarrow> bytes \<Rightarrow> nat \<Rightarrow> bytes \<Rightarrow> string \<Rightarrow> bytes \<Rightarrow> (int \<times> bytes) option" where
  "expand384 lib out n secret label ctx =
     hkdf_expand_label (ossl_hmac384 lib) 48 out n (seg 0 48 secret) (str label) ctx"

text \<open>A sequence of derivations into the fields of the context; the first one that returns 0 ends it with
  \<open>-1\<close>.\<close>

fun derive_steps :: "(tls13_ctx \<Rightarrow> (int \<times> tls13_ctx) option) list \<Rightarrow> tls13_ctx \<Rightarrow> (int \<times> tls13_ctx) option" where
  "derive_steps [] t = Some (0, t)"
| "derive_steps (f # fs) t =
    (case f t of
       None \<Rightarrow> None
     | Some (r, t) \<Rightarrow> if r = 0 then Some (- 1, t) else derive_steps fs t)"

text \<open>The part of \<^verbatim>\<open>handle_after_ecdhe_shared_secret_calc\<close> for the cipher suite.\<close>

definition handshake_keys :: "openssl \<Rightarrow> bytes \<Rightarrow> bytes \<Rightarrow> tls13_ctx \<Rightarrow> (int \<times> tls13_ctx) option" where
  "handshake_keys lib msgs shared_secret t =
    (let hmac = ossl_hmac384 lib;
         hello_hash = ossl_sha384 lib msgs;
         (r, early_secret) = hkdf_extract hmac stack_hash zeros48 zeros48
     in if r = 0 then Some (- 1, t)
     else case expand384 lib stack_hash 48 early_secret ''derived'' (ossl_sha384 lib []) of
       None \<Rightarrow> None
     | Some (r, derived_secret) \<Rightarrow>
         if r = 0 then Some (- 1, t)
         else derive_steps
          [\<lambda>t. let (r, d) = hkdf_extract hmac (tx_handshake_secret t) (seg 0 48 derived_secret) shared_secret
                in Some (r, t\<lparr> tx_handshake_secret := d \<rparr>),
           \<lambda>t. map_option (\<lambda>(r, d). (r, t\<lparr> tx_client_secret := d \<rparr>))
             (expand384 lib (tx_client_secret t) 48 (tx_handshake_secret t) ''c hs traffic'' hello_hash),
           \<lambda>t. map_option (\<lambda>(r, d). (r, t\<lparr> tx_server_secret := d \<rparr>))
             (expand384 lib (tx_server_secret t) 48 (tx_handshake_secret t) ''s hs traffic'' hello_hash),
           \<lambda>t. map_option (\<lambda>(r, d). (r, t\<lparr> tx_client_handshake_key := d \<rparr>))
             (expand384 lib (tx_client_handshake_key t) 32 (tx_client_secret t) ''key'' []),
           \<lambda>t. map_option (\<lambda>(r, d). (r, t\<lparr> tx_server_handshake_key := d \<rparr>))
             (expand384 lib (tx_server_handshake_key t) 32 (tx_server_secret t) ''key'' []),
           \<lambda>t. map_option (\<lambda>(r, d). (r, t\<lparr> tx_client_handshake_iv := d \<rparr>))
             (expand384 lib (tx_client_handshake_iv t) 12 (tx_client_secret t) ''iv'' []),
           \<lambda>t. map_option (\<lambda>(r, d). (r, t\<lparr> tx_server_handshake_iv := d \<rparr>))
             (expand384 lib (tx_server_handshake_iv t) 12 (tx_server_secret t) ''iv'' [])] t)"

text \<open>\<^verbatim>\<open>handle_app_keys_calculation\<close>, the part for the cipher suite.  The function has no return statement on
  success; its callers ignore the value.\<close>

definition app_keys :: "openssl \<Rightarrow> bytes \<Rightarrow> tls13_ctx \<Rightarrow> (int \<times> tls13_ctx) option" where
  "app_keys lib msgs t =
    (let handshake_hash = ossl_sha384 lib msgs in
     case expand384 lib stack_hash 48 (tx_handshake_secret t) ''derived'' (ossl_sha384 lib []) of
       None \<Rightarrow> None
     | Some (r, derived_secret) \<Rightarrow>
         if r = 0 then Some (- 1, t)
         else let (r, master_secret) = hkdf_extract (ossl_hmac384 lib) stack_hash (seg 0 48 derived_secret) zeros48 in
         if r = 0 then Some (- 1, t)
         else case expand384 lib stack_hash 48 master_secret ''c ap traffic'' handshake_hash of
           None \<Rightarrow> None
         | Some (r, app_client_secret) \<Rightarrow>
             if r = 0 then Some (- 1, t)
             else case expand384 lib stack_hash 48 master_secret ''s ap traffic'' handshake_hash of
               None \<Rightarrow> None
             | Some (r, app_server_secret) \<Rightarrow>
                 if r = 0 then Some (- 1, t)
                 else derive_steps
                  [\<lambda>t. map_option (\<lambda>(r, d). (r, t\<lparr> tx_client_application_key := d \<rparr>))
                     (expand384 lib (tx_client_application_key t) 32 app_client_secret ''key'' []),
                   \<lambda>t. map_option (\<lambda>(r, d). (r, t\<lparr> tx_server_application_key := d \<rparr>))
                     (expand384 lib (tx_server_application_key t) 32 app_server_secret ''key'' []),
                   \<lambda>t. map_option (\<lambda>(r, d). (r, t\<lparr> tx_client_application_iv := d \<rparr>))
                     (expand384 lib (tx_client_application_iv t) 12 app_client_secret ''iv'' []),
                   \<lambda>t. map_option (\<lambda>(r, d). (r, t\<lparr> tx_server_application_iv := d \<rparr>))
                     (expand384 lib (tx_server_application_iv t) 12 app_server_secret ''iv'' [])] t)"

text \<open>The verify data of a Finished message: the code of \<^verbatim>\<open>send_server_finished\<close> and of
  \<^verbatim>\<open>handle_verify_data_calculation\<close>.  A failed derivation exits; the results of the last three
  \<^verbatim>\<open>HMAC\<close> calls are not looked at.\<close>

definition finished_data :: "openssl \<Rightarrow> bytes \<Rightarrow> bytes \<Rightarrow> bytes \<Rightarrow> bytes option" where
  "finished_data lib out msgs secret =
    (case expand384 lib zeros48 48 secret ''finished'' [] of
       None \<Rightarrow> None
     | Some (r, finished_key) \<Rightarrow>
         if r = 0 then None
         else Some (case ossl_hmac384 lib finished_key (ossl_sha384 lib msgs) of
                      None \<Rightarrow> out
                    | Some d \<Rightarrow> blit out 0 d))"

definition handle_verify_data_calculation :: "openssl \<Rightarrow> bytes \<Rightarrow> tls13_ctx \<Rightarrow> tls13_ctx option" where
  "handle_verify_data_calculation lib msgs t =
     map_option (\<lambda>d. t\<lparr> tx_calculated_vd := d \<rparr>) (finished_data lib (tx_calculated_vd t) msgs (tx_client_secret t))"


section \<open>The schedule of RFC 8446\<close>

text \<open>\<open>h\<close> is HMAC-SHA384, which is also HKDF-Extract, and \<open>H\<close> is SHA-384.\<close>

definition derive_secret :: "(bytes \<Rightarrow> bytes \<Rightarrow> bytes) \<Rightarrow> (bytes \<Rightarrow> bytes) \<Rightarrow> bytes \<Rightarrow> string \<Rightarrow> bytes \<Rightarrow> bytes" where
  "derive_secret h H secret label msgs = rfc8446_expand_label h 48 secret (str label) (H msgs) 48"

definition handshake_secret :: "(bytes \<Rightarrow> bytes \<Rightarrow> bytes) \<Rightarrow> (bytes \<Rightarrow> bytes) \<Rightarrow> bytes \<Rightarrow> bytes" where
  "handshake_secret h H ecdhe = h (derive_secret h H (h zeros48 zeros48) ''derived'' []) ecdhe"

definition master_secret :: "(bytes \<Rightarrow> bytes \<Rightarrow> bytes) \<Rightarrow> (bytes \<Rightarrow> bytes) \<Rightarrow> bytes \<Rightarrow> bytes" where
  "master_secret h H ecdhe = h (derive_secret h H (handshake_secret h H ecdhe) ''derived'' []) zeros48"

definition traffic_key :: "(bytes \<Rightarrow> bytes \<Rightarrow> bytes) \<Rightarrow> bytes \<Rightarrow> bytes" where
  "traffic_key h secret = rfc8446_expand_label h 48 secret (str ''key'') [] 32"

definition traffic_iv :: "(bytes \<Rightarrow> bytes \<Rightarrow> bytes) \<Rightarrow> bytes \<Rightarrow> bytes" where
  "traffic_iv h secret = rfc8446_expand_label h 48 secret (str ''iv'') [] 12"

definition verify_data :: "(bytes \<Rightarrow> bytes \<Rightarrow> bytes) \<Rightarrow> (bytes \<Rightarrow> bytes) \<Rightarrow> bytes \<Rightarrow> bytes \<Rightarrow> bytes" where
  "verify_data h H secret msgs = h (rfc8446_expand_label h 48 secret (str ''finished'') [] 48) (H msgs)"


section \<open>Lemmas\<close>

definition lib_spec :: "openssl \<Rightarrow> (bytes \<Rightarrow> bytes \<Rightarrow> bytes) \<Rightarrow> bool" where
  "lib_spec lib h \<longleftrightarrow> (\<forall>k m. ossl_hmac384 lib k m = Some (h k m) \<and> length (h k m) = 48) \<and>
     (\<forall>m. length (ossl_sha384 lib m) = 48)"

lemma lib_specD:
  assumes "lib_spec lib h"
  shows "ossl_hmac384 lib k m = Some (h k m)" "length (h k m) = 48" "length (ossl_sha384 lib m) = 48"
  using assms by (simp_all add: lib_spec_def)

lemma length_expand_label:
  assumes "lib_spec lib h" "n \<le> 48"
  shows "length (rfc8446_expand_label h 48 secret label ctx n) = n"
proof -
  have "n \<le> (n + 48 - 1) div 48 * 48" using assms(2) by (cases "n = 0") auto
  then show ?thesis
    by (simp add: rfc8446_expand_label_def rfc5869_expand_def length_rfc5869_okm[of h 48, OF lib_specD(2)[OF assms(1)]])
qed

lemma expand384_ok:
  assumes "lib_spec lib h" "n \<le> 48" "n \<le> length out" "length label \<le> 249" "length ctx \<le> 255"
  shows "expand384 lib out n secret label ctx =
    Some (1, blit out 0 (rfc8446_expand_label h 48 (seg 0 48 secret) (str label) ctx n))"
  unfolding expand384_def
proof (rule hkdf_expand_label_ok)
  have "(n + 48 - 1) div 48 \<le> 95 div 48" using assms(2) by (intro div_le_mono) simp
  then show "(n + 48 - 1) div 48 < 255" by simp
qed (use assms lib_specD[OF assms(1)] in simp_all)

lemma seg_blit_0: "seg 0 (length x) (blit b 0 x) = x"
  by (simp add: seg_def blit_def)

lemma seg_blit_n: "length x = n \<Longrightarrow> seg 0 n (blit b 0 x) = x"
  using seg_blit_0 by blast

text \<open>The arrays of the context have their size.\<close>

definition tls13_ctx_wf :: "tls13_ctx \<Rightarrow> bool" where
  "tls13_ctx_wf t \<longleftrightarrow>
     length (tx_handshake_secret t) = 128 \<and> length (tx_client_secret t) = 128 \<and> length (tx_server_secret t) = 128 \<and>
     length (tx_client_handshake_key t) = 128 \<and> length (tx_server_handshake_key t) = 128 \<and>
     length (tx_client_handshake_iv t) = 128 \<and> length (tx_server_handshake_iv t) = 128 \<and>
     length (tx_client_application_key t) = 128 \<and> length (tx_server_application_key t) = 128 \<and>
     length (tx_client_application_iv t) = 128 \<and> length (tx_server_application_iv t) = 128 \<and>
     length (tx_calculated_vd t) = 48"

lemma handshake_keys_run:
  fixes lib msgs ecdhe h
  defines "hs \<equiv> handshake_secret h (ossl_sha384 lib) ecdhe"
  defines "cs \<equiv> derive_secret h (ossl_sha384 lib) hs ''c hs traffic'' msgs"
    and "sv \<equiv> derive_secret h (ossl_sha384 lib) hs ''s hs traffic'' msgs"
  assumes "lib_spec lib h" "tls13_ctx_wf t"
  shows "handshake_keys lib msgs ecdhe t = Some (0, t\<lparr>
      tx_handshake_secret := blit (tx_handshake_secret t) 0 hs,
      tx_client_secret := blit (tx_client_secret t) 0 cs, tx_server_secret := blit (tx_server_secret t) 0 sv,
      tx_client_handshake_key := blit (tx_client_handshake_key t) 0 (traffic_key h cs),
      tx_server_handshake_key := blit (tx_server_handshake_key t) 0 (traffic_key h sv),
      tx_client_handshake_iv := blit (tx_client_handshake_iv t) 0 (traffic_iv h cs),
      tx_server_handshake_iv := blit (tx_server_handshake_iv t) 0 (traffic_iv h sv) \<rparr>)"
proof -
  note lib = lib_specD[OF assms(4)]
  note len = length_expand_label[OF assms(4)]
  have l: "length hs = 48" "length cs = 48" "length sv = 48"
    by (simp_all add: hs_def handshake_secret_def cs_def sv_def derive_secret_def lib len)
  have seg: "seg 0 48 (blit b 0 hs) = hs" "seg 0 48 (blit b 0 cs) = cs" "seg 0 48 (blit b 0 sv) = sv" for b
    by (rule seg_blit_n, fact l)+
  have s0: "seg 0 48 (blit b 0 (h k m)) = h k m" for b k m by (rule seg_blit_n) (simp add: lib)
  have d: "seg 0 48 (blit b 0 (rfc8446_expand_label h 48 s lb c 48)) = rfc8446_expand_label h 48 s lb c 48" for b s lb c
    by (rule seg_blit_n) (simp add: len)
  have ex: "expand384 lib out n secret label ctx =
      Some (1, blit out 0 (rfc8446_expand_label h 48 (seg 0 48 secret) (str label) ctx n))"
    if "n \<le> 48" "128 \<le> length out" "length label \<le> 249" "length ctx \<le> 255" for out n secret label ctx
    using that by (intro expand384_ok[OF assms(4)]) auto
  have st: "length stack_hash = 256" by (simp add: stack_hash_def MAX_HASH_SIZE_def)
  have hs: "hs = h (rfc8446_expand_label h 48 (h zeros48 zeros48) (str ''derived'') (ossl_sha384 lib []) 48) ecdhe"
    by (simp add: hs_def handshake_secret_def derive_secret_def)
  show ?thesis
    using assms(5) seg
    by (simp add: handshake_keys_def hkdf_extract_def lib ex st s0 d hs[symmetric] tls13_ctx_wf_def traffic_key_def traffic_iv_def)
      (simp add: cs_def sv_def derive_secret_def Let_def)
qed

lemma app_keys_run:
  fixes lib msgs ecdhe h
  defines "ms \<equiv> master_secret h (ossl_sha384 lib) ecdhe"
  defines "cs \<equiv> derive_secret h (ossl_sha384 lib) ms ''c ap traffic'' msgs"
    and "sv \<equiv> derive_secret h (ossl_sha384 lib) ms ''s ap traffic'' msgs"
  assumes "lib_spec lib h" "tls13_ctx_wf t" "seg 0 48 (tx_handshake_secret t) = handshake_secret h (ossl_sha384 lib) ecdhe"
  shows "app_keys lib msgs t = Some (0, t\<lparr>
      tx_client_application_key := blit (tx_client_application_key t) 0 (traffic_key h cs),
      tx_server_application_key := blit (tx_server_application_key t) 0 (traffic_key h sv),
      tx_client_application_iv := blit (tx_client_application_iv t) 0 (traffic_iv h cs),
      tx_server_application_iv := blit (tx_server_application_iv t) 0 (traffic_iv h sv) \<rparr>)"
proof -
  note lib = lib_specD[OF assms(4)]
  note len = length_expand_label[OF assms(4)]
  have s0: "seg 0 48 (blit b 0 (h k m)) = h k m" for b k m by (rule seg_blit_n) (simp add: lib)
  have d: "seg 0 48 (blit b 0 (rfc8446_expand_label h 48 s lb c 48)) = rfc8446_expand_label h 48 s lb c 48" for b s lb c
    by (rule seg_blit_n) (simp add: len)
  have ex: "expand384 lib out n secret label ctx =
      Some (1, blit out 0 (rfc8446_expand_label h 48 (seg 0 48 secret) (str label) ctx n))"
    if "n \<le> 48" "128 \<le> length out" "length label \<le> 249" "length ctx \<le> 255" for out n secret label ctx
    using that by (intro expand384_ok[OF assms(4)]) auto
  have st: "length stack_hash = 256" by (simp add: stack_hash_def MAX_HASH_SIZE_def)
  show ?thesis
    using assms(5)
    by (simp add: app_keys_def hkdf_extract_def lib ex st s0 d assms(6) tls13_ctx_wf_def Let_def)
      (simp add: traffic_key_def traffic_iv_def cs_def sv_def ms_def master_secret_def derive_secret_def)
qed

lemma finished_data_ok:
  assumes "lib_spec lib h" "length out = 48"
  shows "finished_data lib out msgs secret = Some (verify_data h (ossl_sha384 lib) (seg 0 48 secret) msgs)"
proof -
  note lib = lib_specD[OF assms(1)]
  let ?k = "rfc8446_expand_label h 48 (seg 0 48 secret) (str ''finished'') [] 48"
  have "expand384 lib zeros48 48 secret ''finished'' [] = Some (1, blit zeros48 0 ?k)"
    by (rule expand384_ok[OF assms(1)]) (simp_all add: zeros48_def)
  moreover have "blit zeros48 0 ?k = ?k" "blit out 0 (h k m) = h k m" for k m
    using length_expand_label[OF assms(1)] assms(2) by (simp_all add: blit_def zeros48_def lib)
  ultimately show ?thesis by (simp add: finished_data_def lib verify_data_def)
qed


section \<open>Properties\<close>

text \<open>C9: the SmartNIC's key schedule is that of RFC 8446.  With \<open>hello\<close> the messages up to the server hello,
  \<open>all\<close> the messages up to the server's Finished, and the shared secret \<open>ecdhe\<close>, the two calculations
  succeed and leave in the context the handshake and the application traffic keys and initialisation
  vectors of both directions and the verify data expected from the client, when HMAC-SHA384 and SHA-384
  do not fail and return 48 bytes.\<close>

theorem key_schedule_rfc8446:
  fixes lib h ecdhe hello all
  defines "H \<equiv> ossl_sha384 lib"
  defines "hs \<equiv> handshake_secret h H ecdhe" and "ms \<equiv> master_secret h H ecdhe"
  assumes "lib_spec lib h" "tls13_ctx_wf t"
  shows "\<exists>t1 t2 t3. handshake_keys lib hello ecdhe t = Some (0, t1) \<and> app_keys lib all t1 = Some (0, t2) \<and>
    handle_verify_data_calculation lib all t2 = Some t3 \<and>
    seg 0 32 (tx_client_handshake_key t3) = traffic_key h (derive_secret h H hs ''c hs traffic'' hello) \<and>
    seg 0 12 (tx_client_handshake_iv t3) = traffic_iv h (derive_secret h H hs ''c hs traffic'' hello) \<and>
    seg 0 32 (tx_server_handshake_key t3) = traffic_key h (derive_secret h H hs ''s hs traffic'' hello) \<and>
    seg 0 12 (tx_server_handshake_iv t3) = traffic_iv h (derive_secret h H hs ''s hs traffic'' hello) \<and>
    seg 0 32 (tx_client_application_key t3) = traffic_key h (derive_secret h H ms ''c ap traffic'' all) \<and>
    seg 0 12 (tx_client_application_iv t3) = traffic_iv h (derive_secret h H ms ''c ap traffic'' all) \<and>
    seg 0 32 (tx_server_application_key t3) = traffic_key h (derive_secret h H ms ''s ap traffic'' all) \<and>
    seg 0 12 (tx_server_application_iv t3) = traffic_iv h (derive_secret h H ms ''s ap traffic'' all) \<and>
    tx_calculated_vd t3 = verify_data h H (derive_secret h H hs ''c hs traffic'' hello) all"
proof -
  note len = length_expand_label[OF assms(4)] and lib = lib_specD[OF assms(4)]
  have l: "length (derive_secret h H s lb m) = 48" "length (traffic_key h s) = 32" "length (traffic_iv h s) = 12" for s lb m
    by (simp_all add: derive_secret_def traffic_key_def traffic_iv_def len)
  have lh: "length hs = 48" by (simp add: hs_def handshake_secret_def lib)
  have seg: "seg 0 48 (blit b 0 hs) = hs" "seg 0 48 (blit b 0 (derive_secret h H s lb m)) = derive_secret h H s lb m"
    "seg 0 32 (blit b 0 (traffic_key h s)) = traffic_key h s" "seg 0 12 (blit b 0 (traffic_iv h s)) = traffic_iv h s" for b s lb m
    by (rule seg_blit_n, simp add: l lh)+
  obtain t1 where t1: "handshake_keys lib hello ecdhe t = Some (0, t1)" "tls13_ctx_wf t1"
    "seg 0 48 (tx_handshake_secret t1) = hs"
    "seg 0 48 (tx_client_secret t1) = derive_secret h H hs ''c hs traffic'' hello"
    "seg 0 32 (tx_client_handshake_key t1) = traffic_key h (derive_secret h H hs ''c hs traffic'' hello)"
    "seg 0 12 (tx_client_handshake_iv t1) = traffic_iv h (derive_secret h H hs ''c hs traffic'' hello)"
    "seg 0 32 (tx_server_handshake_key t1) = traffic_key h (derive_secret h H hs ''s hs traffic'' hello)"
    "seg 0 12 (tx_server_handshake_iv t1) = traffic_iv h (derive_secret h H hs ''s hs traffic'' hello)"
    unfolding handshake_keys_run[OF assms(4,5)] H_def[symmetric] hs_def[symmetric]
    using assms(5) by (simp add: seg tls13_ctx_wf_def l lh)
  obtain t2 where t2: "app_keys lib all t1 = Some (0, t2)" "length (tx_calculated_vd t2) = 48"
    "seg 0 32 (tx_client_application_key t2) = traffic_key h (derive_secret h H ms ''c ap traffic'' all)"
    "seg 0 12 (tx_client_application_iv t2) = traffic_iv h (derive_secret h H ms ''c ap traffic'' all)"
    "seg 0 32 (tx_server_application_key t2) = traffic_key h (derive_secret h H ms ''s ap traffic'' all)"
    "seg 0 12 (tx_server_application_iv t2) = traffic_iv h (derive_secret h H ms ''s ap traffic'' all)"
    "tx_client_secret t2 = tx_client_secret t1"
    "tx_client_handshake_key t2 = tx_client_handshake_key t1" "tx_server_handshake_key t2 = tx_server_handshake_key t1"
    "tx_client_handshake_iv t2 = tx_client_handshake_iv t1" "tx_server_handshake_iv t2 = tx_server_handshake_iv t1"
    unfolding app_keys_run[OF assms(4) t1(2) t1(3)[unfolded hs_def H_def]] H_def[symmetric] ms_def[symmetric]
    using t1(2) by (simp add: seg tls13_ctx_wf_def)
  have t3: "handle_verify_data_calculation lib all t2 =
      Some (t2\<lparr> tx_calculated_vd := verify_data h H (derive_secret h H hs ''c hs traffic'' hello) all \<rparr>)"
    unfolding handle_verify_data_calculation_def finished_data_ok[OF assms(4) t2(2)] using t1(4) t2(7) by (simp add: H_def)
  show ?thesis
    by (intro exI conjI, rule t1(1), rule t2(1), rule t3) (simp_all add: t1 t2)
qed

definition demo_lib :: openssl where
  "demo_lib = \<lparr> ossl_sha1 = \<lambda>m. replicate 20 1, ossl_sha256 = \<lambda>m. replicate 32 (of_nat (length m)),
     ossl_sha384 = \<lambda>m. replicate 48 (of_nat (length m)),
     ossl_hmac384 = \<lambda>k m. Some (replicate 48 (of_nat (length m))), ossl_hmac1 = \<lambda>k m. replicate 20 2,
     ossl_gcm_enc = \<lambda>k i a p. (p, replicate 16 3), ossl_gcm_dec = \<lambda>k i a c t. (True, c) \<rparr>"

lemma demo_lib_spec: "lib_spec demo_lib (\<lambda>k m. replicate 48 (of_nat (length m)))"
  by (simp add: lib_spec_def demo_lib_def)

lemma tls13_ctx_zero_wf: "tls13_ctx_wf tls13_ctx_zero"
  by (simp add: tls13_ctx_wf_def tls13_ctx_zero_def Let_def TLS_MAX_KEY_SIZE_def)

theorem key_schedule_rfc8446_witness:
  "\<exists>t1 t2. handshake_keys demo_lib [1, 2] [3] tls13_ctx_zero = Some (0, t1) \<and>
    app_keys demo_lib [1, 2, 4] t1 = Some (0, t2) \<and>
    seg 0 32 (tx_client_handshake_key t2) = traffic_key (\<lambda>k m. replicate 48 (of_nat (length m)))
      (derive_secret (\<lambda>k m. replicate 48 (of_nat (length m))) (ossl_sha384 demo_lib)
        (handshake_secret (\<lambda>k m. replicate 48 (of_nat (length m))) (ossl_sha384 demo_lib) [3]) ''c hs traffic'' [1, 2])"
proof -
  from key_schedule_rfc8446[OF demo_lib_spec tls13_ctx_zero_wf, of "[1, 2]" "[3]" "[1, 2, 4]"]
  obtain t1 t2 t3 where "handshake_keys demo_lib [1, 2] [3] tls13_ctx_zero = Some (0, t1)" "app_keys demo_lib [1, 2, 4] t1 = Some (0, t2)"
    "handle_verify_data_calculation demo_lib [1, 2, 4] t2 = Some t3"
    "seg 0 32 (tx_client_handshake_key t3) = traffic_key (\<lambda>k m. replicate 48 (of_nat (length m)))
      (derive_secret (\<lambda>k m. replicate 48 (of_nat (length m))) (ossl_sha384 demo_lib)
        (handshake_secret (\<lambda>k m. replicate 48 (of_nat (length m))) (ossl_sha384 demo_lib) [3]) ''c hs traffic'' [1, 2])" by blast
  moreover from this(3) have "tx_client_handshake_key t3 = tx_client_handshake_key t2"
    by (auto simp: handle_verify_data_calculation_def)
  ultimately show ?thesis by auto
qed

end
