(* ===== verification/Pka_Operand.thy ===== *)
theory Pka_Operand
  imports Xtls_Prelude
begin

text \<open>
  Operands of the public key accelerator,
  \<^verbatim>\<open>src/smartnic/offload_ssl/third_party/pka/pka_helper.c\<close>: conversion between byte strings and operands,
  lengths, comparison and the clamping of private keys.

  An operand is a number of \<open>po_actual_len\<close> bytes in a buffer, in either byte order.  The accelerator
  itself, its random number generator and the byte order of its rings are parameters.  \<open>None\<close> is a
  failed assertion or an access outside a buffer.
\<close>

record pka_operand =
  po_buf :: bytes
  po_buf_len :: nat
  po_actual_len :: nat
  po_is_encrypted :: bool
  po_big_endian :: bool

datatype pka_cmp_code = RC_COMPARE_EQUAL | RC_LEFT_IS_SMALLER | RC_RIGHT_IS_SMALLER


section \<open>Operations\<close>

definition byte_swap_copy :: "bytes \<Rightarrow> bytes \<Rightarrow> nat \<Rightarrow> bytes option" where
  "byte_swap_copy dest src len =
    (if len > length src \<or> len > length dest then None
     else Some (blit dest 0 (rev (take len src))))"

definition operand_byte_copy :: "pka_operand \<Rightarrow> bytes \<Rightarrow> nat \<Rightarrow> pka_operand option" where
  "operand_byte_copy operand src buf_len =
    (if buf_len > po_buf_len operand \<or> buf_len > length src \<or> buf_len > length (po_buf operand) then None
     else Some (operand\<lparr> po_buf := blit (po_buf operand) 0
                   (if po_big_endian operand then take buf_len src else rev (take buf_len src)),
                 po_actual_len := buf_len \<rparr>))"

definition copy_operand :: "pka_operand \<Rightarrow> pka_operand \<Rightarrow> pka_operand option" where
  "copy_operand original copy =
    (let n = po_actual_len original in
     if n > length (po_buf original) \<or> n > length (po_buf copy) then None
     else Some (original\<lparr> po_buf := blit (po_buf copy) 0 (take n (po_buf original)) \<rparr>))"

definition string_to_operand :: "bytes \<Rightarrow> pka_operand \<Rightarrow> nat \<Rightarrow> bool \<Rightarrow> pka_operand option" where
  "string_to_operand s op len endian =
    (if po_buf_len op > length (po_buf op) \<or> len > length (po_buf op) \<or> len > length s then None
     else let buf = blit (po_buf op) 0 (replicate (po_buf_len op) 0) in
       Some (op\<lparr> po_buf := blit buf 0 (if endian then take len s else rev (take len s)),
             po_actual_len := len, po_is_encrypted := False, po_big_endian := endian \<rparr>))"

definition operand_to_string :: "pka_operand \<Rightarrow> bytes \<Rightarrow> nat \<Rightarrow> bytes option" where
  "operand_to_string op s max_len =
    (let len = min max_len (po_actual_len op) in
     if len > length (po_buf op) \<or> len > length s then None
     else Some (blit s 0 (if po_big_endian op then take len (po_buf op) else rev (take len (po_buf op)))))"

text \<open>\<^verbatim>\<open>make_operand_ecdsa\<close> records the length of the number as the length of its buffer.\<close>

definition operand_zero :: pka_operand where
  "operand_zero = \<lparr> po_buf = [], po_buf_len = 0, po_actual_len = 0, po_is_encrypted = False, po_big_endian = False \<rparr>"

definition make_operand_ecdsa :: "bytes option \<Rightarrow> nat \<Rightarrow> nat \<Rightarrow> bool \<Rightarrow> pka_operand option option" where
  "make_operand_ecdsa bn_buf buf_len buf_max_len big_endian =
    (case bn_buf of
       None \<Rightarrow> Some None
     | Some src \<Rightarrow>
         if buf_max_len = 0 then Some None
         else map_option Some (operand_byte_copy (operand_zero\<lparr> po_big_endian := big_endian,
                po_buf := replicate buf_max_len 0, po_buf_len := buf_len \<rparr>) src buf_len))"

definition make_operand_rsa :: "bytes option \<Rightarrow> nat \<Rightarrow> nat \<Rightarrow> bool \<Rightarrow> pka_operand option option" where
  "make_operand_rsa bn_buf buf_len buf_max_len big_endian =
    (case bn_buf of
       None \<Rightarrow> Some None
     | Some src \<Rightarrow>
         if buf_max_len = 0 then Some None
         else map_option Some (operand_byte_copy (operand_zero\<lparr> po_big_endian := big_endian,
                po_buf := replicate buf_max_len 0, po_buf_len := buf_max_len \<rparr>) src buf_len))"

definition make_operand_buf :: "pka_operand \<Rightarrow> bytes \<Rightarrow> nat \<Rightarrow> pka_operand option" where
  "make_operand_buf operand src buf_len =
     operand_byte_copy (operand\<lparr> po_buf := replicate buf_len 0, po_buf_len := buf_len, po_actual_len := buf_len \<rparr>) src buf_len"

definition make_operand :: "bytes \<Rightarrow> nat \<Rightarrow> bool \<Rightarrow> pka_operand option" where
  "make_operand src buf_len big_endian =
     make_operand_buf (operand_zero\<lparr> po_big_endian := big_endian \<rparr>) src buf_len"

definition set_pka_operand :: "pka_operand \<Rightarrow> bytes \<Rightarrow> nat \<Rightarrow> bool \<Rightarrow> pka_operand option" where
  "set_pka_operand operand src buf_len big_endian =
    (if buf_len > length src then None
     else Some (operand\<lparr> po_big_endian := big_endian, po_buf_len := buf_len, po_actual_len := buf_len,
            po_buf := (if big_endian then take buf_len src else rev (take buf_len src)) \<rparr>))"

text \<open>\<^verbatim>\<open>bits_in_byte\<close> tests the bits from the highest one.\<close>

fun bits_loop :: "u8 \<Rightarrow> nat \<Rightarrow> nat" where
  "bits_loop b 0 = 0"
| "bits_loop b (Suc k) = (if b AND push_bit k 1 \<noteq> 0 then Suc k else bits_loop b k)"

definition bits_in_byte :: "u8 \<Rightarrow> nat" where
  "bits_in_byte b = (if b = 0 then 0 else bits_loop b 8)"

text \<open>The loops of \<^verbatim>\<open>operand_bit_len\<close> read the byte before they test the remaining length; \<open>i\<close> is the
  position in the buffer.  In the little-endian loop it is \<open>byte_len - 1\<close>.\<close>

fun bit_len_be :: "bytes \<Rightarrow> nat \<Rightarrow> nat \<Rightarrow> (nat \<times> nat) option" where
  "bit_len_be buf i 0 = (if i < length buf then Some (i, 0) else None)"
| "bit_len_be buf i (Suc n) =
    (if i < length buf then if buf ! i = 0 then bit_len_be buf (i + 1) n else Some (i, Suc n) else None)"

fun bit_len_le :: "bytes \<Rightarrow> nat \<Rightarrow> (nat \<times> nat) option" where
  "bit_len_le buf 0 = None"
| "bit_len_le buf (Suc n) =
    (if n < length buf then if buf ! n = 0 then bit_len_le buf n else Some (n, Suc n) else None)"

definition operand_bit_len :: "pka_operand \<Rightarrow> nat option" where
  "operand_bit_len op =
    (if po_actual_len op = 0 then Some 0
     else case (if po_big_endian op then bit_len_be (po_buf op) 0 (po_actual_len op)
                else bit_len_le (po_buf op) (po_actual_len op)) of
       None \<Rightarrow> None
     | Some (i, byte_len) \<Rightarrow>
         if byte_len = 0 then Some 0 else Some (8 * (byte_len - 1) + bits_in_byte (po_buf op ! i)))"

fun byte_len_be :: "bytes \<Rightarrow> nat \<Rightarrow> nat \<Rightarrow> nat option" where
  "byte_len_be buf i 0 = Some 0"
| "byte_len_be buf i (Suc n) =
    (if i < length buf then if buf ! i = 0 then byte_len_be buf (i + 1) n else Some (Suc n) else None)"

fun byte_len_le :: "bytes \<Rightarrow> nat \<Rightarrow> nat option" where
  "byte_len_le buf 0 = Some 0"
| "byte_len_le buf (Suc n) =
    (if n < length buf then if buf ! n = 0 then byte_len_le buf n else Some (Suc n) else None)"

definition operand_byte_len :: "pka_operand \<Rightarrow> nat option" where
  "operand_byte_len op =
    (if po_big_endian op then byte_len_be (po_buf op) 0 (po_actual_len op)
     else byte_len_le (po_buf op) (po_actual_len op))"

definition is_zero :: "pka_operand \<Rightarrow> bool option" where
  "is_zero op =
    (case operand_byte_len op of
       None \<Rightarrow> None
     | Some len \<Rightarrow> Some (if len = 0 then True else if len = 1 then po_buf op ! 0 = 0 else False))"

text \<open>\<^verbatim>\<open>pki_compare\<close> skips zeros at the high end of both buffers and compares from there.\<close>

fun skip_high :: "bytes \<Rightarrow> nat \<Rightarrow> nat" where
  "skip_high buf len = (if 2 \<le> len \<and> buf ! (len - 1) = 0 then skip_high buf (len - 1) else len)"

declare skip_high.simps [simp del]

fun compare_down :: "bytes \<Rightarrow> bytes \<Rightarrow> nat \<Rightarrow> pka_cmp_code" where
  "compare_down l r 0 = RC_COMPARE_EQUAL"
| "compare_down l r (Suc k) =
    (if l ! k < r ! k then RC_LEFT_IS_SMALLER
     else if l ! k > r ! k then RC_RIGHT_IS_SMALLER
     else compare_down l r k)"

definition pki_compare :: "pka_operand \<Rightarrow> pka_operand \<Rightarrow> pka_cmp_code option" where
  "pki_compare left right =
    (case is_zero left of None \<Rightarrow> None | Some zl \<Rightarrow>
     case is_zero right of None \<Rightarrow> None | Some zr \<Rightarrow>
       Some (if zl then if zr then RC_COMPARE_EQUAL else RC_LEFT_IS_SMALLER
         else if zr then RC_RIGHT_IS_SMALLER
         else let ll = skip_high (po_buf left) (po_actual_len left);
                  rl = skip_high (po_buf right) (po_actual_len right)
              in if ll < rl then RC_LEFT_IS_SMALLER
                 else if rl < ll then RC_RIGHT_IS_SMALLER
                 else compare_down (po_buf left) (po_buf right) ll))"

text \<open>The private key: \<open>rnd\<close> are the bytes of \<^verbatim>\<open>pka_get_rand_bytes\<close>, \<open>big_endian\<close> the byte order of the rings.\<close>

definition rand_and_clamp :: "bytes \<Rightarrow> bool \<Rightarrow> pka_operand \<Rightarrow> pka_operand \<Rightarrow> pka_operand option" where
  "rand_and_clamp rnd big_endian result max_plus_1 =
    (case operand_byte_len max_plus_1 of
       None \<Rightarrow> None
     | Some n \<Rightarrow>
         if n > length (po_buf result) \<or> length (po_buf result) < 32 then None
         else let b = blit (po_buf result) 0 (take n rnd);
                  b = b[0 := b ! 0 AND 248];
                  b = b[31 := b ! 31 AND 127];
                  b = b[31 := b ! 31 OR 64]
              in Some (result\<lparr> po_big_endian := big_endian, po_actual_len := n, po_buf := b \<rparr>))"


section \<open>Values\<close>

text \<open>The number in the lowest \<open>k\<close> bytes of a little-endian buffer, and the number of an operand.\<close>

fun le_val :: "bytes \<Rightarrow> nat \<Rightarrow> nat" where
  "le_val buf 0 = 0"
| "le_val buf (Suc k) = unat (buf ! k) * 256 ^ k + le_val buf k"

definition operand_value :: "pka_operand \<Rightarrow> nat" where
  "operand_value op =
    (let b = take (po_actual_len op) (po_buf op) in
     le_val (if po_big_endian op then rev b else b) (length b))"

definition operand_wf :: "pka_operand \<Rightarrow> bool" where
  "operand_wf op \<longleftrightarrow> po_actual_len op \<le> length (po_buf op)"

lemma unat_byte: "unat (b :: u8) \<le> 255"
  using unsigned_less[of b, where ?'a = nat] by simp

lemma le_val_less: "le_val buf k < 256 ^ k"
proof (induction k)
  case (Suc k)
  have "unat (buf ! k) * 256 ^ k \<le> 255 * 256 ^ k" by (rule mult_le_mono1[OF unat_byte])
  with Suc have "unat (buf ! k) * 256 ^ k + le_val buf k < 255 * 256 ^ k + 256 ^ k" by linarith
  then show ?case by simp
qed simp

lemma le_val_cong: "(\<And>i. i < k \<Longrightarrow> a ! i = b ! i) \<Longrightarrow> le_val a k = le_val b k"
  by (induction k) auto

lemma le_val_take: "k \<le> n \<Longrightarrow> le_val (take n buf) k = le_val buf k"
  by (rule le_val_cong) simp

lemma le_val_zero_iff: "le_val buf k = 0 \<longleftrightarrow> (\<forall>i < k. buf ! i = 0)"
  by (induction k) (auto simp: less_Suc_eq unsigned_eq_0_iff)

lemma le_val_low: "i < k \<Longrightarrow> buf ! i \<noteq> 0 \<Longrightarrow> 256 ^ i \<le> le_val buf k"
proof (induction k)
  case (Suc k)
  show ?case
  proof (cases "i = k")
    case True
    with Suc.prems have "1 \<le> unat (buf ! k)" using unsigned_eq_0_iff[of "buf ! k", where ?'a = nat] by simp
    from mult_le_mono1[OF this, of "256 ^ k"] have "256 ^ k \<le> unat (buf ! k) * 256 ^ k" by (simp only: mult_1)
    then show ?thesis unfolding True le_val.simps by (rule trans_le_add1)
  next
    case False with Suc show ?thesis by simp
  qed
qed simp

text \<open>An operand as a little-endian buffer.\<close>

definition le_buf :: "pka_operand \<Rightarrow> bytes" where
  "le_buf op = (if po_big_endian op then rev (take (po_actual_len op) (po_buf op)) else po_buf op)"

lemma operand_value_le: "operand_wf op \<Longrightarrow> operand_value op = le_val (le_buf op) (po_actual_len op)"
  by (simp add: operand_value_def operand_wf_def le_buf_def Let_def min_absorb2 le_val_take)


section \<open>Lemmas\<close>

lemma bits_loop_bound:
  "(\<And>i. k \<le> i \<Longrightarrow> \<not> bit b i) \<Longrightarrow> b \<noteq> 0 \<Longrightarrow>
    0 < bits_loop b k \<and> bit b (bits_loop b k - 1) \<and> (\<forall>i \<ge> bits_loop b k. \<not> bit b i)"
proof (induction k)
  case 0
  then have "b = 0" by (intro bit_word_eqI) auto
  with 0 show ?case by simp
next
  case (Suc k)
  have t: "b AND push_bit k 1 \<noteq> 0 \<longleftrightarrow> bit b k"
    by (simp add: push_bit_eq_mult and_exp_eq_0_iff_not_bit)
  show ?case
  proof (cases "bit b k")
    case True with t Suc.prems show ?thesis by auto
  next
    case False
    then have "\<And>i. k \<le> i \<Longrightarrow> \<not> bit b i" using Suc.prems(1) by (metis le_antisym not_less_eq_eq)
    with Suc False t show ?thesis by simp
  qed
qed

lemma bits_in_byte_bounds:
  assumes "b \<noteq> 0"
  shows "0 < bits_in_byte b" "2 ^ (bits_in_byte b - 1) \<le> unat b" "unat b < 2 ^ bits_in_byte b"
proof -
  have "\<not> bit b i" if "8 \<le> i" for i using that bit_imp_le_length[of b i] by auto
  from bits_loop_bound[of 8 b, OF this assms]
  have n: "0 < bits_in_byte b" "bit b (bits_in_byte b - 1)" "\<forall>i \<ge> bits_in_byte b. \<not> bit b i"
    using assms by (simp_all add: bits_in_byte_def)
  show "0 < bits_in_byte b" by (fact n(1))
  have "bit (unat b) (bits_in_byte b - 1)" using n(2) by (simp add: bit_unsigned_iff)
  then show "2 ^ (bits_in_byte b - 1) \<le> unat b"
    by (metis bit_nat_iff bit_imp_possible_bit not_less take_bit_nat_eq_self bit_take_bit_iff less_irrefl)
  have "take_bit (bits_in_byte b) (unat b) = unat b"
    using n(3) by (intro bit_eqI) (auto simp: bit_take_bit_iff bit_unsigned_iff not_le[symmetric])
  then show "unat b < 2 ^ bits_in_byte b" by (simp add: take_bit_nat_eq_self_iff)
qed

text \<open>Where the length loops stop, in terms of the little-endian buffer.\<close>

lemma bit_len_le_spec:
  "n \<le> length buf \<Longrightarrow> le_val buf n \<noteq> 0 \<Longrightarrow>
    \<exists>m < n. bit_len_le buf n = Some (m, Suc m) \<and> buf ! m \<noteq> 0 \<and> le_val buf n = le_val buf (Suc m)"
proof (induction n)
  case (Suc n)
  then show ?case by (cases "buf ! n = 0") (fastforce simp: less_Suc_eq)+
qed simp

lemma bit_len_be_spec:
  assumes "i + n \<le> length buf" "le_val (rev (take (i + n) buf)) n \<noteq> 0"
  shows "\<exists>m < n. bit_len_be buf i n = Some (i + n - Suc m, Suc m) \<and> buf ! (i + n - Suc m) \<noteq> 0 \<and>
    le_val (rev (take (i + n) buf)) n = le_val (rev (take (i + n) buf)) (Suc m)"
  using assms
proof (induction n arbitrary: i)
  case (Suc n)
  have top: "rev (take (i + Suc n) buf) ! n = buf ! i" using Suc.prems(1) by (simp add: rev_nth)
  show ?case
  proof (cases "buf ! i = 0")
    case True
    with Suc.prems top have "le_val (rev (take (Suc i + n) buf)) n \<noteq> 0" by simp
    from Suc.IH[OF _ this] Suc.prems(1) obtain m where "m < n"
      "bit_len_be buf (Suc i) n = Some (Suc i + n - Suc m, Suc m)" "buf ! (Suc i + n - Suc m) \<noteq> 0"
      "le_val (rev (take (Suc i + n) buf)) n = le_val (rev (take (Suc i + n) buf)) (Suc m)" by auto
    with True Suc.prems(1) top show ?thesis by (intro exI[of _ m]) simp
  next
    case False with Suc.prems(1) show ?thesis by (intro exI[of _ n]) simp
  qed
qed simp

lemma value_bounds:
  assumes "buf ! m \<noteq> 0"
  shows "2 ^ (8 * m + bits_in_byte (buf ! m) - 1) \<le> le_val buf (Suc m)"
    "le_val buf (Suc m) < 2 ^ (8 * m + bits_in_byte (buf ! m))"
proof -
  note b = bits_in_byte_bounds[OF assms]
  have p: "(2::nat) ^ (8 * m + k) = 2 ^ k * 256 ^ m" for k by (simp add: power_add power_mult)
  have "(2::nat) ^ (8 * m + bits_in_byte (buf ! m) - 1) = 2 ^ (bits_in_byte (buf ! m) - 1) * 256 ^ m"
    using p[of "bits_in_byte (buf ! m) - 1"] b(1) by simp
  also have "\<dots> \<le> unat (buf ! m) * 256 ^ m" by (rule mult_le_mono1[OF b(2)])
  finally show "2 ^ (8 * m + bits_in_byte (buf ! m) - 1) \<le> le_val buf (Suc m)" by simp
  have "le_val buf (Suc m) < unat (buf ! m) * 256 ^ m + 256 ^ m" using le_val_less[of buf m] by simp
  also have "\<dots> = (unat (buf ! m) + 1) * 256 ^ m" by simp
  also have "\<dots> \<le> 2 ^ bits_in_byte (buf ! m) * 256 ^ m" by (rule mult_le_mono1) (use b(3) in simp)
  finally show "le_val buf (Suc m) < 2 ^ (8 * m + bits_in_byte (buf ! m))" by (simp add: p)
qed

lemma operand_bit_len_run:
  assumes "operand_wf op" "operand_value op \<noteq> 0"
  obtains m where "le_buf op ! m \<noteq> 0" "operand_bit_len op = Some (8 * m + bits_in_byte (le_buf op ! m))"
    "operand_value op = le_val (le_buf op) (Suc m)"
proof (cases "po_big_endian op")
  case True
  let ?n = "po_actual_len op"
  have v: "operand_value op = le_val (rev (take ?n (po_buf op))) ?n"
    using operand_value_le[OF assms(1)] True by (simp add: le_buf_def)
  from bit_len_be_spec[of 0 ?n "po_buf op"] assms v obtain m where m: "m < ?n"
    "bit_len_be (po_buf op) 0 ?n = Some (?n - Suc m, Suc m)" "po_buf op ! (?n - Suc m) \<noteq> 0"
    "operand_value op = le_val (rev (take ?n (po_buf op))) (Suc m)" by (auto simp: operand_wf_def)
  have "le_buf op ! m = po_buf op ! (?n - Suc m)"
    using True m(1) assms(1) by (simp add: le_buf_def operand_wf_def rev_nth)
  then show thesis using m True by (intro that[of m]) (auto simp: operand_bit_len_def le_buf_def)
next
  case False
  then have v: "operand_value op = le_val (po_buf op) (po_actual_len op)"
    using operand_value_le[OF assms(1)] by (simp add: le_buf_def)
  from bit_len_le_spec[of "po_actual_len op" "po_buf op"] assms v obtain m where
    "m < po_actual_len op" "bit_len_le (po_buf op) (po_actual_len op) = Some (m, Suc m)" "po_buf op ! m \<noteq> 0"
    "operand_value op = le_val (po_buf op) (Suc m)" by (auto simp: operand_wf_def)
  then show thesis using False by (intro that[of m]) (auto simp: operand_bit_len_def le_buf_def)
qed

text \<open>Comparison of little-endian operands.\<close>

lemma byte_len_le_spec:
  "n \<le> length buf \<Longrightarrow> \<exists>m \<le> n. byte_len_le buf n = Some m \<and> le_val buf n = le_val buf m \<and> (0 < m \<longrightarrow> buf ! (m - 1) \<noteq> 0)"
proof (induction n)
  case (Suc n) then show ?case by (cases "buf ! n = 0") (auto intro: le_SucI)
qed simp

lemma is_zero_le:
  assumes "operand_wf op" "\<not> po_big_endian op"
  shows "is_zero op = Some (operand_value op = 0)"
proof -
  from byte_len_le_spec[of "po_actual_len op" "po_buf op"] assms(1) obtain m where
    m: "byte_len_le (po_buf op) (po_actual_len op) = Some m" "0 < m \<longrightarrow> po_buf op ! (m - 1) \<noteq> 0"
      "le_val (po_buf op) (po_actual_len op) = le_val (po_buf op) m" by (auto simp: operand_wf_def)
  have v: "operand_value op = le_val (po_buf op) m"
    using operand_value_le[OF assms(1)] assms(2) m(3) by (simp add: le_buf_def)
  have "operand_value op = 0 \<longleftrightarrow> m = 0"
    using m(2) unfolding v le_val_zero_iff by (cases m) auto
  then show ?thesis using m assms(2) by (auto simp: is_zero_def operand_byte_len_def)
qed

lemma skip_high_spec:
  "0 < n \<Longrightarrow> le_val buf n \<noteq> 0 \<Longrightarrow>
    0 < skip_high buf n \<and> buf ! (skip_high buf n - 1) \<noteq> 0 \<and> le_val buf (skip_high buf n) = le_val buf n"
proof (induction n rule: less_induct)
  case (less n)
  obtain k where k: "n = Suc k" using less.prems(1) by (cases n) auto
  show ?case
  proof (cases "2 \<le> n \<and> buf ! k = 0")
    case True
    then have "skip_high buf n = skip_high buf k" using k by (subst skip_high.simps) simp
    moreover have "0 < k" using True k by simp
    ultimately show ?thesis using less.IH[of k] less.prems k True by simp
  next
    case False
    then have s: "skip_high buf n = n" using k by (subst skip_high.simps) auto
    have "buf ! k \<noteq> 0"
    proof
      assume z: "buf ! k = 0"
      with False k have "k = 0" by auto
      with z less.prems(2) k show False by simp
    qed
    with s k show ?thesis by simp
  qed
qed

lemma compare_down_spec:
  "compare_down l r k = (if le_val l k < le_val r k then RC_LEFT_IS_SMALLER
     else if le_val r k < le_val l k then RC_RIGHT_IS_SMALLER else RC_COMPARE_EQUAL)"
proof (induction k)
  case (Suc k)
  have less: "le_val a (Suc k) < le_val b (Suc k)" if "a ! k < b ! k" for a b
  proof -
    have "unat (a ! k) + 1 \<le> unat (b ! k)" using that by (simp add: word_less_nat_alt)
    from mult_le_mono1[OF this, of "256 ^ k"] have "unat (a ! k) * 256 ^ k + 256 ^ k \<le> unat (b ! k) * 256 ^ k" by simp
    then show ?thesis using le_val_less[of a k] by simp
  qed
  show ?case using Suc less[of l r] less[of r l] by (cases "l ! k" "r ! k" rule: linorder_cases) auto
qed simp

text \<open>Clamping.\<close>

lemma bit_nat_le: "bit (n::nat) k \<Longrightarrow> 2 ^ k \<le> n"
  by (metis bit_take_bit_iff less_irrefl not_less take_bit_nat_eq_self)

lemma clamp_high: "64 \<le> unat ((b AND 127) OR 64 :: u8)" "unat ((b AND 127) OR 64 :: u8) < 128"
proof -
  let ?w = "(b AND 127) OR 64 :: u8"
  have w: "bit ?w 6" by (simp add: bit_simps)
  then have "bit (unat ?w) 6" by (simp add: bit_unsigned_iff)
  from bit_nat_le[OF this] show "64 \<le> unat ?w" by simp
  have "\<not> bit ?w 7" by (simp add: bit_simps)
  then have "\<not> bit ?w i" if "7 \<le> i" for i using that bit_imp_le_length[of ?w i] by (cases "i = 7") auto
  then have "take_bit 7 (unat ?w) = unat ?w"
    by (intro bit_eqI) (auto simp: bit_take_bit_iff bit_unsigned_iff not_le[symmetric])
  then show "unat ?w < 128" by (simp add: take_bit_nat_eq_self_iff)
qed

lemma clamp_low: "unat (b AND 248 :: u8) mod 8 = 0"
proof -
  have m: "(248 :: u8) = push_bit 3 (mask 5)" by (simp add: mask_eq_exp_minus_1 push_bit_eq_mult)
  have "take_bit 3 (unat (b AND 248)) = 0"
    unfolding m by (intro bit_eqI) (auto simp: bit_simps)
  then show ?thesis by (simp add: take_bit_eq_mod)
qed

lemma le_val_mod8: "le_val buf (Suc k) mod 8 = unat (buf ! 0) mod 8"
proof (induction k)
  case (Suc k)
  have "(unat (buf ! Suc k) * 256 ^ Suc k + le_val buf (Suc k)) mod 8 = le_val buf (Suc k) mod 8"
    using mod_add_left_eq[of "unat (buf ! Suc k) * 256 ^ Suc k" 8 "le_val buf (Suc k)"]
      dvd_imp_mod_0[of 8 "unat (buf ! Suc k) * 256 ^ Suc k"] by (simp add: dvd_mult dvd_mult2)
  with Suc show ?case by (simp only: le_val.simps)
qed simp


section \<open>Properties\<close>

text \<open>A byte string turned into an operand, in either byte order, is the number whose big-endian
  digits the string gives, and the conversion back returns the string.\<close>

theorem string_operand_roundtrip:
  assumes "po_buf_len op \<le> length (po_buf op)" "length s \<le> length (po_buf op)"
    and "length s \<le> max_len" "length s \<le> length d"
  shows "\<exists>op'. string_to_operand s op (length s) endian = Some op' \<and>
    operand_value op' = le_val (rev s) (length s) \<and> operand_to_string op' d max_len = Some (blit d 0 s)"
proof -
  have t: "take (length s) (blit b 0 x) = x" if "length x = length s" for b x :: bytes
    using that by (simp add: blit_def)
  have l: "length s \<le> length (blit (blit (po_buf op) 0 (replicate (po_buf_len op) 0)) 0 x)" if "length x = length s" for x
    using that by (simp add: blit_def)
  show ?thesis
    using assms t[of s] t[of "rev s"] l[of s] l[of "rev s"]
    by (auto simp: string_to_operand_def operand_to_string_def operand_value_def Let_def min_absorb2)
qed

definition demo_operand :: "bytes \<Rightarrow> bool \<Rightarrow> pka_operand" where
  "demo_operand b big = operand_zero\<lparr> po_buf := b, po_buf_len := length b, po_actual_len := length b, po_big_endian := big \<rparr>"

theorem string_operand_roundtrip_witness:
  "\<exists>op'. string_to_operand [1, 7] (demo_operand [9, 9, 9, 9] True) (length [1, 7 :: u8]) False = Some op' \<and>
    operand_value op' = 0x0107 \<and> operand_to_string op' [0, 0, 0, 0] 32 = Some [1, 7, 0, 0]"
  using string_operand_roundtrip[of "demo_operand [9, 9, 9, 9] True" "[1, 7]" 32 "[0, 0, 0, 0]" False]
  by (simp add: demo_operand_def operand_zero_def blit_def)

text \<open>\<open>operand_bit_len\<close> of a number other than zero is its length in bits.\<close>

theorem operand_bit_len_value:
  assumes "operand_wf op" "operand_value op \<noteq> 0"
  shows "\<exists>n. operand_bit_len op = Some n \<and> 2 ^ (n - 1) \<le> operand_value op \<and> operand_value op < 2 ^ n"
  using operand_bit_len_run[OF assms] value_bounds[of "le_buf op"] by metis

theorem operand_bit_len_value_witness:
  "\<exists>n. operand_bit_len (demo_operand [0, 5, 1] True) = Some n \<and> 2 ^ (n - 1) \<le> (1281::nat) \<and> (1281::nat) < 2 ^ n"
proof -
  have "operand_value (demo_operand [0, 5, 1] True) = 1281"
    by (simp add: operand_value_def demo_operand_def operand_zero_def)
  then show ?thesis using operand_bit_len_value[of "demo_operand [0, 5, 1] True"]
    by (simp add: operand_wf_def demo_operand_def)
qed

text \<open>\<open>pki_compare\<close> of little-endian operands is the order of the numbers.\<close>

theorem pki_compare_value:
  assumes "operand_wf l" "operand_wf r" "\<not> po_big_endian l" "\<not> po_big_endian r"
  shows "pki_compare l r = Some (if operand_value l < operand_value r then RC_LEFT_IS_SMALLER
    else if operand_value r < operand_value l then RC_RIGHT_IS_SMALLER else RC_COMPARE_EQUAL)"
proof (cases "operand_value l = 0 \<or> operand_value r = 0")
  case True
  then show ?thesis using is_zero_le assms by (auto simp: pki_compare_def)
next
  case False
  have v: "operand_value l = le_val (po_buf l) (po_actual_len l)" "operand_value r = le_val (po_buf r) (po_actual_len r)"
    using operand_value_le assms by (auto simp: le_buf_def)
  let ?ll = "skip_high (po_buf l) (po_actual_len l)" and ?rl = "skip_high (po_buf r) (po_actual_len r)"
  have n: "0 < po_actual_len l" "0 < po_actual_len r" using False v by (auto intro: ccontr)
  note sl = skip_high_spec[OF n(1), of "po_buf l"] and sr = skip_high_spec[OF n(2), of "po_buf r"]
  have short: "le_val a i < le_val b j" if "i < j" "b ! (j - 1) \<noteq> 0" for a b i j
  proof -
    have "le_val a i < 256 ^ i" by (rule le_val_less)
    also have "(256::nat) ^ i \<le> 256 ^ (j - 1)" using that(1) by (intro power_increasing) auto
    also have "\<dots> \<le> le_val b j" using that by (intro le_val_low) auto
    finally show ?thesis .
  qed
  show ?thesis
    using False v sl sr is_zero_le[OF assms(1,3)] is_zero_le[OF assms(2,4)]
      short[of ?ll ?rl "po_buf r" "po_buf l"] short[of ?rl ?ll "po_buf l" "po_buf r"]
    by (cases ?ll ?rl rule: linorder_cases) (auto simp: pki_compare_def Let_def compare_down_spec)
qed

theorem pki_compare_value_witness:
  "pki_compare (demo_operand [7, 1, 0] False) (demo_operand [9, 0] False) = Some RC_RIGHT_IS_SMALLER"
  using pki_compare_value[of "demo_operand [7, 1, 0] False" "demo_operand [9, 0] False"]
  by (simp add: operand_wf_def demo_operand_def operand_zero_def operand_value_def)

text \<open>\<open>is_zero\<close> takes every big-endian operand with a leading zero byte and a value below 256 for
  zero: after the leading zeros are discounted it looks at the first byte of the buffer and not at the
  one that is left.\<close>

theorem is_zero_big_endian:
  assumes "operand_wf op" "po_big_endian op" "po_buf op ! 0 = 0" "0 < po_actual_len op" "operand_value op < 256"
  shows "is_zero op = Some True"
proof -
  let ?n = "po_actual_len op"
  have "\<exists>m. byte_len_be (po_buf op) i k = Some m \<and> (m \<le> 1 \<or> 256 \<le> le_val (rev (take (i + k) (po_buf op))) k)"
    if "i + k \<le> length (po_buf op)" for i k
    using that
  proof (induction k arbitrary: i)
    case (Suc k)
    have top: "rev (take (i + Suc k) (po_buf op)) ! k = po_buf op ! i" using Suc.prems by (simp add: rev_nth)
    show ?case
    proof (cases "po_buf op ! i = 0")
      case True with Suc.IH[of "Suc i"] Suc.prems top show ?thesis by auto
    next
      case False
      have "256 \<le> le_val (rev (take (i + Suc k) (po_buf op))) (Suc k)" if "0 < k"
      proof -
        have "(256::nat) ^ 1 \<le> 256 ^ k" using that by (intro power_increasing) auto
        also have "\<dots> \<le> le_val (rev (take (i + Suc k) (po_buf op))) (Suc k)"
          using False top by (intro le_val_low) auto
        finally show ?thesis by simp
      qed
      then show ?thesis using False Suc.prems by auto
    qed
  qed simp
  from this[of 0 ?n] obtain m where "byte_len_be (po_buf op) 0 ?n = Some m" "m \<le> 1"
    using assms operand_value_le[OF assms(1)] by (auto simp: operand_wf_def le_buf_def)
  then show ?thesis using assms(2,3) by (auto simp: is_zero_def operand_byte_len_def)
qed

theorem is_zero_big_endian_witness:
  "is_zero (demo_operand [0, 5] True) = Some True \<and> operand_value (demo_operand [0, 5] True) = 5"
  using is_zero_big_endian[of "demo_operand [0, 5] True"]
  by (simp add: operand_wf_def demo_operand_def operand_zero_def operand_value_def)



end
