(* ===== verification/Nic_Types.thy ===== *)
theory Nic_Types
  imports Key_Schedule Pka_Operand Ring Conn_Hash Meta_Layout "HOL-Library.Monad_Syntax"
begin

text \<open>
  Data of the SmartNIC application, \<^verbatim>\<open>src/smartnic/offload_ssl/include/ssloff.h\<close> and
  \<^verbatim>\<open>include/ssl.h\<close>: TLS session, TCP connection, and the context of one worker thread.

  Every \<^verbatim>\<open>tcp_connection_t\<close> owns one \<^verbatim>\<open>ssl_session_t\<close> for its whole life, so the session
  is a field of the connection.  Records and crypto operations live in pools and are
  referred to by address.  Integers that hold only \<^verbatim>\<open>TRUE\<close> or \<^verbatim>\<open>FALSE\<close> are \<open>bool\<close>.
\<close>


section \<open>Constants and enumerations\<close>

definition MAX_PKT_BURST :: nat where "MAX_PKT_BURST = 64"
definition IP_TOS_HOST_MIG_FIN :: u8 where "IP_TOS_HOST_MIG_FIN = 0xfd"
definition IP_TOS_HOST_CLOSE :: u8 where "IP_TOS_HOST_CLOSE = 0xfc"
definition TCP_FLAG_FIN :: u8 where "TCP_FLAG_FIN = 0x01"
definition TCP_FLAG_SYN :: u8 where "TCP_FLAG_SYN = 0x02"
definition TCP_FLAG_RST :: u8 where "TCP_FLAG_RST = 0x04"
definition TCP_FLAG_PSH :: u8 where "TCP_FLAG_PSH = 0x08"
definition TCP_FLAG_ACK :: u8 where "TCP_FLAG_ACK = 0x10"

datatype tcp_syn_check = TCP_SYN_RETRANS | TCP_SYN_NEW

datatype tcp_sequence_check = TCP_SEQ_OK | TCP_SEQ_UNDER | TCP_SEQ_OVER

datatype tcp_connection_state = TCP_SESSION_IDLE | TCP_SESSION_RECEIVED | TCP_SESSION_SENT

datatype recv_packet_type =
    SSL_HANDSHAKE | TCP_SYN | TCP_ACK | HOST_MIG_FIN | HOST_CLOSE | TCP_FIN | TCP_RST | TCP_SYNACK

datatype ssl_session_state = STATE_INIT | STATE_HANDSHAKE | STATE_ACTIVE


section \<open>Crypto operations\<close>

type_synonym rec_ptr = nat
type_synonym op_ptr = nat
type_synonym tcp_ptr = nat

text \<open>The opcodes that the TLS 1.3 code uses.  Operations of AES and HMAC are executed by the function that
  allocates them, so that only the fields of the accelerator's operations are kept: the session, the
  record, and the flag that the operation is still wanted.  The operands of an operation are fields of
  its session.\<close>

datatype crypto_opcode =
    TLS_OPCODE_NONE
  | TLS_OPCODE_ECDHE_KEY_GENERATION
  | TLS_OPCODE_ECDHE_SHARED_SECRET_CALC
  | TLS_OPCODE_ECDSA_SIGNATURE

record crypto_op =
  op_opcode :: crypto_opcode
  op_sess :: "tcp_ptr option"
  op_data :: "rec_ptr option"
  op_pka_flag :: bool

definition op_zero :: crypto_op where
  "op_zero = \<lparr> op_opcode = TLS_OPCODE_NONE, op_sess = None, op_data = None, op_pka_flag = False \<rparr>"


section \<open>TLS session\<close>

record ssl_session =
  ss_state :: ssl_session_state
  ss_handshake_state :: nat
  ss_num_current_records :: u16
  ss_next_record_id :: int
  ss_current_read_record :: "rec_ptr option"
  ss_version :: "u8 \<times> u8"
  ss_id :: bytes
  ss_send_seq_num :: u64
  ss_recv_seq_num :: u64
  ss_handshake_msgs :: bytes
  ss_handshake_msgs_len :: nat
  ss_send_buffer :: bytes
  ss_send_buffer_offset :: int
  ss_client_write_MAC_secret :: bytes
  ss_server_write_MAC_secret :: bytes
  ss_client_write_IV_seq_num :: u64
  ss_server_write_IV_seq_num :: u64
  ss_tls13_ctx :: tls13_ctx
  ss_meta_hdr :: meta_hdr
  ss_rand_seed :: u64
  ss_waiting_crypto :: bool
  ss_pending_sp :: security_params
  ss_read_sp :: security_params
  ss_write_sp :: security_params
  ss_server_records :: bytes
  ss_server_records_len :: int
  ss_recv_q :: "rec_ptr list"
  ss_recv_q_cnt :: int
  ss_pending_pka_op :: "op_ptr option"
  ss_pending_pka_op_1 :: "op_ptr option"
  ss_num_of_retransmitted_ch :: int
  ss_num_of_retransmitted_meta_pkt :: int
  ss_pka_results :: "pka_operand list"
  ss_pka_op :: "op_ptr option"
  ss_completed_crypto :: bool
  ss_shared_secret_operand :: pka_operand
  ss_ecdsa_transcript_hash :: pka_operand
  ss_ecdsa_k :: pka_operand
  ss_ecdhe_priv_key :: pka_operand
  ss_ecdhe_pub_key :: pka_operand

text \<open>A session as \<^verbatim>\<open>calloc\<close> leaves it, with its header object and its operands; \<open>n\<close> is the size of an operand
  buffer, \<^verbatim>\<open>MAX_BYTE_LEN + 8\<close> of the accelerator's library.\<close>

definition meta_hdr_zero :: meta_hdr where
  "meta_hdr_zero =
    \<lparr> mh_server_seq_num = 0, mh_server_ack_num = 0, mh_custom_eth_type = 0, mh_client_ip = 0,
      mh_server_ip = 0, mh_client_port = 0, mh_server_port = 0, mh_conn_meta = ssl_meta_at (replicate 788 0) 0,
      mh_eth_pad = replicate 4 0, mh_ip_pad = replicate 12 0 \<rparr>"

definition operand_alloc :: "nat \<Rightarrow> pka_operand" where
  "operand_alloc n = operand_zero\<lparr> po_buf := replicate n 0, po_buf_len := n \<rparr>"

definition sess_zero :: "nat \<Rightarrow> ssl_session" where
  "sess_zero n =
    \<lparr> ss_state = STATE_INIT, ss_handshake_state = HELLO_REQUEST, ss_num_current_records = 0,
      ss_next_record_id = 0, ss_current_read_record = None, ss_version = (0, 0), ss_id = replicate 32 0,
      ss_send_seq_num = 0, ss_recv_seq_num = 0, ss_handshake_msgs = replicate MAX_HANDSHAKE_LENGTH 0,
      ss_handshake_msgs_len = 0, ss_send_buffer = replicate MAX_RECORD_SIZE 0, ss_send_buffer_offset = 0,
      ss_client_write_MAC_secret = replicate 128 0, ss_server_write_MAC_secret = replicate 128 0,
      ss_client_write_IV_seq_num = 0, ss_server_write_IV_seq_num = 0,
      ss_tls13_ctx = tls13_ctx_zero, ss_meta_hdr = meta_hdr_zero,
      ss_rand_seed = 0, ss_waiting_crypto = False,
      ss_pending_sp = sp_zero, ss_read_sp = sp_zero, ss_write_sp = sp_zero,
      ss_server_records = replicate 1024 0, ss_server_records_len = 0,
      ss_recv_q = [], ss_recv_q_cnt = 0, ss_pending_pka_op = None, ss_pending_pka_op_1 = None,
      ss_num_of_retransmitted_ch = 0, ss_num_of_retransmitted_meta_pkt = 0,
      ss_pka_results = replicate 2 (operand_alloc n), ss_pka_op = None, ss_completed_crypto = False,
      ss_shared_secret_operand = operand_alloc n, ss_ecdsa_transcript_hash = operand_alloc n,
      ss_ecdsa_k = operand_alloc n, ss_ecdhe_priv_key = operand_alloc n, ss_ecdhe_pub_key = operand_alloc n \<rparr>"


section \<open>TCP connection\<close>

record pending_syn =
  ps_ethh :: bytes
  ps_iph :: bytes
  ps_tcph :: bytes
  ps_tcp_options :: bytes
  ps_tcp_option_len :: u16
  ps_payload_len :: u16

record tcp_conn =
  tc_state :: tcp_connection_state
  tc_onload :: bool
  tc_portid :: u16
  tc_session_id :: u16
  tc_ip_id :: u16
  tc_last_interaction :: int
  tc_client_mac :: bytes
  tc_server_mac :: bytes
  tc_client_ip :: u32
  tc_server_ip :: u32
  tc_client_port :: u16
  tc_server_port :: u16
  tc_cookie :: u32
  tc_last_recv_seq :: u32
  tc_last_recv_ack :: u32
  tc_last_recv_len :: u32
  tc_last_sent_seq :: u32
  tc_last_sent_ack :: u32
  tc_last_sent_len :: u32
  tc_need_to_send_rst_meta :: bool
  tc_total_sent :: u32
  tc_window :: u16
  tc_recv_mig_fin :: bool
  tc_hws_inserted :: bool
  tc_hws_applied :: bool
  tc_hws_ready_to_del :: bool
  tc_hws_deleted :: bool
  tc_pending_syn :: pending_syn
  tc_ssl_session :: ssl_session
  tc_pending_app_data :: bytes
  tc_pending_app_data_len :: nat

definition pending_syn_zero :: pending_syn where
  "pending_syn_zero = \<lparr> ps_ethh = replicate 14 0, ps_iph = replicate 20 0, ps_tcph = replicate 20 0,
     ps_tcp_options = replicate 40 0, ps_tcp_option_len = 0, ps_payload_len = 0 \<rparr>"

definition MAX_APP_DATA_SIZE :: nat where "MAX_APP_DATA_SIZE = 1024"

definition tcp_zero :: "nat \<Rightarrow> tcp_conn" where
  "tcp_zero n =
    \<lparr> tc_state = TCP_SESSION_IDLE, tc_onload = False, tc_portid = 0, tc_session_id = 0, tc_ip_id = 0,
      tc_last_interaction = 0, tc_client_mac = replicate 6 0, tc_server_mac = replicate 6 0,
      tc_client_ip = 0, tc_server_ip = 0, tc_client_port = 0, tc_server_port = 0,
      tc_cookie = 0, tc_last_recv_seq = 0, tc_last_recv_ack = 0, tc_last_recv_len = 0,
      tc_last_sent_seq = 0, tc_last_sent_ack = 0, tc_last_sent_len = 0, tc_need_to_send_rst_meta = False,
      tc_total_sent = 0, tc_window = 0, tc_recv_mig_fin = False, tc_hws_inserted = False,
      tc_hws_applied = False, tc_hws_ready_to_del = False, tc_hws_deleted = False,
      tc_pending_syn = pending_syn_zero, tc_ssl_session = sess_zero n,
      tc_pending_app_data = replicate MAX_APP_DATA_SIZE 0, tc_pending_app_data_len = 0 \<rparr>"

definition tcp_flow :: "tcp_conn \<Rightarrow> flow" where
  "tcp_flow c = (tc_client_ip c, tc_server_ip c, tc_client_port c, tc_server_port c)"


section \<open>Thread context\<close>

text \<open>The context of one worker thread: its connections, the active table and the free
  queue, the pools of records and crypto operations, the ring of operations for the accelerator, the
  transmit buffers of each port, and what has been handed
  to the network.  \<open>n_burst\<close> gives the result of the \<open>k\<close>-th \<^verbatim>\<open>rte_eth_tx_burst\<close> call,
  \<open>n_rand\<close>, \<open>n_clock\<close> and \<open>n_epoch\<close> those of the \<open>k\<close>-th \<^verbatim>\<open>rand\<close>, \<^verbatim>\<open>clock_gettime\<close> and \<^verbatim>\<open>time\<close> call.\<close>

record nic =
  n_conns :: "tcp_ptr \<Rightarrow> tcp_conn"
  n_active :: "tcp_ptr hashtable"
  n_active_cnt :: int
  n_free_q :: "tcp_ptr list"
  n_free_cnt :: int
  n_records :: "rec_ptr \<Rightarrow> tls_record"
  n_record_pool :: "rec_ptr list"
  n_free_record_cnt :: int
  n_using_record_cnt :: int
  n_ops :: "op_ptr \<Rightarrow> crypto_op"
  n_op_pool :: "op_ptr list"
  n_free_op_cnt :: int
  n_using_op_cnt :: int
  n_submit_ring :: "op_ptr sj_ring"
  n_cur_crypto_cnt :: u32
  n_completed_crypto_cnt :: u32
  n_decrease :: bool
  n_wmbufs :: "nat \<Rightarrow> bytes list"
  n_wire :: "(nat \<times> bytes) list"
  n_burst :: "nat \<Rightarrow> nat"
  n_bursts :: nat
  n_rand :: "nat \<Rightarrow> u32"
  n_rands :: nat
  n_clock :: "nat \<Rightarrow> int"
  n_clocks :: nat
  n_epoch :: "nat \<Rightarrow> u32"
  n_epochs :: nat
  n_t_major :: nat
  n_t_minor :: nat

text \<open>What the threads share and do not change: the crypto library, the number of host threads, the server's
  certificate, and the byte order of the accelerator with the order of its base point.\<close>

record nic_cfg =
  nc_lib :: openssl
  nc_threads :: nat
  nc_cert :: bytes
  nc_big_endian :: bool
  nc_base_pt_order :: pka_operand

abbreviation nic_key :: "nic \<Rightarrow> tcp_ptr \<Rightarrow> flow" where
  "nic_key n p \<equiv> tcp_flow (n_conns n p)"

definition upd_tcp :: "tcp_ptr \<Rightarrow> (tcp_conn \<Rightarrow> tcp_conn) \<Rightarrow> nic \<Rightarrow> nic" where
  "upd_tcp p f n = n\<lparr> n_conns := (n_conns n)(p := f (n_conns n p)) \<rparr>"

definition upd_sess :: "tcp_ptr \<Rightarrow> (ssl_session \<Rightarrow> ssl_session) \<Rightarrow> nic \<Rightarrow> nic" where
  "upd_sess p f n = upd_tcp p (\<lambda>c. c\<lparr> tc_ssl_session := f (tc_ssl_session c) \<rparr>) n"

abbreviation nic_sess :: "nic \<Rightarrow> tcp_ptr \<Rightarrow> ssl_session" where
  "nic_sess n p \<equiv> tc_ssl_session (n_conns n p)"

end
