(* ===== verification/Nic_Io.thy ===== *)
theory Nic_Io
  imports Nic_Types
begin

text \<open>
  Packet transmission of the SmartNIC, \<^verbatim>\<open>src/smartnic/offload_ssl/src/dpdk_io.c\<close>.  A
  worker writes each frame into the next free buffer of the port's table; a full table
  is handed to the driver first.  The driver (\<^verbatim>\<open>rte_eth_tx_burst\<close>) is a parameter: it
  takes a prefix of the frames, and \<^verbatim>\<open>send_pkts\<close> drops the others.  Refilling the table
  with fresh buffers is assumed to succeed.

  \<open>get_wptr\<close> waits for \<^verbatim>\<open>send_pkts\<close> to report progress.  \<open>None\<close> is a wait that never
  ends.
\<close>

definition send_pkts :: "nat \<Rightarrow> nic \<Rightarrow> nat \<times> nic" where
  "send_pkts port n =
    (if length (n_wmbufs n port) > 0 then
       let pkts = n_wmbufs n port;
           ret = n_burst n (n_bursts n);
           n = n\<lparr> n_bursts := n_bursts n + 1, n_wire := n_wire n @ map (Pair port) (take ret pkts) \<rparr>
       in (ret, n\<lparr> n_wmbufs := (n_wmbufs n)(port := []) \<rparr>)
     else (0, n))"

partial_function (option) wptr_flush :: "nat \<Rightarrow> nic \<Rightarrow> nic option" where
  "wptr_flush port n = (let (send_cnt, n) = send_pkts port n in
     if send_cnt \<noteq> 0 then Some n else wptr_flush port n)"

definition get_wptr :: "nat \<Rightarrow> nic \<Rightarrow> nic option" where
  "get_wptr port n =
     (if length (n_wmbufs n port) = MAX_PKT_BURST then wptr_flush port n else Some n)"

text \<open>Taking a buffer and copying a frame into it.\<close>

definition put_frame :: "nat \<Rightarrow> bytes \<Rightarrow> nic \<Rightarrow> nic option" where
  "put_frame port frame n = do {
     n \<leftarrow> get_wptr port n;
     Some (n\<lparr> n_wmbufs := (n_wmbufs n)(port := n_wmbufs n port @ [frame]) \<rparr>)
   }"

text \<open>The frames of a port, sent and waiting.\<close>

definition port_frames :: "nat \<Rightarrow> nic \<Rightarrow> bytes list" where
  "port_frames port n = map snd (filter (\<lambda>x. fst x = port) (n_wire n)) @ n_wmbufs n port"

lemma send_pkts_empty: "n_wmbufs n port = [] \<Longrightarrow> send_pkts port n = (0, n)"
  by (simp add: send_pkts_def)

lemma send_pkts_flushed: "n_wmbufs (snd (send_pkts port n)) port = []"
  by (simp add: send_pkts_def Let_def)

text \<open>With an empty table the loop makes no progress.\<close>

lemma wptr_flush_empty_loops:
  assumes "n_wmbufs n port = []"
  shows "wptr_flush port n = None"
proof -
  have "n_wmbufs n port \<noteq> []" if "wptr_flush port n = Some n'" for n'
    using that
  proof (rule wptr_flush.raw_induct[rotated])
    fix f port n n'
    assume ih: "\<And>port n n'. f port n = Some n' \<Longrightarrow> n_wmbufs n port \<noteq> []"
      and step: "(let (send_cnt, n) = send_pkts port n in if send_cnt \<noteq> 0 then Some n else f port n) = Some n'"
    show "n_wmbufs n port \<noteq> []"
    proof
      assume "n_wmbufs n port = []"
      with step have "f port n = Some n'" by (simp add: send_pkts_empty)
      from ih[OF this] \<open>n_wmbufs n port = []\<close> show False by simp
    qed
  qed
  then show ?thesis using assms by (cases "wptr_flush port n") auto
qed

lemma wptr_flush_once:
  "wptr_flush port n =
    (if fst (send_pkts port n) = 0 then None else Some (snd (send_pkts port n)))"
  by (subst wptr_flush.simps) (simp add: case_prod_beta wptr_flush_empty_loops send_pkts_flushed)

lemma get_wptr_effect:
  assumes "get_wptr port n = Some m"
  shows "\<exists>q wire k. m = n\<lparr> n_bursts := k, n_wire := wire, n_wmbufs := (n_wmbufs n)(port := q) \<rparr>"
proof (cases "length (n_wmbufs n port) = MAX_PKT_BURST")
  case True
  with assms have "m = snd (send_pkts port n)" "0 < length (n_wmbufs n port)"
    by (auto simp: get_wptr_def wptr_flush_once MAX_PKT_BURST_def split: if_splits)
  then have "m = n\<lparr> n_bursts := n_bursts n + 1,
      n_wire := n_wire n @ map (Pair port) (take (n_burst n (n_bursts n)) (n_wmbufs n port)),
      n_wmbufs := (n_wmbufs n)(port := []) \<rparr>"
    by (simp add: send_pkts_def Let_def)
  then show ?thesis by blast
next
  case False
  with assms have "m = n\<lparr> n_bursts := n_bursts n, n_wire := n_wire n,
      n_wmbufs := (n_wmbufs n)(port := n_wmbufs n port) \<rparr>" by (simp add: get_wptr_def)
  then show ?thesis by blast
qed

lemma put_frame_effect:
  assumes "put_frame port f n = Some n'"
  shows "\<exists>q wire k. n' = n\<lparr> n_bursts := k, n_wire := wire, n_wmbufs := (n_wmbufs n)(port := q @ [f]) \<rparr>"
proof -
  from assms obtain m where m: "get_wptr port n = Some m"
    and n': "n' = m\<lparr> n_wmbufs := (n_wmbufs m)(port := n_wmbufs m port @ [f]) \<rparr>"
    by (auto simp: put_frame_def split: bind_splits)
  from get_wptr_effect[OF m] obtain q wire k
    where "m = n\<lparr> n_bursts := k, n_wire := wire, n_wmbufs := (n_wmbufs n)(port := q) \<rparr>" by blast
  with n' have "n' = n\<lparr> n_bursts := k, n_wire := wire, n_wmbufs := (n_wmbufs n)(port := q @ [f]) \<rparr>" by simp
  then show ?thesis by blast
qed

lemma put_frame_frame:
  assumes "put_frame port f n = Some n'"
  shows "n_conns n' = n_conns n" "n_active n' = n_active n" "n_active_cnt n' = n_active_cnt n"
    "n_free_q n' = n_free_q n" "n_free_cnt n' = n_free_cnt n" "n_t_major n' = n_t_major n"
    "last (n_wmbufs n' port) = f" "n_wmbufs n' port \<noteq> []"
  using put_frame_effect[OF assms] by auto

lemma put_frame_room:
  "length (n_wmbufs n port) < MAX_PKT_BURST \<Longrightarrow>
   put_frame port f n = Some (n\<lparr> n_wmbufs := (n_wmbufs n)(port := n_wmbufs n port @ [f]) \<rparr>)"
  by (simp add: put_frame_def get_wptr_def)


section \<open>Properties\<close>

text \<open>\<open>get_wptr\<close> never returns when the table of the port is full and the driver
  takes none of its frames: the first call of \<open>send_pkts\<close> empties the table, so that no
  later call can report progress.  In all other cases it returns with room for a frame.\<close>

theorem get_wptr_spins:
  assumes "length (n_wmbufs n port) \<le> MAX_PKT_BURST"
  shows "case get_wptr port n of
      None \<Rightarrow> length (n_wmbufs n port) = MAX_PKT_BURST \<and> n_burst n (n_bursts n) = 0
    | Some n' \<Rightarrow> length (n_wmbufs n' port) < MAX_PKT_BURST \<and>
        (length (n_wmbufs n port) = MAX_PKT_BURST \<longrightarrow> n_burst n (n_bursts n) > 0)"
  using assms
  by (auto simp: get_wptr_def wptr_flush_once send_pkts_def Let_def MAX_PKT_BURST_def)

definition nic_idle :: "(nat \<Rightarrow> nat) \<Rightarrow> (nat \<Rightarrow> u32) \<Rightarrow> (tcp_ptr \<Rightarrow> tcp_conn) \<Rightarrow> nic" where
  "nic_idle burst rnd cs =
    \<lparr> n_conns = cs,
      n_active = \<lparr> ht_bins = NUM_BINS, ht_table = replicate (unat NUM_BINS) [], ht_count = 0 \<rparr>,
      n_active_cnt = 0, n_free_q = [], n_free_cnt = 0,
      n_records = (\<lambda>_. record_zero), n_record_pool = [], n_free_record_cnt = 0, n_using_record_cnt = 0,
      n_ops = (\<lambda>_. op_zero), n_op_pool = [], n_free_op_cnt = 0, n_using_op_cnt = 0,
      n_submit_ring = \<lparr> r_size = 1024, r_mask = 1023, r_name = [], r_tail = 0, r_head = 0, r_ring = replicate 1024 None \<rparr>,
      n_cur_crypto_cnt = 0, n_completed_crypto_cnt = 0, n_decrease = False,
      n_wmbufs = (\<lambda>_. []), n_wire = [], n_burst = burst, n_bursts = 0,
      n_rand = rnd, n_rands = 0, n_clock = (\<lambda>_. 0), n_clocks = 0, n_epoch = (\<lambda>_. 0), n_epochs = 0, n_t_major = 0, n_t_minor = 0 \<rparr>"

theorem get_wptr_spins_witness:
  "\<exists>n. length (n_wmbufs n 0) \<le> MAX_PKT_BURST \<and> get_wptr 0 n = None \<and>
     length (n_wmbufs n 0) = MAX_PKT_BURST"
proof -
  let ?n = "(nic_idle (\<lambda>_. 0) (\<lambda>_. 0) undefined)\<lparr> n_wmbufs := (\<lambda>_. replicate MAX_PKT_BURST []) \<rparr>"
  have l: "length (n_wmbufs ?n 0) \<le> MAX_PKT_BURST" by simp
  from get_wptr_spins[OF l] have "get_wptr 0 ?n = None"
    by (cases "get_wptr 0 ?n") (simp_all add: nic_idle_def)
  then show ?thesis by (intro exI[of _ ?n]) simp
qed



end
