(* ===== verification/Nic_Meta.thy ===== *)
theory Nic_Meta
  imports Nic_Io
begin

text \<open>
  Migration on the SmartNIC: the meta packets sent to the host
  (\<^verbatim>\<open>src/smartnic/offload_ssl/src/host.c\<close>, \<^verbatim>\<open>send_key_meta\<close> and \<^verbatim>\<open>send_rst_conn_meta\<close> of
  \<^verbatim>\<open>src/tcp.c\<close>) and the handling of the host's answers (\<^verbatim>\<open>process_host_packet\<close>).

  Addresses and ports of a connection are kept as they are in the packet, so a field
  copied to or compared with a packet field needs no conversion.  \<open>None\<close> is a run that
  stops: a failed assertion, an array index out of range, or a wait without end.
\<close>


section \<open>Frames\<close>

definition SSL_PORT_NIC :: u16 where "SSL_PORT_NIC = 443"
definition TOTAL_HEADER_LEN :: nat where "TOTAL_HEADER_LEN = 54"
definition IP_HEADER_LEN :: nat where "IP_HEADER_LEN = 20"
definition TCP_HEADER_LEN :: nat where "TCP_HEADER_LEN = 20"

text \<open>An Ethernet, IPv4 and TCP header followed by options or payload; the arguments
  are the values stored in the structures.  The two checksums are left to the device.\<close>

definition tcp_frame ::
  "bytes \<Rightarrow> bytes \<Rightarrow> u16 \<Rightarrow> u16 \<Rightarrow> u32 \<Rightarrow> u32 \<Rightarrow> u16 \<Rightarrow> u16 \<Rightarrow> u32 \<Rightarrow> u32 \<Rightarrow> u8 \<Rightarrow> u8 \<Rightarrow> u16 \<Rightarrow> bytes \<Rightarrow> bytes" where
  "tcp_frame dst_mac src_mac total_length packet_id src_addr dst_addr src_port dst_port
       sent_seq recv_ack data_off tcp_flags rx_win rest =
     dst_mac @ src_mac @ [0x08, 0x00] @
     [0x45, 0x00] @ le_bytes 2 total_length @ le_bytes 2 packet_id @ le_bytes 2 (htons 0x4000) @
     [64, 6] @ [0, 0] @ le_bytes 4 src_addr @ le_bytes 4 dst_addr @
     le_bytes 2 src_port @ le_bytes 2 dst_port @ le_bytes 4 sent_seq @ le_bytes 4 recv_ack @
     [data_off, tcp_flags] @ le_bytes 2 rx_win @ [0, 0] @ [0, 0] @ rest"

definition send_raw_reset ::
  "nat \<Rightarrow> bytes \<Rightarrow> bytes \<Rightarrow> u32 \<Rightarrow> u32 \<Rightarrow> u16 \<Rightarrow> u16 \<Rightarrow> u32 \<Rightarrow> u32 \<Rightarrow> nic \<Rightarrow> nic option" where
  "send_raw_reset portid hw_src hw_dst ip_src ip_dst tcp_src tcp_dst sq ack n =
     put_frame portid
       (tcp_frame hw_dst hw_src (htons (of_nat (IP_HEADER_LEN + TCP_HEADER_LEN))) (htons 0xffff)
          ip_src ip_dst tcp_src tcp_dst (htonl sq) (htonl ack) 0x50
          (TCP_FLAG_RST OR TCP_FLAG_ACK) (htons 8192) []) n"


section \<open>Meta packets\<close>

text \<open>\<^verbatim>\<open>memcpy\<close> of the first \<open>len\<close> bytes of a key array into a cleared one.\<close>

definition copy_key :: "u8 \<Rightarrow> bytes \<Rightarrow> bytes" where
  "copy_key len src = blit (replicate TLS_MAX_KEY_SIZE 0) 0 (seg 0 (unat len) src)"

definition build_connection_meta :: "u16 \<Rightarrow> ssl_session \<Rightarrow> ssl_meta" where
  "build_connection_meta session_id sess =
    (let sp = ss_write_sp sess; t = ss_tls13_ctx sess in
     \<lparr> sm_session_id = session_id,
       sm_major = fst (ss_version sess), sm_minor = 0x04,
       sm_bulk_cipher_algorithm = sp_bulk_cipher_algorithm sp,
       sm_cipher_type = sp_cipher_type sp,
       sm_mac_algorithm = sp_mac_algorithm sp,
       sm_mac_key_size = sp_mac_key_size sp,
       sm_client_write_MAC_secret = copy_key (sp_mac_key_size sp) (ss_client_write_MAC_secret sess),
       sm_server_write_MAC_secret = copy_key (sp_mac_key_size sp) (ss_server_write_MAC_secret sess),
       sm_enc_key_size = sp_enc_key_size sp,
       sm_client_write_key = copy_key (sp_enc_key_size sp) (tx_client_application_key t),
       sm_server_write_key = copy_key (sp_enc_key_size sp) (tx_server_application_key t),
       sm_fixed_iv_length = sp_fixed_iv_length sp,
       sm_client_write_IV = copy_key (sp_fixed_iv_length sp) (tx_client_application_iv t),
       sm_server_write_IV = copy_key (sp_fixed_iv_length sp) (tx_server_application_iv t) \<rparr>)"

definition change_connection_rule :: "tcp_ptr \<Rightarrow> nic \<Rightarrow> int \<times> nic" where
  "change_connection_rule p n = (0, upd_tcp p (\<lambda>c. c\<lparr> tc_onload := True \<rparr>) n)"

definition nic_key_eth_types :: "u16 list" where
  "nic_key_eth_types =
     [0x0801, 0x0802, 0x0803, 0x0804, 0x0805, 0x0806, 0x0807, 0x0808,
      0x0809, 0x080A, 0x080B, 0x080C, 0x080D, 0x080E, 0x080F, 0x0810]"

definition key_meta_hdr :: "nat \<Rightarrow> tcp_conn \<Rightarrow> meta_hdr" where
  "key_meta_hdr idx c = (let s = tc_ssl_session c in
     (ss_meta_hdr s)\<lparr>
       mh_server_seq_num := htonl (tc_last_recv_ack c + word_of_int (ss_send_buffer_offset s)),
       mh_server_ack_num := htonl (tc_last_recv_seq c + tc_last_recv_len c + 80),
       mh_custom_eth_type := htons (nic_key_eth_types ! idx),
       mh_client_ip := tc_client_ip c, mh_server_ip := tc_server_ip c,
       mh_client_port := tc_client_port c, mh_server_port := tc_server_port c,
       mh_conn_meta := build_connection_meta (tc_session_id c) s \<rparr>)"

text \<open>The branch for a failed allocation is dead: \<^verbatim>\<open>get_wptr\<close> returns a buffer or does not
  return.  \<open>host_threads_num\<close> is the command line argument.\<close>

definition send_key_meta :: "nat \<Rightarrow> nat \<Rightarrow> tcp_ptr \<Rightarrow> nic \<Rightarrow> (int \<times> nic) option" where
  "send_key_meta host_threads_num port p n =
    (let c = n_conns n p;
         idx = unat (tc_client_port c) mod host_threads_num
     in if host_threads_num = 0 \<or> idx \<ge> length nic_key_eth_types then None
        else let m = key_meta_hdr idx c;
                 n = upd_sess p (\<lambda>s. s\<lparr> ss_meta_hdr := m \<rparr>) n
             in do { n \<leftarrow> put_frame port (meta_hdr_bytes m) n; Some (0, n) })"

definition rst_meta_hdr :: "tcp_conn \<Rightarrow> meta_hdr" where
  "rst_meta_hdr c = (let s = tc_ssl_session c in
     (ss_meta_hdr s)\<lparr>
       mh_server_seq_num := htonl (tc_last_recv_ack c + word_of_int (ss_send_buffer_offset s)),
       mh_server_ack_num := htonl (tc_last_recv_seq c + tc_last_recv_len c),
       mh_custom_eth_type := htons 0x08FF,
       mh_client_ip := tc_client_ip c, mh_client_port := tc_client_port c,
       mh_conn_meta := build_connection_meta (tc_session_id c) s \<rparr>)"

definition send_rst_conn_meta :: "nat \<Rightarrow> tcp_ptr \<Rightarrow> nic \<Rightarrow> (int \<times> nic) option" where
  "send_rst_conn_meta port p n =
    (let m = rst_meta_hdr (n_conns n p);
         n = upd_sess p (\<lambda>s. s\<lparr> ss_meta_hdr := m \<rparr>) n
     in do { n \<leftarrow> put_frame port (meta_hdr_bytes m) n; Some (0, n) })"


section \<open>Packets from the host\<close>

abbreviation conn_idle :: "nic \<Rightarrow> tcp_ptr \<Rightarrow> bool" where
  "conn_idle n p \<equiv> tc_state (n_conns n p) = TCP_SESSION_IDLE"

definition search_tcp_connection :: "u32 \<Rightarrow> u16 \<Rightarrow> u32 \<Rightarrow> u16 \<Rightarrow> nic \<Rightarrow> tcp_ptr option option" where
  "search_tcp_connection client_ip client_port server_ip server_port n =
    (case ht_search (nic_key n) (conn_idle n) (n_active n) client_ip client_port server_ip server_port of
       Stop \<Rightarrow> None
     | Ok r \<Rightarrow> Some r)"

definition process_host_mig_fin :: "bytes \<Rightarrow> nic \<Rightarrow> (int \<times> nic) option" where
  "process_host_mig_fin buf n = do {
     target \<leftarrow> search_tcp_connection (ld32 buf 26) (ld16 buf 34) (ld32 buf 30) (ld16 buf 36) n;
     (case target of
        None \<Rightarrow> Some (0, n)
      | Some p \<Rightarrow>
          let c = n_conns n p; m = ss_meta_hdr (tc_ssl_session c) in
          if ld32 buf 38 = mh_server_seq_num m \<and> ld32 buf 42 = mh_server_ack_num m
          then Some (0, upd_tcp p (\<lambda>c. c\<lparr> tc_recv_mig_fin := True \<rparr>) n)
          else do {
            n \<leftarrow> send_raw_reset (unat (tc_portid c) + 1) (tc_client_mac c) (tc_server_mac c)
                   (tc_client_ip c) (tc_server_ip c) (tc_client_port c) (tc_server_port c)
                   (ld32 buf 48) 0 n;
            (r, n) \<leftarrow> send_rst_conn_meta (unat (tc_portid c) + 1) p n;
            Some (0, upd_tcp p (\<lambda>c. c\<lparr> tc_need_to_send_rst_meta := True \<rparr>) n)
          })
   }"

definition process_host_close :: "bytes \<Rightarrow> nic \<Rightarrow> (int \<times> nic) option" where
  "process_host_close buf n = do {
     target \<leftarrow> search_tcp_connection (ld32 buf 26) (ld16 buf 34) (ld32 buf 30) (ld16 buf 36) n;
     (case target of
        None \<Rightarrow> Some (0, n)
      | Some p \<Rightarrow>
          let m = ss_meta_hdr (nic_sess n p) in
          if ld32 buf 38 = mh_server_seq_num m \<and> ld32 buf 42 = mh_server_ack_num m
          then Some (0, upd_tcp p (\<lambda>c. c\<lparr> tc_hws_ready_to_del := True \<rparr>) n)
          else Some (0, n))
   }"

definition process_host_packet ::
  "nat \<Rightarrow> bytes \<Rightarrow> recv_packet_type option \<Rightarrow> nic \<Rightarrow> (int \<times> nic) option" where
  "process_host_packet port pktbuf pkt_type n =
    (if even port then Some (0, n)
     else case pkt_type of
       Some HOST_MIG_FIN \<Rightarrow> process_host_mig_fin pktbuf n
     | Some HOST_CLOSE \<Rightarrow> process_host_close pktbuf n
     | _ \<Rightarrow> do { n \<leftarrow> put_frame (port - 1) pktbuf n; Some (int (length pktbuf), n) })"

text \<open>Classification of a received frame; \<open>None\<close> is the result \<open>-1\<close>.\<close>

definition validate_packet_type :: "nat \<Rightarrow> bytes \<Rightarrow> u16 \<Rightarrow> recv_packet_type option" where
  "validate_packet_type port buf payload_len =
    (if ld16 buf 12 = htons 0x0800 then
       let tos = buf ! 15; flags = buf ! 47; is = (\<lambda>f. flags AND f \<noteq> 0) in
       if tos = 0 then
         if buf ! 23 = 6 then
           if even port then
             if ld16 buf 36 \<noteq> htons SSL_PORT_NIC then None
             else if 0 < payload_len \<and> unat payload_len < MAX_HANDSHAKE_LENGTH then Some SSL_HANDSHAKE
             else if is TCP_FLAG_SYN \<and> \<not> is TCP_FLAG_ACK then Some TCP_SYN
             else if is TCP_FLAG_FIN then Some TCP_FIN
             else if is TCP_FLAG_RST then Some TCP_RST
             else if is TCP_FLAG_SYN \<and> is TCP_FLAG_ACK then Some TCP_SYNACK
             else if \<not> is TCP_FLAG_SYN \<and> is TCP_FLAG_ACK then Some TCP_ACK
             else None
           else None
         else None
       else if odd port then
         if tos = IP_TOS_HOST_MIG_FIN then Some HOST_MIG_FIN
         else if tos = IP_TOS_HOST_CLOSE then Some HOST_CLOSE
         else None
       else None
     else None)"


section \<open>Lemmas\<close>

text \<open>The header object of a session: padding is never written, key arrays keep their
  size.\<close>

definition sess_wf :: "ssl_session \<Rightarrow> bool" where
  "sess_wf s \<longleftrightarrow>
     mh_eth_pad (ss_meta_hdr s) = replicate 4 0 \<and> mh_ip_pad (ss_meta_hdr s) = replicate 12 0"

lemma length_copy_key: "unat len \<le> TLS_MAX_KEY_SIZE \<Longrightarrow> length (copy_key len src) = 128"
  by (simp add: copy_key_def TLS_MAX_KEY_SIZE_def)

definition small_params :: "security_params \<Rightarrow> bool" where
  "small_params sp \<longleftrightarrow> unat (sp_mac_key_size sp) \<le> TLS_MAX_KEY_SIZE \<and>
     unat (sp_enc_key_size sp) \<le> TLS_MAX_KEY_SIZE \<and> unat (sp_fixed_iv_length sp) \<le> TLS_MAX_KEY_SIZE"

lemma build_connection_meta_wf:
  "small_params (ss_write_sp s) \<Longrightarrow> ssl_meta_wf (build_connection_meta sid s)"
  by (simp add: build_connection_meta_def Let_def ssl_meta_wf_def small_params_def length_copy_key)

lemma key_meta_hdr_wf:
  "sess_wf (tc_ssl_session c) \<Longrightarrow> small_params (ss_write_sp (tc_ssl_session c)) \<Longrightarrow> meta_hdr_wf (key_meta_hdr idx c)"
  by (simp add: key_meta_hdr_def Let_def meta_hdr_wf_def sess_wf_def build_connection_meta_wf)

lemma rst_meta_hdr_wf:
  "sess_wf (tc_ssl_session c) \<Longrightarrow> small_params (ss_write_sp (tc_ssl_session c)) \<Longrightarrow> meta_hdr_wf (rst_meta_hdr c)"
  by (simp add: rst_meta_hdr_def Let_def meta_hdr_wf_def sess_wf_def build_connection_meta_wf)

lemma seg_copy_key:
  assumes "k + i \<le> unat len" "unat len \<le> TLS_MAX_KEY_SIZE" "length src = TLS_MAX_KEY_SIZE"
  shows "seg i k (copy_key len src) = seg i k src"
proof -
  have l: "length (seg 0 (unat len) src) = unat len" using assms(2,3) by (simp add: seg_def)
  have "seg i k (copy_key len src) = seg (i - 0) k (seg 0 (unat len) src)"
    unfolding copy_key_def using assms l by (intro seg_blit_inside) auto
  then show ?thesis using assms(1) by (simp add: seg_seg add.commute)
qed

lemma search_tcp_connection_iff:
  assumes "nic_table_inv (nic_key n) (conn_idle n) (n_active n)"
  shows "search_tcp_connection cip cport sip sport n =
    Some (nic_search (nic_key n) (conn_idle n) (n_active n) (cip, sip, cport, sport))"
  using ht_search_find[OF assms, of cip cport sip sport]
  by (simp add: search_tcp_connection_def nic_search_def)

lemma search_tcp_connection_member:
  assumes "nic_table_inv (nic_key n) (conn_idle n) (n_active n)" "p \<in> ht_members (n_active n)"
    and "nic_key n p = (cip, sip, cport, sport)"
  shows "search_tcp_connection cip cport sip sport n = Some (Some p)"
  using nic_search_iff[OF assms(1), of "(cip, sip, cport, sport)" p] assms(2,3)
  by (simp add: search_tcp_connection_iff[OF assms(1)])

end
