(* ===== verification/Migration.thy ===== *)
theory Migration
  imports Nic_Meta Host_Meta
begin

text \<open>
  The migration protocol across the two machines: what the host reads from the packets
  the SmartNIC sends, and how the SmartNIC takes the host's answers.  The SmartNIC side
  is \<open>Nic_Meta\<close>, the host side \<open>Host_Meta\<close>; the frames in between are byte lists.
\<close>


section \<open>Reading a meta packet\<close>

text \<open>The receive buffer after \<^verbatim>\<open>recvfrom\<close> of a meta packet, with the old contents behind it.\<close>

definition recv_frame :: "bytes \<Rightarrow> bytes \<Rightarrow> bytes" where
  "recv_frame old f = blit old 0 f"

lemma recv_frame_split: "recv_frame old f = f @ drop (length f) old"
  by (simp add: recv_frame_def blit_def)

lemma recv_frame_reads:
  assumes "meta_hdr_wf m"
  shows "ld32 (recv_frame old (meta_hdr_bytes m)) 4 = mh_server_seq_num m"
    "ld32 (recv_frame old (meta_hdr_bytes m)) 8 = mh_server_ack_num m"
    "ld16 (recv_frame old (meta_hdr_bytes m)) 12 = mh_custom_eth_type m"
    "ld32 (recv_frame old (meta_hdr_bytes m)) 26 = mh_client_ip m"
    "ld16 (recv_frame old (meta_hdr_bytes m)) 34 = mh_client_port m"
    "seg 0 4 (recv_frame old (meta_hdr_bytes m)) = mh_eth_pad m"
    "seg 14 2 (recv_frame old (meta_hdr_bytes m)) = seg 0 2 (mh_ip_pad m)"
    "ssl_meta_at (recv_frame old (meta_hdr_bytes m)) 38 = mh_conn_meta m"
  using meta_hdr_fields[OF assms] ssl_meta_at_frame[OF assms]
  by (simp_all add: recv_frame_split length_meta_hdr_bytes[OF assms] ld32_def ld16_def byte_simps)

lemma eth_types_agree: "nic_key_eth_types = key_eth_types"
  by (simp add: nic_key_eth_types_def key_eth_types_def)

lemma key_frame_type:
  assumes "meta_hdr_wf m" "mh_custom_eth_type m = htons (nic_key_eth_types ! idx)" "idx < 16"
  shows "validate_meta_type (recv_frame old (meta_hdr_bytes m)) = META_TYPE_KEY"
proof -
  have "nic_key_eth_types ! idx \<in> set key_eth_types"
    unfolding eth_types_agree using assms(3) by (intro nth_mem) (simp add: key_eth_types_def)
  then show ?thesis
    using recv_frame_reads(3)[OF assms(1)] by (simp add: validate_meta_type_def assms(2) Let_def byte_simps)
qed

text \<open>A session at the end of its handshake: the parameters of the one supported cipher
  suite are in place and the arrays have their declared sizes.\<close>

definition sess_ready :: "ssl_session \<Rightarrow> bool" where
  "sess_ready s \<longleftrightarrow> sess_wf s \<and>
     sp_enc_key_size (ss_write_sp s) = 32 \<and> sp_fixed_iv_length (ss_write_sp s) = 12 \<and>
     sp_mac_key_size (ss_write_sp s) = 0 \<and>
     length (tx_client_application_key (ss_tls13_ctx s)) = TLS_MAX_KEY_SIZE \<and>
     length (tx_server_application_key (ss_tls13_ctx s)) = TLS_MAX_KEY_SIZE \<and>
     length (tx_client_application_iv (ss_tls13_ctx s)) = TLS_MAX_KEY_SIZE \<and>
     length (tx_server_application_iv (ss_tls13_ctx s)) = TLS_MAX_KEY_SIZE"

lemma sess_ready_small: "sess_ready s \<Longrightarrow> small_params (ss_write_sp s)"
  by (simp add: sess_ready_def small_params_def TLS_MAX_KEY_SIZE_def)

lemma sess_ready_wf:
  "sess_ready (tc_ssl_session c) \<Longrightarrow> meta_hdr_wf (key_meta_hdr idx c)"
  "sess_ready (tc_ssl_session c) \<Longrightarrow> meta_hdr_wf (rst_meta_hdr c)"
  by (auto intro!: key_meta_hdr_wf rst_meta_hdr_wf sess_ready_small simp: sess_ready_def)

text \<open>The kernel parameters that a key and an IV of the session stand for.\<close>

definition gcm_params :: "u8 \<Rightarrow> bytes \<Rightarrow> bytes \<Rightarrow> crypto_info" where
  "gcm_params major key iv =
    \<lparr> ci_version = push_bit 8 (ucast major) OR 0x04, ci_cipher_type = TLS_CIPHER_AES_GCM_256,
      ci_iv = seg 4 8 iv, ci_key = seg 0 32 key, ci_salt = seg 0 4 iv, ci_rec_seq = replicate 8 0 \<rparr>"

definition key_meta_info :: "tcp_conn \<Rightarrow> meta_info" where
  "key_meta_info c =
    \<lparr> mi_client_ip = ntohl (tc_client_ip c), mi_client_port = ntohs (tc_client_port c),
      mi_seq_num = tc_last_recv_ack c + word_of_int (ss_send_buffer_offset (tc_ssl_session c)),
      mi_ack_num = tc_last_recv_seq c + tc_last_recv_len c + 80, mi_ssl_meta = Some 38 \<rparr>"

lemma key_meta_data:
  assumes r: "sess_ready (tc_ssl_session c)"
  shows "handle_meta_data True (recv_frame old (meta_hdr_bytes (key_meta_hdr idx c))) =
    (key_meta_info c,
     gcm_params (fst (ss_version (tc_ssl_session c)))
       (tx_client_application_key (ss_tls13_ctx (tc_ssl_session c)))
       (tx_client_application_iv (ss_tls13_ctx (tc_ssl_session c))),
     gcm_params (fst (ss_version (tc_ssl_session c)))
       (tx_server_application_key (ss_tls13_ctx (tc_ssl_session c)))
       (tx_server_application_iv (ss_tls13_ctx (tc_ssl_session c))))"
proof -
  let ?s = "tc_ssl_session c" and ?m = "key_meta_hdr idx c"
  note f = recv_frame_reads[OF sess_ready_wf(1)[OF r, of idx]]
  have h: "mh_server_seq_num ?m = htonl (tc_last_recv_ack c + word_of_int (ss_send_buffer_offset ?s))"
    "mh_server_ack_num ?m = htonl (tc_last_recv_seq c + tc_last_recv_len c + 80)"
    "mh_client_ip ?m = tc_client_ip c" "mh_client_port ?m = tc_client_port c"
    "mh_conn_meta ?m = build_connection_meta (tc_session_id c) ?s"
    by (simp_all add: key_meta_hdr_def Let_def)
  have k: "seg 0 32 (copy_key 32 x) = seg 0 32 x" "seg 0 4 (copy_key 12 x) = seg 0 4 x"
    "seg 4 8 (copy_key 12 x) = seg 4 8 x" if "length x = TLS_MAX_KEY_SIZE" for x
    using that by (simp_all add: seg_copy_key TLS_MAX_KEY_SIZE_def)
  have b: "fill_crypto True (build_connection_meta (tc_session_id c) ?s)
      (sm_client_write_key (build_connection_meta (tc_session_id c) ?s))
      (sm_client_write_IV (build_connection_meta (tc_session_id c) ?s)) =
      gcm_params (fst (ss_version ?s)) (tx_client_application_key (ss_tls13_ctx ?s))
       (tx_client_application_iv (ss_tls13_ctx ?s))"
    "fill_crypto True (build_connection_meta (tc_session_id c) ?s)
      (sm_server_write_key (build_connection_meta (tc_session_id c) ?s))
      (sm_server_write_IV (build_connection_meta (tc_session_id c) ?s)) =
      gcm_params (fst (ss_version ?s)) (tx_server_application_key (ss_tls13_ctx ?s))
       (tx_server_application_iv (ss_tls13_ctx ?s))"
    using r by (simp_all add: fill_crypto_def build_connection_meta_def Let_def gcm_params_def sess_ready_def k
        GCM_256_IV_SIZE_def GCM_256_KEY_SIZE_def GCM_256_SALT_SIZE_def GCM_256_REC_SEQ_SIZE_def)
  show ?thesis
    by (simp add: handle_meta_data_def Let_def f h b key_meta_info_def byte_simps)
qed

text \<open>The length word that \<^verbatim>\<open>handle_sccs_sf_records\<close> reads lies in the unused part of
  \<^verbatim>\<open>server_write_IV\<close> and is zero.\<close>

lemma ssl_meta_bytes_iv:
  assumes "ssl_meta_wf m" "i + n \<le> 128"
  shows "seg (659 + i) n (ssl_meta_bytes m) = seg i n (sm_server_write_IV m)"
  using assms
  by (simp add: ssl_meta_bytes_def ssl_meta_wf_def seg_skip seg_skip1 seg_append_left)

lemma key_frame_sccs:
  assumes r: "sess_ready (tc_ssl_session c)"
  shows "ld32 (recv_frame old (meta_hdr_bytes (key_meta_hdr idx c))) (16 + sizeof_ssl_meta) = 0"
    "sccs_in_range (recv_frame old (meta_hdr_bytes (key_meta_hdr idx c)))"
proof -
  let ?m = "key_meta_hdr idx c" and ?s = "tc_ssl_session c"
  note wf = sess_ready_wf(1)[OF r, of idx]
  have cm: "mh_conn_meta ?m = build_connection_meta (tc_session_id c) ?s"
    by (simp add: key_meta_hdr_def Let_def)
  have iv: "sm_server_write_IV (build_connection_meta (tc_session_id c) ?s) =
      copy_key 12 (tx_server_application_iv (ss_tls13_ctx ?s))"
    using r by (simp add: build_connection_meta_def Let_def sess_ready_def)
  have z: "seg 107 4 (copy_key 12 x) = replicate 4 0" if "length x = 128" for x
    unfolding copy_key_def using that
    by (subst seg_blit_other) (simp_all add: seg_def TLS_MAX_KEY_SIZE_def)
  have "seg (38 + 766) 4 (recv_frame old (meta_hdr_bytes ?m)) = seg 766 4 (ssl_meta_bytes (mh_conn_meta ?m))"
    unfolding recv_frame_split
    by (rule seg_meta_hdr_bytes[OF wf]) (simp add: sizeof_ssl_meta_def)
  also have "\<dots> = seg (659 + 107) 4 (ssl_meta_bytes (mh_conn_meta ?m))" by simp
  also have "\<dots> = seg 107 4 (sm_server_write_IV (mh_conn_meta ?m))"
    using wf by (intro ssl_meta_bytes_iv) (simp_all add: meta_hdr_wf_def)
  also have "\<dots> = replicate 4 0"
    using r z by (simp add: cm iv sess_ready_def TLS_MAX_KEY_SIZE_def)
  finally have "seg 804 4 (recv_frame old (meta_hdr_bytes ?m)) = replicate 4 0" by simp
  then show l: "ld32 (recv_frame old (meta_hdr_bytes ?m)) (16 + sizeof_ssl_meta) = 0"
    by (simp add: sizeof_ssl_meta_def ld32_def le_word_def be_word_def numeral_eq_Suc)
  show "sccs_in_range (recv_frame old (meta_hdr_bytes ?m))"
    unfolding sccs_in_range_def l
    by (simp add: Let_def sizeof_ssl_meta_def recv_frame_split length_meta_hdr_bytes[OF wf])
qed


section \<open>Reading the host's answer\<close>

lemma arm_packet_length [simp]: "length (arm_packet tos mi) = 64"
  by (simp add: arm_packet_def Let_def SND_META_PKT_SIZE_def)

lemma arm_packet_reads:
  "ld32 (arm_packet tos mi) 26 = htonl (mi_client_ip mi)"
  "ld32 (arm_packet tos mi) 30 = htonl SERVER_IP"
  "ld16 (arm_packet tos mi) 34 = htons (mi_client_port mi)"
  "ld16 (arm_packet tos mi) 36 = htons SSL_PORT"
  "ld32 (arm_packet tos mi) 38 = htonl (mi_seq_num mi)"
  "ld32 (arm_packet tos mi) 42 = htonl (mi_ack_num mi)"
  by (simp_all add: arm_packet_def Let_def SND_META_PKT_SIZE_def ld32_def ld16_def layout_simps byte_simps)
    (simp_all add: htonl_def htons_def)

lemma arm_packet_header:
  "ld16 (arm_packet tos mi) 12 = htons 0x0800" "arm_packet tos mi ! 15 = tos"
proof -
  show "arm_packet tos mi ! 15 = tos"
    by (simp add: arm_packet_def Let_def SND_META_PKT_SIZE_def nth_blit)
  have "arm_packet tos mi ! 12 = 0x08" "arm_packet tos mi ! 13 = 0x00"
    by (simp_all add: arm_packet_def Let_def SND_META_PKT_SIZE_def nth_blit)
  moreover have "seg 12 2 b = [b ! 12, b ! 13]" if "length b = 64" for b :: bytes
    using that by (intro nth_equalityI) (auto simp: seg_def less_2_cases_iff)
  moreover have "be_bytes 2 (0x0800 :: u16) = [0x08, 0x00]" by code_simp
  ultimately have "seg 12 2 (arm_packet tos mi) = be_bytes 2 (0x0800 :: u16)" by simp
  then show "ld16 (arm_packet tos mi) 12 = htons 0x0800"
    by (simp add: ld16_def htons_def)
qed

lemma mig_fin_packet_reads:
  "ld32 (mig_fin_packet c) 26 = htonl (mi_client_ip (meta_info c))"
  "ld32 (mig_fin_packet c) 30 = htonl SERVER_IP"
  "ld16 (mig_fin_packet c) 34 = htons (mi_client_port (meta_info c))"
  "ld16 (mig_fin_packet c) 36 = htons SSL_PORT"
  "ld32 (mig_fin_packet c) 38 = htonl (mi_seq_num (meta_info c))"
  "ld32 (mig_fin_packet c) 42 = htonl (mi_ack_num (meta_info c))"
  "ld16 (mig_fin_packet c) 12 = htons 0x0800" "mig_fin_packet c ! 15 = 0xfd"
  using arm_packet_reads[of "0xfd" "meta_info c"] arm_packet_header[of "0xfd" "meta_info c"]
  by (simp_all add: mig_fin_packet_def Let_def ld32_def ld16_def layout_simps nth_blit)

lemma send_key_meta_room:
  assumes "length (n_wmbufs n port) < MAX_PKT_BURST" "0 < threads" "threads \<le> 16"
    and "m = key_meta_hdr (unat (tc_client_port (n_conns n p)) mod threads) (n_conns n p)"
  shows "\<exists>n'. send_key_meta threads port p n = Some (0, n') \<and>
    n_wmbufs n' port = n_wmbufs n port @ [meta_hdr_bytes m] \<and>
    n_conns n' = (n_conns n)(p := (n_conns n p)\<lparr> tc_ssl_session := (nic_sess n p)\<lparr> ss_meta_hdr := m \<rparr> \<rparr>) \<and>
    n_active n' = n_active n"
proof -
  have "unat (tc_client_port (n_conns n p)) mod threads < threads" using assms(2) by simp
  then have "unat (tc_client_port (n_conns n p)) mod threads < 16" using assms(3) by linarith
  with assms show ?thesis
    by (simp add: send_key_meta_def Let_def nic_key_eth_types_def put_frame_room upd_sess_def upd_tcp_def)
qed


section \<open>Properties\<close>

text \<open>C2: the key packet of the SmartNIC carries a connection to the host without loss.
  For every session with the negotiated cipher suite, \<open>send_key_meta\<close> queues one frame
  of 826 bytes on the host port; its EtherType is that of the host thread
  \<open>client_port mod host_threads_num\<close>; the host classifies it as a key packet and
  \<open>handle_meta_data\<close> reads from it the client's address, the next sequence and
  acknowledgement number, and for each direction exactly the first 32 bytes of the
  application key, the first 4 bytes of the IV as salt and its next 8 bytes as IV.\<close>

theorem key_meta_roundtrip:
  assumes "sess_ready (nic_sess n p)" "0 < threads" "threads \<le> 16"
    and "length (n_wmbufs n port) < MAX_PKT_BURST"
  shows "\<exists>n' f. send_key_meta threads port p n = Some (0, n') \<and>
    n_wmbufs n' port = n_wmbufs n port @ [f] \<and> length f = 826 \<and>
    ntohs (ld16 (recv_frame old f) 12) = key_eth_types ! (unat (tc_client_port (n_conns n p)) mod threads) \<and>
    validate_meta_type (recv_frame old f) = META_TYPE_KEY \<and>
    handle_meta_data True (recv_frame old f) =
      (let t = ss_tls13_ctx (nic_sess n p); v = fst (ss_version (nic_sess n p)) in
       (key_meta_info (n_conns n p),
        gcm_params v (tx_client_application_key t) (tx_client_application_iv t),
        gcm_params v (tx_server_application_key t) (tx_server_application_iv t)))"
proof -
  define idx where "idx = unat (tc_client_port (n_conns n p)) mod threads"
  let ?m = "key_meta_hdr idx (n_conns n p)"
  have i: "idx < 16" unfolding idx_def
    using mod_less_divisor[OF assms(2), of "unat (tc_client_port (n_conns n p))"] assms(3) by linarith
  note wf = sess_ready_wf(1)[OF assms(1), of idx]
  have e: "mh_custom_eth_type ?m = htons (nic_key_eth_types ! idx)" by (simp add: key_meta_hdr_def Let_def)
  obtain n' where "send_key_meta threads port p n = Some (0, n')"
    "n_wmbufs n' port = n_wmbufs n port @ [meta_hdr_bytes ?m]"
    using send_key_meta_room[OF assms(4,2,3) refl] unfolding idx_def by blast
  then show ?thesis
    using length_meta_hdr_bytes[OF wf] key_frame_type[OF wf e i] key_meta_data[OF assms(1), of old idx]
      recv_frame_reads(3)[OF wf]
    by (intro exI[of _ n'] exI[of _ "meta_hdr_bytes ?m"])
      (simp add: e idx_def[symmetric] Let_def byte_simps eth_types_agree)
qed

definition demo_sess :: ssl_session where
  "demo_sess = (sess_zero 520)\<lparr>
     ss_state := STATE_HANDSHAKE, ss_handshake_state := CERTIFICATE_VERIFY, ss_version := (3, 3),
     ss_send_seq_num := 4, ss_send_buffer_offset := 900, ss_server_write_IV_seq_num := 4,
     ss_tls13_ctx := tls13_ctx_zero\<lparr> tx_client_application_key := replicate 128 0xA1,
       tx_server_application_key := replicate 128 0xB2, tx_client_application_iv := replicate 128 0xC3,
       tx_server_application_iv := replicate 128 0xD4 \<rparr>,
     ss_rand_seed := 1, ss_write_sp := sp_zero\<lparr> sp_enc_key_size := 32, sp_fixed_iv_length := 12 \<rparr> \<rparr>"

definition demo_conn :: tcp_conn where
  "demo_conn = (tcp_zero 520)\<lparr>
     tc_state := TCP_SESSION_RECEIVED, tc_session_id := 7, tc_ip_id := 1,
     tc_client_mac := replicate 6 1, tc_server_mac := replicate 6 2,
     tc_client_ip := htonl 0x0A000001, tc_server_ip := htonl SERVER_IP,
     tc_client_port := htons 50000, tc_server_port := htons SSL_PORT,
     tc_cookie := 0x1000, tc_last_recv_seq := 0x2000, tc_last_recv_ack := 0x1001, tc_last_recv_len := 517,
     tc_ssl_session := demo_sess \<rparr>"

definition demo_nic :: nic where
  "demo_nic = (let n = nic_idle (\<lambda>_. 64) (\<lambda>_. 0) (\<lambda>_. demo_conn) in
     n\<lparr> n_active := ht_insert (nic_key n) (n_active n) 0 \<rparr>)"

lemma demo_sess_ready: "sess_ready demo_sess"
  by (simp add: sess_ready_def sess_wf_def demo_sess_def sess_zero_def meta_hdr_zero_def sp_zero_def tls13_ctx_zero_def Let_def TLS_MAX_KEY_SIZE_def)

lemma demo_conn_simps [simp]:
  "tc_ssl_session demo_conn = demo_sess"
  "tx_server_application_key (ss_tls13_ctx demo_sess) = replicate 128 0xB2"
  by (simp_all add: demo_conn_def tcp_zero_def) (simp add: demo_sess_def)

lemma demo_nic_simps [simp]:
  "n_conns demo_nic q = demo_conn" "n_wmbufs demo_nic port = []" 
  by (simp_all add: demo_nic_def Let_def nic_idle_def)

theorem key_meta_roundtrip_witness:
  "\<exists>n' f. send_key_meta 4 1 0 demo_nic = Some (0, n') \<and> n_wmbufs n' 1 = [f] \<and>
    ci_key (snd (snd (handle_meta_data True (recv_frame (replicate RECV_META_BUF_SIZE 0) f)))) = replicate 32 0xB2"
  using key_meta_roundtrip[of demo_nic 0 4 1 "replicate RECV_META_BUF_SIZE 0"] demo_sess_ready
  by (auto simp: Let_def MAX_PKT_BURST_def gcm_params_def seg_replicate)

lemma answers_accepted:
  assumes "nic_table_inv (nic_key n) (conn_idle n) (n_active n)" "p \<in> ht_members (n_active n)"
    and "tc_server_ip (n_conns n p) = htonl SERVER_IP" "tc_server_port (n_conns n p) = htons SSL_PORT"
    and "odd hport" "meta_info c = key_meta_info (n_conns n p)"
    and "n_conns n' = (n_conns n)(p := (n_conns n p)\<lparr> tc_ssl_session := (nic_sess n p)\<lparr> ss_meta_hdr := key_meta_hdr k (n_conns n p) \<rparr> \<rparr>)"
    and "n_active n' = n_active n"
  shows "process_host_packet hport (mig_fin_packet c) (Some HOST_MIG_FIN) n' =
      Some (0, upd_tcp p (\<lambda>c. c\<lparr> tc_recv_mig_fin := True \<rparr>) n')" (is ?fin)
    and "process_host_packet hport (arm_packet 0xfc (meta_info c)) (Some HOST_CLOSE) n' =
      Some (0, upd_tcp p (\<lambda>c. c\<lparr> tc_hws_ready_to_del := True \<rparr>) n')" (is ?cls)
proof -
  let ?c = "n_conns n p"
  let ?m = "key_meta_hdr k ?c"
  note c' = assms(7) and a' = assms(8)
  have k: "nic_key n' = nic_key n" "conn_idle n' = conn_idle n" by (auto simp: c' tcp_flow_def)
  have key: "nic_key n' p = (tc_client_ip ?c, htonl SERVER_IP, tc_client_port ?c, htons SSL_PORT)"
    using assms(3,4) by (simp add: c' tcp_flow_def)
  have found: "search_tcp_connection (tc_client_ip ?c) (tc_client_port ?c) (htonl SERVER_IP) (htons SSL_PORT) n'
      = Some (Some p)"
    using assms(1,2) key by (intro search_tcp_connection_member) (simp_all only: k a')
  have m: "ss_meta_hdr (nic_sess n' p) = ?m" by (simp add: c')
  have nums: "mh_server_seq_num ?m = htonl (mi_seq_num (key_meta_info ?c))"
    "mh_server_ack_num ?m = htonl (mi_ack_num (key_meta_info ?c))"
    "tc_client_ip ?c = htonl (mi_client_ip (key_meta_info ?c))"
    "tc_client_port ?c = htons (mi_client_port (key_meta_info ?c))"
    by (simp_all add: key_meta_hdr_def key_meta_info_def Let_def byte_simps)
  show ?fin
    using assms(5) found m nums
    by (simp add: process_host_packet_def process_host_mig_fin_def mig_fin_packet_reads assms(6) Let_def)
  show ?cls
    using assms(5) found m nums
    by (simp add: process_host_packet_def process_host_close_def arm_packet_reads assms(6) Let_def)
qed

lemma answers_type:
  assumes "odd hport"
  shows "validate_packet_type hport (mig_fin_packet c) len = Some HOST_MIG_FIN"
    "validate_packet_type hport (arm_packet 0xfc (meta_info c)) len = Some HOST_CLOSE"
  using assms by (simp_all add: validate_packet_type_def Let_def mig_fin_packet_reads arm_packet_header
      IP_TOS_HOST_MIG_FIN_def IP_TOS_HOST_CLOSE_def)

text \<open>C11: the SmartNIC accepts the host's answer.  After \<open>send_key_meta\<close>, a packet that
  the host builds from the addresses and numbers it read from the key packet is
  classified by its type of service and found to match: the migration finish sets
  \<open>recv_mig_fin\<close> of that connection, and nothing else, and the close sets
  \<open>hws_ready_to_del\<close>.  The host uses a fixed server address and port, so the
  connection has to be to this address.\<close>

theorem host_answers_accepted:
  assumes "nic_table_inv (nic_key n) (conn_idle n) (n_active n)" "p \<in> ht_members (n_active n)"
    and "tc_server_ip (n_conns n p) = htonl SERVER_IP" "tc_server_port (n_conns n p) = htons SSL_PORT"
    and "0 < threads" "threads \<le> 16" "length (n_wmbufs n port) < MAX_PKT_BURST" "odd hport"
    and "meta_info c = key_meta_info (n_conns n p)"
  shows "\<exists>n'. send_key_meta threads port p n = Some (0, n') \<and>
    validate_packet_type hport (mig_fin_packet c) len = Some HOST_MIG_FIN \<and>
    process_host_packet hport (mig_fin_packet c) (Some HOST_MIG_FIN) n' =
      Some (0, upd_tcp p (\<lambda>c. c\<lparr> tc_recv_mig_fin := True \<rparr>) n') \<and>
    validate_packet_type hport (arm_packet 0xfc (meta_info c)) len = Some HOST_CLOSE \<and>
    process_host_packet hport (arm_packet 0xfc (meta_info c)) (Some HOST_CLOSE) n' =
      Some (0, upd_tcp p (\<lambda>c. c\<lparr> tc_hws_ready_to_del := True \<rparr>) n')"
proof -
  from send_key_meta_room[OF assms(7,5,6) refl, of p] obtain n' where "send_key_meta threads port p n = Some (0, n')"
    and "n_conns n' = (n_conns n)(p := (n_conns n p)\<lparr> tc_ssl_session := (nic_sess n p)\<lparr> ss_meta_hdr :=
      key_meta_hdr (unat (tc_client_port (n_conns n p)) mod threads) (n_conns n p) \<rparr> \<rparr>)"
    and "n_active n' = n_active n" by blast
  with answers_accepted[OF assms(1-4,8,9)] answers_type[OF assms(8)] show ?thesis by blast
qed

lemma demo_nic_table:
  "nic_table_inv (nic_key demo_nic) (conn_idle demo_nic) (n_active demo_nic)" "0 \<in> ht_members (n_active demo_nic)"
proof -
  let ?n = "nic_idle (\<lambda>_. 64) (\<lambda>_. 0) (\<lambda>_. demo_conn)"
  have e: "n_active ?n = empty_ht" by (simp add: nic_idle_def empty_ht_def)
  have inv: "nic_table_inv (nic_key ?n) (conn_idle ?n) (n_active ?n)"
    by (simp add: nic_table_inv_def e empty_ht_inv)
  have "nic_search (nic_key ?n) (conn_idle ?n) (n_active ?n) (nic_key ?n 0) = None"
    using nic_tab.srch_found[OF inv, of "nic_key ?n 0"]
    by (cases "nic_search (nic_key ?n) (conn_idle ?n) (n_active ?n) (nic_key ?n 0)") (auto simp: e empty_ht_inv)
  from nic_tab.ins_fresh[OF inv _ this]
  have "nic_table_inv (nic_key ?n) (conn_idle ?n) (ht_insert (nic_key ?n) (n_active ?n) 0)"
    "0 \<in> ht_members (ht_insert (nic_key ?n) (n_active ?n) 0)"
    by (auto simp: nic_idle_def demo_conn_def tcp_zero_def)
  moreover have "nic_key demo_nic = nic_key ?n" "conn_idle demo_nic = conn_idle ?n"
    "n_active demo_nic = ht_insert (nic_key ?n) (n_active ?n) 0"
    by (simp_all add: demo_nic_def Let_def)
  ultimately show "nic_table_inv (nic_key demo_nic) (conn_idle demo_nic) (n_active demo_nic)"
    "0 \<in> ht_members (n_active demo_nic)" by (simp_all only:)
qed

theorem host_answers_accepted_witness:
  "\<exists>n'. send_key_meta 4 1 0 demo_nic = Some (0, n') \<and>
    process_host_packet 1 (mig_fin_packet (conn_zero\<lparr> meta_info := key_meta_info demo_conn \<rparr>)) (Some HOST_MIG_FIN) n' =
      Some (0, upd_tcp 0 (\<lambda>c. c\<lparr> tc_recv_mig_fin := True \<rparr>) n')"
proof -
  have d: "tc_server_ip demo_conn = htonl SERVER_IP" "tc_server_port demo_conn = htons SSL_PORT"
    by (simp_all add: demo_conn_def tcp_zero_def)
  show ?thesis
    using host_answers_accepted[OF demo_nic_table, of 4 1 1 "conn_zero\<lparr> meta_info := key_meta_info demo_conn \<rparr>" 0]
    by (auto simp: d MAX_PKT_BURST_def)
qed

text \<open>The reset packet of the SmartNIC has no effect on the host.  The host
  recognises it but looks the client up at the offsets 0 and 14, where the SmartNIC's
  header has its zero padding, so that for every connection the search is for client
  address 0 and port 0: the stale connection stays installed under the client that
  the packet names.\<close>

theorem rst_meta_without_effect:
  assumes "sess_ready (nic_sess n p)" "length (n_wmbufs n port) < MAX_PKT_BURST"
    and "host_lookup h 0 0 = None"
  shows "\<exists>n' f. send_rst_conn_meta port p n = Some (0, n') \<and> n_wmbufs n' port = n_wmbufs n port @ [f] \<and>
    validate_meta_type (recv_frame old f) = META_TYPE_RST_CONN \<and>
    meta_client (recv_frame old f) = (ntohl (tc_client_ip (n_conns n p)), ntohs (tc_client_port (n_conns n p))) \<and>
    handle_rst_conn_packet tls13 len (h\<lparr> meta_buf := recv_frame old f \<rparr>) =
      Some (- 1, h\<lparr> meta_buf := recv_frame old f \<rparr>)"
proof -
  let ?m = "rst_meta_hdr (n_conns n p)"
  note wf = sess_ready_wf(2)[OF assms(1)]
  note f = recv_frame_reads[OF wf]
  have m: "mh_eth_pad ?m = replicate 4 0" "mh_ip_pad ?m = replicate 12 0" "mh_custom_eth_type ?m = htons 0x08FF"
    "mh_client_ip ?m = tc_client_ip (n_conns n p)" "mh_client_port ?m = tc_client_port (n_conns n p)"
    using assms(1) by (simp_all add: rst_meta_hdr_def Let_def sess_ready_def sess_wf_def)
  have z: "ntohl (le_word (replicate 4 0)) = 0" "ntohs (le_word (replicate 2 0)) = 0"
    by code_simp+
  have zero: "ntohl (ld32 (recv_frame old (meta_hdr_bytes ?m)) 0) = 0"
    "ntohs (ld16 (recv_frame old (meta_hdr_bytes ?m)) 14) = 0"
    by (simp_all add: ld32_def ld16_def f m seg_replicate z)
  have ty: "validate_meta_type (recv_frame old (meta_hdr_bytes ?m)) = META_TYPE_RST_CONN"
    by (simp add: validate_meta_type_def f m byte_simps key_eth_types_def RST_CONN_META_ETH_TYPE_def)
  have cl: "meta_client (recv_frame old (meta_hdr_bytes ?m)) =
      (ntohl (tc_client_ip (n_conns n p)), ntohs (tc_client_port (n_conns n p)))"
    by (simp add: meta_client_def f m)
  show ?thesis
    using ty cl assms(3)
    by (simp add: send_rst_conn_meta_def Let_def put_frame_room[OF _] assms(2) upd_sess_def upd_tcp_def
        handle_rst_conn_packet_def zero)
qed

theorem rst_meta_without_effect_witness:
  "\<exists>n' f. send_rst_conn_meta 1 0 demo_nic = Some (0, n') \<and> n_wmbufs n' 1 = [f] \<and>
    validate_meta_type (recv_frame (replicate RECV_META_BUF_SIZE 0) f) = META_TYPE_RST_CONN \<and>
    handle_rst_conn_packet True 826 (key_host\<lparr> meta_buf := recv_frame (replicate RECV_META_BUF_SIZE 0) f \<rparr>) =
      Some (- 1, key_host\<lparr> meta_buf := recv_frame (replicate RECV_META_BUF_SIZE 0) f \<rparr>)"
  using rst_meta_without_effect[of demo_nic 0 1 key_host "replicate RECV_META_BUF_SIZE 0" True 826] demo_sess_ready
  by (auto simp: key_host_facts MAX_PKT_BURST_def)

end
