(* ===== verification/Http_Text.thy ===== *)
theory Http_Text
  imports Xtls_Prelude
begin

text \<open>
  Text handling of the web server, \<^verbatim>\<open>src/host/custom_server/src/helpers.c\<close>, with the
  functions of the C library it uses: \<^verbatim>\<open>strchr\<close>, \<^verbatim>\<open>strstr\<close>, the conversions of \<^verbatim>\<open>snprintf\<close>
  and the date format of \<^verbatim>\<open>strftime\<close>.  A C string is a byte list that is read up to its
  first zero byte.
\<close>


section \<open>C strings\<close>

definition LF :: u8 where "LF = 10"
definition CR :: u8 where "CR = 13"
definition SPACE :: u8 where "SPACE = 32"
definition TAB :: u8 where "TAB = 9"

definition c_string :: "bytes \<Rightarrow> bytes" where
  "c_string b = takeWhile (\<lambda>c. c \<noteq> 0) b"

fun find_chr :: "u8 \<Rightarrow> bytes \<Rightarrow> nat \<Rightarrow> nat option" where
  "find_chr c [] i = None"
| "find_chr c (x # xs) i = (if x = c then Some i else if x = 0 then None else find_chr c xs (i + 1))"

definition strchr :: "bytes \<Rightarrow> nat \<Rightarrow> u8 \<Rightarrow> nat option" where
  "strchr data pos c = find_chr c (drop pos data) pos"

fun contains :: "bytes \<Rightarrow> bytes \<Rightarrow> bool" where
  "contains [] needle = (needle = [])"
| "contains (x # xs) needle = (take (length needle) (x # xs) = needle \<or> contains xs needle)"

definition strstr :: "bytes \<Rightarrow> bytes \<Rightarrow> bool" where
  "strstr data needle = contains (c_string data) needle"

lemma find_chr_Some:
  "find_chr c xs i = Some j \<longleftrightarrow>
     i \<le> j \<and> j - i < length xs \<and> xs ! (j - i) = c \<and> (\<forall>k < j - i. xs ! k \<noteq> c \<and> xs ! k \<noteq> 0)"
proof (induction xs arbitrary: i)
  case (Cons x xs)
  show ?case
  proof (cases "x = c \<or> x = 0")
    case True
    then show ?thesis by (cases "j = i") (auto simp: nth_Cons')
  next
    case False
    have shift: "(\<forall>k < j - i. (x # xs) ! k \<noteq> c \<and> (x # xs) ! k \<noteq> 0) \<longleftrightarrow>
        (\<forall>k < j - Suc i. xs ! k \<noteq> c \<and> xs ! k \<noteq> 0)" if "Suc i \<le> j"
    proof -
      from that have e: "j - i = Suc (j - Suc i)" by simp
      show ?thesis unfolding e using False by (simp add: All_less_Suc2)
    qed
    have "i \<noteq> j \<or> (x # xs) ! (j - i) \<noteq> c" using False by auto
    then show ?thesis
      using False shift Cons.IH[of "Suc i"]
      by (cases "Suc i \<le> j") (auto simp: nth_Cons' Suc_diff_le)
  qed
qed simp

lemma strchr_Some:
  assumes "strchr data pos c = Some j"
  shows "pos \<le> j" "j < length data" "data ! j = c" "\<And>k. pos \<le> k \<Longrightarrow> k < j \<Longrightarrow> data ! k \<noteq> c \<and> data ! k \<noteq> 0"
proof -
  from assms have a: "pos \<le> j" "j - pos < length data - pos" "drop pos data ! (j - pos) = c"
    "\<forall>k < j - pos. drop pos data ! k \<noteq> c \<and> drop pos data ! k \<noteq> 0"
    by (auto simp: strchr_def find_chr_Some)
  from a(1,2) show "pos \<le> j" and lt: "j < length data" by auto
  from a lt show "data ! j = c" by simp
  fix k assume k: "pos \<le> k" "k < j"
  with a(4) have "drop pos data ! (k - pos) \<noteq> c \<and> drop pos data ! (k - pos) \<noteq> 0" by simp
  with k lt show "data ! k \<noteq> c \<and> data ! k \<noteq> 0" by simp
qed

lemma strchr_None:
  assumes "strchr data pos c = None" "pos \<le> j" "j < length data" "data ! j = c"
  shows "\<exists>k. pos \<le> k \<and> k < j \<and> data ! k = 0 \<and> c \<noteq> 0"
proof -
  have "find_chr c xs i = None \<Longrightarrow> m < length xs \<Longrightarrow> xs ! m = c \<Longrightarrow> \<exists>k < m. xs ! k = 0 \<and> c \<noteq> 0" for xs i m
  proof (induction xs arbitrary: i m)
    case (Cons x xs)
    show ?case
    proof (cases m)
      case 0
      with Cons.prems show ?thesis by simp
    next
      case (Suc m')
      show ?thesis
      proof (cases "x = 0")
        case True
        with Cons.prems Suc show ?thesis by (intro exI[of _ 0]) (auto split: if_splits)
      next
        case False
        with Cons.prems Suc have "find_chr c xs (i + 1) = None" by (auto split: if_splits)
        from Cons.IH[OF this, of m'] Cons.prems Suc obtain k where "k < m'" "xs ! k = 0" "c \<noteq> 0" by auto
        with Suc show ?thesis by (intro exI[of _ "Suc k"]) simp
      qed
    qed
  qed simp
  from this[of "drop pos data" pos "j - pos"] assms obtain k
    where "k < j - pos" "drop pos data ! k = 0" "c \<noteq> 0"
    by (auto simp: strchr_def diff_less_mono)
  with assms(2,3) show ?thesis by (intro exI[of _ "pos + k"]) auto
qed


section \<open>Header and URL\<close>

text \<open>The two loops of \<^verbatim>\<open>helpers.c\<close>.  The scan for the end of the header returns the
  offset of the newline that ends it, or zero.\<close>

function find_http_loop :: "bytes \<Rightarrow> nat \<Rightarrow> nat" where
  "find_http_loop data pos =
    (case strchr data pos LF of
       None \<Rightarrow> 0
     | Some t \<Rightarrow>
         let t = t + 1 in
         if data ! t = LF then t
         else if data ! t = CR \<and> data ! (t + 1) = LF then t + 1
         else find_http_loop data t)"
  by auto
termination
proof (relation "measure (\<lambda>(data, pos). length data - pos)")
  fix data pos n t
  assume "strchr data pos LF = Some n" "t = n + 1"
  with strchr_Some(1,2)[of data pos LF n]
  show "((data, t), (data, pos)) \<in> measure (\<lambda>(data, pos). length data - pos)" by simp
qed simp

declare find_http_loop.simps [simp del]

definition find_http_header :: "bytes \<Rightarrow> nat \<Rightarrow> bytes \<times> nat" where
  "find_http_header data len = (let data = data[len := 0] in (data, find_http_loop data 0))"

fun skip_blanks :: "bytes \<Rightarrow> bytes" where
  "skip_blanks [] = []"
| "skip_blanks (x # xs) = (if x \<noteq> 0 \<and> (x = SPACE \<or> x = TAB) then skip_blanks xs else x # xs)"

fun copy_url :: "bytes \<Rightarrow> nat \<Rightarrow> bytes" where
  "copy_url [] room = []"
| "copy_url (x # xs) room =
     (if x \<noteq> 0 \<and> x \<noteq> SPACE \<and> 0 < room then x # copy_url xs (room - 1) else [])"

text \<open>The method is compared but a mismatch only clears the first byte of the result,
  which the copy loop overwrites.\<close>

definition http_get_url :: "bytes \<Rightarrow> nat \<Rightarrow> bytes" where
  "http_get_url data value_len = copy_url (skip_blanks (drop 3 data)) (value_len - 1)"

definition scode_2_str :: "int \<Rightarrow> bytes option" where
  "scode_2_str scode =
    (if scode = 200 then Some (str ''OK'')
     else if scode = 404 then Some (str ''Not Found'')
     else None)"

section \<open>Response header\<close>

function dec :: "nat \<Rightarrow> bytes" where
  "dec n = (if n < 10 then [48 + of_nat n] else dec (n div 10) @ [48 + of_nat (n mod 10)])"
  by auto
termination
  by (relation "measure id") auto

declare dec.simps [simp del]

definition dec2 :: "nat \<Rightarrow> bytes" where
  "dec2 n = [48 + of_nat (n div 10 mod 10), 48 + of_nat (n mod 10)]"

text \<open>\<^verbatim>\<open>gmtime\<close>: year, month (1 to 12), day and weekday (0 is Sunday) of a day number,
  counted from 1 January 1970.\<close>

definition civil :: "nat \<Rightarrow> nat \<times> nat \<times> nat \<times> nat" where
  "civil days =
    (let z = days + 719468;
         era = z div 146097; doe = z mod 146097;
         yoe = (doe - doe div 1460 + doe div 36524 - doe div 146096) div 365;
         doy = doe - (365 * yoe + yoe div 4 - yoe div 100);
         mp = (5 * doy + 2) div 153;
         d = doy - (153 * mp + 2) div 5 + 1;
         m = (if mp < 10 then mp + 3 else mp - 9);
         y = yoe + era * 400
     in (if m \<le> 2 then y + 1 else y, m, d, (days + 4) mod 7))"

definition wdays :: "string list" where
  "wdays = [''Sun'', ''Mon'', ''Tue'', ''Wed'', ''Thu'', ''Fri'', ''Sat'']"

definition months :: "string list" where
  "months = [''Jan'', ''Feb'', ''Mar'', ''Apr'', ''May'', ''Jun'', ''Jul'', ''Aug'', ''Sep'', ''Oct'', ''Nov'', ''Dec'']"

text \<open>\<^verbatim>\<open>strftime\<close> with the format \<^verbatim>\<open>"%a, %d %b %Y %X GMT"\<close> in the C locale.\<close>

definition http_date :: "nat \<Rightarrow> bytes" where
  "http_date secs =
    (let (y, m, d, w) = civil (secs div 86400); r = secs mod 86400 in
     str (wdays ! w) @ str '', '' @ dec2 d @ str '' '' @ str (months ! (m - 1)) @ str '' '' @ dec y @ str '' '' @
     dec2 (r div 3600) @ str '':'' @ dec2 (r div 60 mod 60) @ str '':'' @ dec2 (r mod 60) @ str '' GMT'')"

definition http_header_text :: "nat \<Rightarrow> bytes \<Rightarrow> bytes \<Rightarrow> nat \<Rightarrow> bool \<Rightarrow> bytes" where
  "http_header_text scode reason date sz keep_alive =
     str ''HTTP/1.1 '' @ dec scode @ str '' '' @ reason @ [CR, LF] @
     str ''Date: '' @ date @ [CR, LF] @
     str ''Server: Webserver of seongjong'' @ [CR, LF] @
     str ''Content-Length: '' @ dec sz @ [CR, LF] @
     str ''connection: '' @ str (if keep_alive then ''keep-alive'' else ''close'') @ [CR, LF] @
     [CR, LF]"


section \<open>Lemmas\<close>

text \<open>Where a header ends: at the second of two newlines, possibly with a carriage return
  between them, before any zero byte.\<close>

definition header_end :: "bytes \<Rightarrow> nat \<Rightarrow> bool" where
  "header_end data t \<longleftrightarrow> t < length data \<and> data ! t = LF \<and> (\<forall>k < t. data ! k \<noteq> 0) \<and>
     (1 \<le> t \<and> data ! (t - 1) = LF \<or> 2 \<le> t \<and> data ! (t - 1) = CR \<and> data ! (t - 2) = LF)"

text \<open>The state of the scan: no zero byte and no end so far, and the position is the
  start or follows a newline that ends nothing.\<close>

definition scan_inv :: "bytes \<Rightarrow> nat \<Rightarrow> bool" where
  "scan_inv data pos \<longleftrightarrow> (\<exists>z < length data. data ! z = 0) \<and> (\<forall>k < pos. data ! k \<noteq> 0) \<and>
     (\<forall>t \<le> pos. \<not> header_end data t) \<and>
     (pos = 0 \<or> pos < length data \<and> data ! (pos - 1) = LF \<and> \<not> (data ! pos = CR \<and> data ! (pos + 1) = LF))"

lemma zero_after:
  assumes "\<exists>z < length data. data ! z = 0" "\<And>k. k \<le> n \<Longrightarrow> data ! k \<noteq> 0"
  shows "n + 1 < length data"
proof -
  from assms(1) obtain z where z: "z < length data" "data ! z = 0" by blast
  with assms(2)[of z] have "n < z" by (cases "z \<le> n") auto
  with z show ?thesis by simp
qed

lemma scan_no_newline:
  assumes "scan_inv data pos" "strchr data pos LF = None"
  shows "\<not> header_end data t"
proof
  assume h: "header_end data t"
  then have "pos < t" using assms(1) by (cases "t \<le> pos") (auto simp: scan_inv_def)
  with strchr_None[OF assms(2), of t] h show False by (auto simp: header_end_def)
qed

lemma scan_newline:
  assumes inv: "scan_inv data pos" and n: "strchr data pos LF = Some n"
  shows "n + 1 < length data" "data ! n = LF" "k \<le> n \<Longrightarrow> data ! k \<noteq> 0" "t \<le> n \<Longrightarrow> \<not> header_end data t"
proof -
  note s = strchr_Some[OF n]
  show nz: "data ! k \<noteq> 0" if "k \<le> n" for k
    using that inv s(3) s(4)[of k] by (cases "k < pos"; cases "k = n") (auto simp: scan_inv_def LF_def)
  show "data ! n = LF" by (rule s(3))
  show "n + 1 < length data" using nz inv by (intro zero_after) (auto simp: scan_inv_def)
  show "\<not> header_end data t" if "t \<le> n" for t
  proof
    assume h: "header_end data t"
    then have pt: "pos < t" using inv by (cases "t \<le> pos") (auto simp: scan_inv_def)
    have "\<not> t < n" using h s(4)[of t] pt by (auto simp: header_end_def)
    with that have tn: "t = n" by simp
    have p: "data ! (t - 1) = CR" "data ! (t - 2) = LF" "2 \<le> t"
      using h tn pt s(4)[of "t - 1"] by (auto simp: header_end_def LF_def CR_def)
    have "\<not> pos \<le> t - 2" using s(4)[of "t - 2"] p tn by auto
    with pt have "pos = t - 1" by simp
    with inv p tn s(3) pt show False by (auto simp: scan_inv_def)
  qed
qed

lemma scan_result:
  assumes inv: "scan_inv data pos" and n: "strchr data pos LF = Some n" and h: "header_end data r"
    and "r = n + 1 \<or> r = n + 2 \<and> data ! (n + 1) \<noteq> LF"
  shows "(LEAST t. header_end data t) = r"
proof (rule Least_equality[of "header_end data", OF h])
  fix t assume t: "header_end data t"
  with scan_newline(4)[OF inv n, of t] have "n < t" by (cases "t \<le> n") auto
  moreover have "t = n + 1 \<Longrightarrow> data ! (n + 1) = LF" using t by (simp add: header_end_def)
  ultimately show "r \<le> t" using assms(4) by (cases "t = n + 1") auto
qed

lemma find_http_loop_spec:
  assumes "scan_inv data pos"
  shows "find_http_loop data pos = (if \<exists>t. header_end data t then LEAST t. header_end data t else 0)"
  using assms
proof (induction data pos rule: find_http_loop.induct)
  case (1 data pos)
  note inv = "1.prems"
  show ?case
  proof (cases "strchr data pos LF")
    case None
    with scan_no_newline[OF inv] show ?thesis by (simp add: find_http_loop.simps)
  next
    case (Some n)
    note s = scan_newline[OF inv Some]
    consider (lf) "data ! (n + 1) = LF" | (crlf) "data ! (n + 1) = CR" "data ! (n + 2) = LF" "data ! (n + 1) \<noteq> LF"
      | (go) "data ! (n + 1) \<noteq> LF" "\<not> (data ! (n + 1) = CR \<and> data ! (n + 2) = LF)" by blast
    then show ?thesis
    proof cases
      case lf
      then have h: "header_end data (n + 1)" using s by (simp add: header_end_def less_Suc_eq_le)
      with scan_result[OF inv Some h] Some lf show ?thesis by (auto simp: find_http_loop.simps[of data pos])
    next
      case crlf
      have nz: "data ! k \<noteq> 0" if "k \<le> n + 1" for k
        using s(3)[of k] that crlf(1) by (cases "k \<le> n"; cases "k = n + 1") (auto simp: CR_def)
      then have "n + 2 < length data"
        using zero_after[of data "n + 1"] inv by (simp add: scan_inv_def)
      with nz have h: "header_end data (n + 2)" using crlf s(2) by (simp add: header_end_def less_Suc_eq_le)
      with scan_result[OF inv Some h] Some crlf show ?thesis
        by (auto simp: find_http_loop.simps[of data pos] numeral_2_eq_2)
    next
      case go
      have "\<not> header_end data t" if "t \<le> n + 1" for t
        using that s(4)[of t] go(1) by (cases "t = n + 1") (auto simp: header_end_def)
      then have inv': "scan_inv data (n + 1)"
        using inv s(1-3) go by (simp add: scan_inv_def less_Suc_eq_le numeral_2_eq_2)
      have "find_http_loop data pos = find_http_loop data (n + 1)"
        using Some go by (auto simp: find_http_loop.simps[of data pos] numeral_2_eq_2)
      with "1.IH"[OF Some refl go(1) _ inv'] go(2) show ?thesis by (simp add: numeral_2_eq_2)
    qed
  qed
qed

lemma skip_blanks_spec: "skip_blanks xs = dropWhile (\<lambda>c. c = SPACE \<or> c = TAB) xs"
  by (induction xs) (auto simp: SPACE_def TAB_def)

lemma copy_url_spec: "copy_url xs room = take room (takeWhile (\<lambda>c. c \<noteq> 0 \<and> c \<noteq> SPACE) xs)"
  by (induction xs room rule: copy_url.induct) (auto simp: take_Cons')

lemma length_http_get_url: "length (http_get_url data n) \<le> n - 1"
  by (simp add: http_get_url_def copy_url_spec)

lemma http_get_url_nonzero: "0 \<notin> set (http_get_url data n)"
  by (auto simp: http_get_url_def copy_url_spec dest!: in_set_takeD set_takeWhileD)


section \<open>Properties\<close>

text \<open>\<open>find_http_header\<close> writes the terminating zero and returns the offset of the
  first header end (an empty line, with or without carriage return) of the string, or
  zero when the string contains none.\<close>

theorem find_http_header_first:
  assumes "len < length data" "data' = data[len := 0]"
  shows "find_http_header data len =
    (data', if \<exists>t. header_end data' t then LEAST t. header_end data' t else 0)"
proof -
  have "data' ! len = 0" "len < length data'" using assms by simp_all
  then have "scan_inv data' 0" by (auto simp: scan_inv_def header_end_def)
  moreover have "find_http_header data len = (data', find_http_loop data' 0)"
    by (simp add: find_http_header_def assms(2) Let_def)
  ultimately show ?thesis by (simp only: find_http_loop_spec)
qed

definition demo_request :: bytes where
  "demo_request = str ''GET /a HTTP/1.1'' @ [CR, LF, CR, LF]"

theorem find_http_header_first_witness:
  "(LEAST t. header_end (demo_request @ [0]) t) = 18"
proof -
  have e: "(demo_request @ [9])[19 := 0] = demo_request @ [0]" "find_http_header (demo_request @ [9]) 19 = (demo_request @ [0], 18)"
    by code_simp+
  have l: "19 < length (demo_request @ [9])" by code_simp
  from find_http_header_first[OF l refl] e show ?thesis by (auto split: if_splits)
qed

text \<open>The URL of a request line comes back unchanged: for every method of three
  characters, any number of blanks, and a URL without blank and zero byte that fits the
  buffer, \<open>http_get_url\<close> returns the URL.\<close>

theorem http_get_url_roundtrip:
  assumes "length method = 3" "\<forall>c \<in> set blanks. c = SPACE \<or> c = TAB"
    and "\<forall>c \<in> set url. c \<noteq> 0 \<and> c \<noteq> SPACE" "url = [] \<or> hd url \<noteq> TAB" "length url < value_len"
    and "url = [] \<longrightarrow> blanks = []"
  shows "http_get_url (method @ blanks @ url @ (if url = [] then 0 else SPACE) # rest) value_len = url"
proof -
  have drop: "dropWhile (\<lambda>c. c = SPACE \<or> c = TAB) (blanks @ xs) = dropWhile (\<lambda>c. c = SPACE \<or> c = TAB) xs" for xs
    using assms(2) by (induction blanks) auto
  show ?thesis
  proof (cases url)
    case Nil
    with assms(1,6) show ?thesis
      by (simp add: http_get_url_def skip_blanks_spec copy_url_spec SPACE_def TAB_def)
  next
    case (Cons u us)
    with assms(3,4) have "dropWhile (\<lambda>c. c = SPACE \<or> c = TAB) (url @ SPACE # rest) = url @ SPACE # rest" by simp
    moreover have "takeWhile (\<lambda>c. c \<noteq> 0 \<and> c \<noteq> SPACE) (url @ SPACE # rest) = url"
      using assms(3) by (induction url) auto
    ultimately show ?thesis
      using assms(1,5) Cons drop[of "url @ SPACE # rest"]
      by (simp add: http_get_url_def skip_blanks_spec copy_url_spec)
  qed
qed

theorem http_get_url_roundtrip_witness:
  "http_get_url (str ''GET /index.html HTTP/1.1'') 256 = str ''/index.html''"
proof -
  have e: "str ''GET /index.html HTTP/1.1'' = str ''GET'' @ [SPACE] @ str ''/index.html'' @
      (if str ''/index.html'' = [] then 0 else SPACE) # str ''HTTP/1.1''" by code_simp
  show ?thesis unfolding e
    by (rule http_get_url_roundtrip) code_simp+
qed

end
