(* ===== verification/Host_Http.thy ===== *)
theory Host_Http
  imports Host_Meta Http_Text
begin

text \<open>
  Requests and responses of the web server, \<^verbatim>\<open>src/host/custom_server/src/main.c\<close> (the part
  ``for control flow'') and \<^verbatim>\<open>reset_conn_for_next_req\<close> of \<^verbatim>\<open>helpers.c\<close>.

  Each function maps the connection object and the world.  \<open>None\<close> is undefined behaviour
  (a null pointer passed to a string conversion) or a loop that does not end.  The kernel
  advances the file offset passed to \<^verbatim>\<open>sendfile\<close> by the number of bytes sent.
\<close>


section \<open>Receiving\<close>

record file_cache =
  fc_name :: bytes
  fc_fullname :: bytes
  fc_size :: nat
  fc_file :: bytes
  fc_fd :: int

text \<open>The loop over the control messages: a close notification or a handshake record
  ends it.\<close>

fun scan_cmsg :: "int \<Rightarrow> bytes \<Rightarrow> cmsg list \<Rightarrow> req_handler_result option" where
  "scan_cmsg received data [] = None"
| "scan_cmsg received data (c # cs) =
    (case c of
       Cmsg_tls_record_type t \<Rightarrow>
         if t = 0x15 \<and> received = 2 \<and> data ! 0 = 0x01 \<and> data ! 1 = 0x00 then Some RECV_CLOSE_NOTIFY
         else if t = 0x16 \<or> t = 0x14 then Some RECV_TLS
         else scan_cmsg received data cs
     | Cmsg_other \<Rightarrow> scan_cmsg received data cs)"

fun find_file :: "bytes \<Rightarrow> file_cache list \<Rightarrow> nat \<Rightarrow> (nat \<times> file_cache) option" where
  "find_file fname [] i = None"
| "find_file fname (f # fs) i = (if fname = fc_fullname f then Some (i, f) else find_file fname fs (i + 1))"

text \<open>The part after the end of the header has been seen: connection handling, URL and
  file lookup.\<close>

definition handle_request :: "file_cache list \<Rightarrow> bytes \<Rightarrow> conn_state \<Rightarrow> conn_state" where
  "handle_request fcache www_main conn =
    (let conn = conn\<lparr> keep_alive := (if strstr (req_buf conn) (str ''connection: close'') then 0 else 1) \<rparr>;
         url = http_get_url (req_buf conn) URL_LEN;
         path_len = length (www_main @ url);
         req_fname = take (NAME_LIMIT - 1) (www_main @ url)
     in if path_len \<ge> NAME_LIMIT then conn\<lparr> scode := 414 \<rparr>
        else case find_file req_fname fcache 0 of
               Some (i, f) \<Rightarrow> conn\<lparr> file_idx := int i, file_size := fc_size f, scode := 200 \<rparr>
             | None \<Rightarrow> conn\<lparr> scode := 404 \<rparr>)"

definition handle_received_pkt ::
  "file_cache list \<Rightarrow> bytes \<Rightarrow> int \<Rightarrow> conn_state \<Rightarrow> world \<Rightarrow> req_handler_result \<times> conn_state \<times> world" where
  "handle_received_pkt fcache www_main sock conn w =
    (let (r, w) = sys (Sys_recvmsg sock) w; received = rv r;
         conn = conn\<lparr> recv_bytes := recv_bytes conn + received \<rparr>
     in if received < 0 then (if rerr r = EAGAIN then RECV_CONTINUE else RECV_ERR, conn, w)
        else if received = 0 then (RECV_FIN, conn, w)
        else case scan_cmsg received (rdata r) (rcmsg r) of
          Some res \<Rightarrow> (res, conn, w)
        | None \<Rightarrow>
            let space_left = int HTTP_HEADER_LEN - int (req_len conn) - 1 in
            if received > space_left then (RECV_OK, conn\<lparr> scode := 414 \<rparr>, w)
            else
              let conn = conn\<lparr> req_buf := blit (req_buf conn) (req_len conn) (rdata r),
                               req_len := req_len conn + nat received \<rparr>;
                  conn = conn\<lparr> req_buf := (req_buf conn)[req_len conn := 0] \<rparr>;
                  (buf, hlen) = find_http_header (req_buf conn) (req_len conn);
                  conn = conn\<lparr> req_buf := buf \<rparr>
              in if hlen = 0 then (RECV_CONTINUE, conn, w)
                 else (RECV_OK, handle_request fcache www_main conn, w))"


section \<open>Sending\<close>

definition init_send_state :: "conn_state \<Rightarrow> conn_state" where
  "init_send_state conn =
     conn\<lparr> hdr_sent := False, hdr_offset := 0, hdr_remain := hdr_len conn,
           resp_fd := - 1, resp_offset := 0, resp_remain := 0 \<rparr>"

definition reset_conn_for_next_req :: "conn_state \<Rightarrow> conn_state" where
  "reset_conn_for_next_req conn =
    (let conn = conn\<lparr> req_len := 0, hdr_sent := False, hdr_len := 0, hdr_offset := 0, hdr_remain := 0,
                      scode := 0, file_idx := - 1, file_size := 0 \<rparr>;
         conn = (if resp_fd conn \<ge> 0 then conn\<lparr> resp_fd := - 1 \<rparr> else conn)
     in conn\<lparr> resp_offset := 0, resp_remain := 0, req_buf := replicate HTTP_HEADER_LEN 0 \<rparr>)"

definition send_server_records :: "conn_state \<Rightarrow> world \<Rightarrow> int \<times> world" where
  "send_server_records conn w =
    (let (r, w) = sys (Sys_send (sock_fd conn) (seg 0 (nat (record_len conn)) (sccs_sf_buf conn))) w
     in if rv r < 0 then (if rerr r = EAGAIN \<or> rerr r = EINTR then 0 else - 1, w) else (1, w))"

text \<open>Writing the response header into its buffer, for a header not yet built.\<close>

definition build_header :: "conn_state \<Rightarrow> world \<Rightarrow> (bool \<times> conn_state \<times> world) option" where
  "build_header conn w =
    (let (t, w) = sys Sys_clock w;
         date = http_date (nat (fst (timespec_of t)))
     in case scode_2_str (scode conn) of
          None \<Rightarrow> None
        | Some reason \<Rightarrow>
            let text = http_header_text (nat (scode conn)) reason date (file_size conn) (keep_alive conn \<noteq> 0);
                conn = conn\<lparr> hdr_buf := blit (hdr_buf conn) 0 (take (HTTP_HEADER_LEN - 1) text @ [0]) \<rparr>
            in if length text \<ge> HTTP_HEADER_LEN then Some (False, conn, w)
               else Some (True, conn\<lparr> hdr_len := length text, hdr_offset := 0, hdr_remain := length text \<rparr>, w))"

definition send_header_rest :: "int \<Rightarrow> conn_state \<Rightarrow> world \<Rightarrow> int \<times> conn_state \<times> world" where
  "send_header_rest sock conn w =
    (let (r, w) = sys (Sys_send sock (seg (hdr_offset conn) (hdr_remain conn) (hdr_buf conn))) w; sent = rv r
     in if sent < 0 then (if rerr r = EAGAIN \<or> rerr r = EINTR then 0 else - 1, conn, w)
        else let conn = conn\<lparr> hdr_remain := hdr_remain conn - nat sent, hdr_offset := hdr_offset conn + nat sent \<rparr>
             in if hdr_remain conn = 0 then (1, conn\<lparr> hdr_sent := True \<rparr>, w) else (0, conn, w))"

definition send_https_header :: "int \<Rightarrow> conn_state \<Rightarrow> world \<Rightarrow> (int \<times> conn_state \<times> world) option" where
  "send_https_header sock conn w =
    (if hdr_sent conn then Some (1, conn, w)
     else if hdr_len conn = 0 then
       (case build_header conn w of
          None \<Rightarrow> None
        | Some (ok, conn, w) \<Rightarrow> if ok then Some (send_header_rest sock conn w) else Some (- 1, conn, w))
     else Some (send_header_rest sock conn w))"

partial_function (option) sendfile_loop :: "int \<Rightarrow> conn_state \<Rightarrow> world \<Rightarrow> (int \<times> conn_state \<times> world) option" where
  "sendfile_loop sock conn w =
    (if resp_remain conn > 0 then
       let (r, w) = sys (Sys_sendfile sock (resp_fd conn) (resp_offset conn) (resp_remain conn)) w; sent = rv r in
       if sent > 0 then
         sendfile_loop sock (conn\<lparr> resp_offset := resp_offset conn + nat sent,
                                   resp_remain := resp_remain conn - nat sent \<rparr>) w
       else if sent = - 1 then Some (if rerr r = EAGAIN \<or> rerr r = EINTR then 0 else - 1, conn, w)
       else sendfile_loop sock conn w
     else Some (1, conn, w))"

definition send_file_content ::
  "file_cache list \<Rightarrow> int \<Rightarrow> conn_state \<Rightarrow> world \<Rightarrow> (int \<times> conn_state \<times> world) option" where
  "send_file_content fcache sock conn w =
    (if scode conn = 200 then
       let f = fcache ! nat (file_idx conn);
           conn = (if resp_remain conn = 0 then conn\<lparr> resp_offset := 0, resp_remain := fc_size f \<rparr> else conn)
       in if resp_remain conn > 0 then
            if int (fc_size f) > FILE_SIZE_THRESHOLD then
              let conn = (if resp_fd conn < 0 then conn\<lparr> resp_fd := fc_fd f \<rparr> else conn) in
              if resp_fd conn < 0 then Some (- 1, conn, w)
              else sendfile_loop sock conn w
            else
              let (r, w) = sys (Sys_send sock (seg (resp_offset conn) (resp_remain conn) (fc_file f))) w; sent = rv r in
              if sent > 0 then
                Some (1, conn\<lparr> resp_remain := resp_remain conn - nat sent,
                               resp_offset := resp_offset conn + nat sent \<rparr>, w)
              else if sent = - 1 then Some (if rerr r = EAGAIN \<or> rerr r = EINTR then 0 else - 1, conn, w)
              else Some (1, conn, w)
          else Some (1, conn, w)
     else Some (1, conn, w))"

definition handle_persist_conn_after_resp_sent :: "conn_state \<Rightarrow> world \<Rightarrow> int \<times> conn_state \<times> world" where
  "handle_persist_conn_after_resp_sent conn w =
    (let (r, w) = sys (Sys_setsockopt (sock_fd conn) TCP_CORK (Opt_int 0)) w;
         (r, w) = sys (Sys_setsockopt (sock_fd conn) TCP_CORK (Opt_int 1)) w
     in (1, reset_conn_for_next_req conn, w))"

definition handle_ephe_conn_after_resp_sent :: "int \<Rightarrow> conn_state \<Rightarrow> world \<Rightarrow> int \<times> conn_state \<times> world" where
  "handle_ephe_conn_after_resp_sent sock conn w =
    (let (r, w) = sys (Sys_sendmsg sock 0x15 [0x01, 0x00]) w in
     if rv r < 0 then (if rerr r = EAGAIN \<or> rerr r = EINTR then 0 else - 1, conn, w)
     else let (r, w) = sys (Sys_setsockopt sock TCP_CORK (Opt_int 0)) w in (1, conn, w))"

text \<open>After the header: the file, and the end of the response.\<close>

definition finish_resp :: "int \<Rightarrow> conn_state \<Rightarrow> world \<Rightarrow> int \<times> conn_state \<times> world" where
  "finish_resp sock conn w =
    (let conn = conn\<lparr> resp_fd := - 1 \<rparr>;
         (ret, conn, w) = (if keep_alive conn = 0 then handle_ephe_conn_after_resp_sent sock conn w
                           else handle_persist_conn_after_resp_sent conn w)
     in if ret \<noteq> 1 then (ret, conn, w) else (0, conn, w))"

definition send_resp_body ::
  "file_cache list \<Rightarrow> int \<Rightarrow> conn_state \<Rightarrow> world \<Rightarrow> (int \<times> conn_state \<times> world) option" where
  "send_resp_body fcache sock conn w = do {
     (ret, conn, w) \<leftarrow> send_file_content fcache sock conn w;
     if ret \<noteq> 1 then Some (ret, conn, w)
     else if resp_remain conn = 0 then Some (finish_resp sock conn w)
     else Some (0, conn, w)
   }"

definition send_https_resp ::
  "file_cache list \<Rightarrow> int \<Rightarrow> conn_state \<Rightarrow> world \<Rightarrow> (int \<times> conn_state \<times> world) option" where
  "send_https_resp fcache sock conn w = do {
     (ret, conn, w) \<leftarrow> send_https_header sock conn w;
     if ret \<noteq> 1 then Some (ret, conn, w)
     else if hdr_sent conn then send_resp_body fcache sock conn w
     else Some (0, conn, w)
   }"


section \<open>Receiving a request in pieces\<close>

text \<open>The request buffer holds exactly the bytes \<open>d\<close> received since the last reset.\<close>

definition recv_state :: "bytes \<Rightarrow> conn_state \<Rightarrow> bool" where
  "recv_state d conn \<longleftrightarrow> length d < HTTP_HEADER_LEN \<and> req_len conn = length d \<and>
     req_buf conn = d @ replicate (HTTP_HEADER_LEN - length d) 0"

text \<open>A result of \<^verbatim>\<open>recvmsg\<close> that carries application data.\<close>

definition data_result :: "sysret \<Rightarrow> bool" where
  "data_result r \<longleftrightarrow> 0 < rv r \<and> rv r = int (length (rdata r)) \<and>
     (\<forall>t. Cmsg_tls_record_type t \<in> set (rcmsg r) \<longrightarrow> t \<noteq> 0x14 \<and> t \<noteq> 0x15 \<and> t \<noteq> 0x16)"

lemma scan_cmsg_data:
  "\<forall>t. Cmsg_tls_record_type t \<in> set cs \<longrightarrow> t \<noteq> 0x14 \<and> t \<noteq> 0x15 \<and> t \<noteq> 0x16 \<Longrightarrow> scan_cmsg n d cs = None"
  by (induction cs) (auto split: cmsg.splits)

text \<open>Only what lies before the terminating zero matters for the end of the header.\<close>

lemma header_end_zeros:
  "header_end (d @ replicate (Suc m) 0) t \<longleftrightarrow> header_end (d @ [0]) t"
proof -
  have "header_end (d @ 0 # z) t \<longleftrightarrow> header_end (d @ [0]) t" for z
  proof (cases "t \<le> length d")
    case True
    then have n: "(d @ 0 # z) ! k = (d @ [0]) ! k" if "k \<le> t" for k
      using that by (auto simp: nth_append)
    have "(\<forall>k<t. (d @ 0 # z) ! k \<noteq> 0) = (\<forall>k<t. (d @ [0]) ! k \<noteq> 0)" using n by auto
    then show ?thesis
      using True n[of t] n[of "t - 1"] n[of "t - 2"] by (simp add: header_end_def)
  next
    case False
    then have "\<not> (\<forall>k < t. (d @ 0 # z) ! k \<noteq> 0)" by (auto intro!: exI[of _ "length d"])
    then show ?thesis using False by (auto simp: header_end_def)
  qed
  then show ?thesis by (simp only: replicate_Suc)
qed

lemma find_http_header_buf:
  assumes "length d < HTTP_HEADER_LEN"
  shows "find_http_header (d @ replicate (HTTP_HEADER_LEN - length d) 0) (length d) =
    (d @ replicate (HTTP_HEADER_LEN - length d) 0,
     if \<exists>t. header_end (d @ [0]) t then LEAST t. header_end (d @ [0]) t else 0)"
proof -
  obtain m where m: "HTTP_HEADER_LEN - length d = Suc m" using assms by (cases "HTTP_HEADER_LEN - length d") auto
  let ?b = "d @ replicate (Suc m) (0 :: u8)"
  have z: "?b[length d := 0] = ?b" by (simp add: list_update_append)
  have "scan_inv ?b 0" by (auto simp: scan_inv_def header_end_def nth_append intro!: exI[of _ "length d"])
  moreover have "find_http_header ?b (length d) = (?b, find_http_loop ?b 0)"
    unfolding find_http_header_def z Let_def ..
  ultimately show ?thesis unfolding m by (simp only: find_http_loop_spec header_end_zeros)
qed

lemma header_end_pos: "header_end d t \<Longrightarrow> 0 < t"
  by (auto simp: header_end_def)

lemma header_end_search: "(\<exists>t. header_end (d @ [0]) t) \<longleftrightarrow> find_http_loop (d @ [0]) 0 \<noteq> 0"
proof -
  have "scan_inv (d @ [0]) 0" by (auto simp: scan_inv_def header_end_def)
  note spec = find_http_loop_spec[OF this]
  show ?thesis
  proof (cases "\<exists>t. header_end (d @ [0]) t")
    case True
    from header_end_pos[OF LeastI_ex[OF this]] True show ?thesis by (simp add: spec)
  qed (simp add: spec)
qed

lemma recv_chunk:
  fixes d conn w sock fcache www
  assumes st: "recv_state d conn" and r: "data_result (w_env w (w_n w))"
    and fits: "length (d @ rdata (w_env w (w_n w))) < HTTP_HEADER_LEN"
  defines "d' \<equiv> d @ rdata (w_env w (w_n w))"
    and "w' \<equiv> snd (sys (Sys_recvmsg sock) w)"
    and "conn' \<equiv> conn\<lparr> recv_bytes := recv_bytes conn + rv (w_env w (w_n w)),
        req_len := length (d @ rdata (w_env w (w_n w))),
        req_buf := (d @ rdata (w_env w (w_n w))) @
          replicate (HTTP_HEADER_LEN - length (d @ rdata (w_env w (w_n w)))) 0 \<rparr>"
  shows "handle_received_pkt fcache www sock conn w =
    (if \<exists>t. header_end (d' @ [0]) t then (RECV_OK, handle_request fcache www conn', w')
     else (RECV_CONTINUE, conn', w'))" and "recv_state d' conn'"
proof -
  let ?r = "w_env w (w_n w)"
  have l: "length d' < HTTP_HEADER_LEN" using fits by (simp add: d'_def)
  show "recv_state d' conn'" using l by (simp add: recv_state_def conn'_def d'_def)
  have b: "blit (req_buf conn) (req_len conn) (rdata ?r) = d' @ replicate (HTTP_HEADER_LEN - length d') 0"
    using st fits by (simp add: recv_state_def d'_def blit_def)
  have z: "(d' @ replicate (HTTP_HEADER_LEN - length d') 0)[length d' := 0] =
      d' @ replicate (HTTP_HEADER_LEN - length d') 0"
    using l by (cases "HTTP_HEADER_LEN - length d'") (simp_all add: list_update_append)
  have n: "req_len conn + nat (rv ?r) = length d'" using st r by (simp add: recv_state_def data_result_def d'_def)
  have c: "scan_cmsg (rv ?r) (rdata ?r) (rcmsg ?r) = None" using r by (intro scan_cmsg_data) (simp add: data_result_def)
  have sp: "\<not> rv ?r > int HTTP_HEADER_LEN - int (req_len conn) - 1"
    using st r fits by (auto simp: recv_state_def data_result_def)
  have pos: "\<not> rv ?r < 0" "rv ?r \<noteq> 0" using r by (auto simp: data_result_def)
  have hl: "(if \<exists>t. header_end (d' @ [0]) t then LEAST t. header_end (d' @ [0]) t else 0) = 0 \<longleftrightarrow>
      \<not> (\<exists>t. header_end (d' @ [0]) t)"
  proof (cases "\<exists>t. header_end (d' @ [0]) t")
    case True
    from header_end_pos[OF LeastI_ex[OF this]] True show ?thesis by simp
  qed simp
  have c': "conn' = conn\<lparr> recv_bytes := recv_bytes conn + rv ?r,
      req_len := length d', req_buf := d' @ replicate (HTTP_HEADER_LEN - length d') 0 \<rparr>"
    by (simp add: conn'_def d'_def)
  show "handle_received_pkt fcache www sock conn w =
    (if \<exists>t. header_end (d' @ [0]) t then (RECV_OK, handle_request fcache www conn', w')
     else (RECV_CONTINUE, conn', w'))"
    using pos sp hl unfolding c'
    by (simp add: handle_received_pkt_def case_prod_beta Let_def w'_def c b n z find_http_header_buf[OF l])
qed

text \<open>The worker calls the handler once per readable event, until it does not ask for more.\<close>

fun recv_run ::
  "nat \<Rightarrow> file_cache list \<Rightarrow> bytes \<Rightarrow> int \<Rightarrow> conn_state \<Rightarrow> world \<Rightarrow> req_handler_result \<times> conn_state \<times> world" where
  "recv_run 0 fcache www sock conn w = (RECV_CONTINUE, conn, w)"
| "recv_run (Suc n) fcache www sock conn w =
    (case handle_received_pkt fcache www sock conn w of
       (RECV_CONTINUE, conn, w) \<Rightarrow> recv_run n fcache www sock conn w
     | (r, conn, w) \<Rightarrow> (r, conn, w))"

text \<open>The bytes delivered by the next \<open>n\<close> calls.\<close>

definition chunks :: "nat \<Rightarrow> world \<Rightarrow> bytes" where
  "chunks n w = concat (map (\<lambda>i. rdata (w_env w (w_n w + i))) [0..<n])"

lemma chunks_Suc: "chunks (Suc n) w = rdata (w_env w (w_n w)) @ chunks n (snd (sys c w))"
proof -
  have "[0..<Suc n] = 0 # map Suc [0..<n]" by (simp add: map_Suc_upt upt_conv_Cons)
  then show ?thesis by (simp add: chunks_def comp_def)
qed

lemma recv_run_chunks:
  assumes "recv_state d conn" "\<forall>i < n. data_result (w_env w (w_n w + i))"
    and "length (d @ chunks n w) < HTTP_HEADER_LEN"
    and "0 < n" "\<forall>m < n. \<not> (\<exists>t. header_end (d @ chunks m w @ [0]) t)"
    and "\<exists>t. header_end (d @ chunks n w @ [0]) t"
  shows "\<exists>conn' w'. recv_run n fcache www sock conn w = (RECV_OK, handle_request fcache www conn', w') \<and>
    recv_state (d @ chunks n w) conn' \<and> w_n w' = w_n w + n \<and> sock_fd conn' = sock_fd conn"
  using assms
proof (induction n arbitrary: d conn w)
  case (Suc n)
  let ?r = "w_env w (w_n w)" and ?w = "snd (sys (Sys_recvmsg sock) w)"
  let ?d = "d @ rdata ?r"
  have r: "data_result ?r" using Suc.prems(2) by (metis add.right_neutral zero_less_Suc)
  have dd: "d @ chunks (Suc n) w = ?d @ chunks n ?w" by (simp add: chunks_Suc[of n w "Sys_recvmsg sock"])
  have fits: "length ?d < HTTP_HEADER_LEN" using Suc.prems(3) unfolding dd by simp
  note c = recv_chunk(1)[OF Suc.prems(1) r fits, where fcache = fcache and www = www and sock = sock]
    recv_chunk(2)[OF Suc.prems(1) r fits]
  define conn' where "conn' = conn\<lparr> recv_bytes := recv_bytes conn + rv ?r,
        req_len := length ?d, req_buf := ?d @ replicate (HTTP_HEADER_LEN - length ?d) 0 \<rparr>"
  show ?case
  proof (cases n)
    case 0
    then have e: "d @ chunks (Suc n) w = ?d" by (simp add: dd chunks_def)
    have "\<exists>t. header_end (?d @ [0]) t" using Suc.prems(6) e by (simp flip: append_assoc)
    then have "handle_received_pkt fcache www sock conn w = (RECV_OK, handle_request fcache www conn', ?w)"
      using c(1) by (simp add: conn'_def)
    moreover have "recv_state ?d conn'" using c(2) by (simp add: conn'_def)
    ultimately show ?thesis using 0 e by (intro exI[of _ conn'] exI[of _ ?w]) (simp add: conn'_def)
  next
    case (Suc m)
    have "\<not> (\<exists>t. header_end (?d @ [0]) t)"
      using Suc.prems(5)[rule_format, of 1] Suc by (simp add: chunks_def)
    then have h: "handle_received_pkt fcache www sock conn w = (RECV_CONTINUE, conn', ?w)"
      using c(1) by (simp add: conn'_def)
    have st: "recv_state ?d conn'" using c(2) by (simp add: conn'_def)
    have "\<exists>conn'' w'. recv_run n fcache www sock conn' ?w = (RECV_OK, handle_request fcache www conn'', w') \<and>
      recv_state (?d @ chunks n ?w) conn'' \<and> w_n w' = w_n ?w + n \<and> sock_fd conn'' = sock_fd conn'"
    proof (rule Suc.IH[OF st])
      show "\<forall>i<n. data_result (w_env ?w (w_n ?w + i))"
        using Suc.prems(2) by (auto dest: spec[of _ "Suc _"])
      show "length (?d @ chunks n ?w) < HTTP_HEADER_LEN" using Suc.prems(3) unfolding dd .
      show "0 < n" using Suc by simp
      show "\<forall>m<n. \<not> (\<exists>t. header_end (?d @ chunks m ?w @ [0]) t)"
      proof (intro allI impI)
        fix m assume "m < n"
        with Suc.prems(5)[rule_format, of "Suc m"] show "\<not> (\<exists>t. header_end (?d @ chunks m ?w @ [0]) t)"
          by (simp add: chunks_Suc[of _ w "Sys_recvmsg sock"])
      qed
      show "\<exists>t. header_end (?d @ chunks n ?w @ [0]) t"
        using Suc.prems(6) by (simp add: chunks_Suc[of _ w "Sys_recvmsg sock"])
    qed
    then show ?thesis using h dd by (auto simp: conn'_def)
  qed
qed simp

lemma find_file_least:
  "find_file name fs i =
    (if \<exists>j < length fs. fc_fullname (fs ! j) = name
     then let j = (LEAST j. j < length fs \<and> fc_fullname (fs ! j) = name) in Some (i + j, fs ! j)
     else None)"
proof (induction fs arbitrary: i)
  case (Cons f fs)
  show ?case
  proof (cases "fc_fullname f = name")
    case True
    then have "(LEAST j. j < length (f # fs) \<and> fc_fullname ((f # fs) ! j) = name) = 0"
      by (intro Least_equality) auto
    with True show ?thesis by (auto simp: Let_def intro!: exI[of _ 0])
  next
    case False
    have ex: "(\<exists>j < length (f # fs). fc_fullname ((f # fs) ! j) = name) \<longleftrightarrow>
        (\<exists>j < length fs. fc_fullname (fs ! j) = name)"
      using False by (auto simp: less_Suc_eq_0_disj)
    have "(LEAST j. j < length (f # fs) \<and> fc_fullname ((f # fs) ! j) = name) =
        Suc (LEAST j. j < length fs \<and> fc_fullname (fs ! j) = name)"
      if "j < length fs" "fc_fullname (fs ! j) = name" for j
      using Least_Suc[of "\<lambda>j. j < length (f # fs) \<and> fc_fullname ((f # fs) ! j) = name" "Suc j"] that False
      by simp
    with ex False Cons.IH[of "i + 1"] show ?thesis by (auto simp: Let_def)
  qed
qed simp


section \<open>Properties\<close>


definition piece :: "bytes \<Rightarrow> sysret" where
  "piece d = ret_ok\<lparr> rv := int (length d), rdata := d \<rparr>"

definition piece_env :: "nat \<Rightarrow> sysret" where
  "piece_env n = (if n = 0 then piece (str ''GET /a HT'') else piece (str ''TP/1.1'' @ [CR, LF, CR, LF]))"

definition demo_file :: "string \<Rightarrow> nat \<Rightarrow> file_cache" where
  "demo_file name n = \<lparr> fc_name = str name, fc_fullname = str ''www/'' @ str name, fc_size = n,
     fc_file = replicate n 65, fc_fd = 9 \<rparr>"



section \<open>What reaches the client\<close>

text \<open>The bytes the kernel accepted on a socket: a prefix of what a \<^verbatim>\<open>send\<close> offered, or a
  piece of the file behind a descriptor.  \<open>file\<close> gives the content behind a descriptor.\<close>

definition accepted :: "(int \<Rightarrow> bytes) \<Rightarrow> int \<Rightarrow> syscall \<Rightarrow> sysret \<Rightarrow> bytes" where
  "accepted file sock c r =
    (case c of
       Sys_send s b \<Rightarrow> if s = sock then take (nat (rv r)) b else []
     | Sys_sendfile s fd off cnt \<Rightarrow> if s = sock then seg off (nat (rv r)) (file fd) else []
     | _ \<Rightarrow> [])"

definition delivered :: "(int \<Rightarrow> bytes) \<Rightarrow> int \<Rightarrow> world \<Rightarrow> bytes" where
  "delivered file sock w = concat (map (\<lambda>i. accepted file sock (w_out w ! i) (w_env w i)) [0..<w_n w])"

definition trace_wf :: "world \<Rightarrow> bool" where
  "trace_wf w \<longleftrightarrow> length (w_out w) = w_n w"

lemma trace_wf_sys [simp]: "trace_wf w \<Longrightarrow> trace_wf (snd (sys c w))"
  by (simp add: trace_wf_def)

lemma delivered_sys:
  assumes "trace_wf w"
  shows "delivered file sock (snd (sys c w)) = delivered file sock w @ accepted file sock c (w_env w (w_n w))"
proof -
  have "map (\<lambda>i. accepted file sock ((w_out w @ [c]) ! i) (w_env w i)) [0..<w_n w] =
      map (\<lambda>i. accepted file sock (w_out w ! i) (w_env w i)) [0..<w_n w]"
    using assms by (intro map_cong) (auto simp: trace_wf_def nth_append)
  moreover have "(w_out w @ [c]) ! w_n w = c" using assms by (simp add: trace_wf_def nth_append)
  ultimately show ?thesis by (simp add: delivered_def del: map_eq_conv)
qed

text \<open>The kernel never accepts more than it is offered and \<^verbatim>\<open>sendfile\<close> makes progress or
  fails.\<close>

definition send_bounded :: "world \<Rightarrow> bool" where
  "send_bounded w \<longleftrightarrow> (\<forall>i < w_n w. (case w_out w ! i of
       Sys_send s b \<Rightarrow> rv (w_env w i) \<le> int (length b)
     | Sys_sendfile s fd off cnt \<Rightarrow> rv (w_env w i) \<le> int cnt
     | _ \<Rightarrow> True))"

text \<open>A later world extends an earlier one.\<close>

definition extends :: "world \<Rightarrow> world \<Rightarrow> bool" where
  "extends w w' \<longleftrightarrow> trace_wf w \<and> trace_wf w' \<and> w_env w' = w_env w \<and> (\<exists>cs. w_out w' = w_out w @ cs)"

lemma extends_refl [simp]: "trace_wf w \<Longrightarrow> extends w w"
  by (simp add: extends_def)

lemma extends_sys [simp]: "trace_wf w \<Longrightarrow> extends w (snd (sys c w))"
  by (simp add: extends_def)

lemma extends_trans: "extends w w' \<Longrightarrow> extends w' w'' \<Longrightarrow> extends w w''"
  by (auto simp: extends_def)

lemma send_bounded_extends:
  assumes "extends w w'" "send_bounded w'"
  shows "send_bounded w"
proof -
  from assms(1) obtain cs where cs: "w_out w' = w_out w @ cs" "w_env w' = w_env w" "length (w_out w) = w_n w"
    "w_n w \<le> w_n w'" by (auto simp: extends_def trace_wf_def)
  then have i: "w_out w' ! i = w_out w ! i" if "i < w_n w" for i using that by (simp add: nth_append)
  show ?thesis unfolding send_bounded_def
  proof (intro allI impI, goal_cases)
    case (1 i)
    with assms(2)[unfolded send_bounded_def, rule_format, of i] cs i[of i] show ?case
      by (cases "w_out w ! i") auto
  qed
qed

lemma send_bounded_call:
  assumes "trace_wf w" "extends (snd (sys c w)) w'" "send_bounded w'"
  shows "c = Sys_send s b \<Longrightarrow> rv (w_env w (w_n w)) \<le> int (length b)"
    "c = Sys_sendfile s fd off cnt \<Longrightarrow> rv (w_env w (w_n w)) \<le> int cnt"
proof -
  have "send_bounded (snd (sys c w))" by (rule send_bounded_extends[OF assms(2,3)])
  moreover have "(w_out w @ [c]) ! w_n w = c" using assms(1) by (simp add: trace_wf_def nth_append)
  ultimately show "c = Sys_send s b \<Longrightarrow> rv (w_env w (w_n w)) \<le> int (length b)"
    "c = Sys_sendfile s fd off cnt \<Longrightarrow> rv (w_env w (w_n w)) \<le> int cnt"
    by (auto simp: send_bounded_def)
qed

text \<open>A response under way: the header is partly sent, or the header is sent and the file
  partly.  \<open>base\<close> is what the client had received before.\<close>

definition sending_header :: "(int \<Rightarrow> bytes) \<Rightarrow> int \<Rightarrow> bytes \<Rightarrow> bytes \<Rightarrow> conn_state \<Rightarrow> world \<Rightarrow> bool" where
  "sending_header file sock base text conn w \<longleftrightarrow> trace_wf w \<and> \<not> hdr_sent conn \<and>
     text \<noteq> [] \<and> hdr_len conn = length text \<and> hdr_offset conn + hdr_remain conn = length text \<and>
     seg 0 (length text) (hdr_buf conn) = text \<and> 0 < hdr_remain conn \<and> resp_remain conn = 0 \<and>
     delivered file sock w = base @ take (hdr_offset conn) text"

definition sending_file :: "(int \<Rightarrow> bytes) \<Rightarrow> int \<Rightarrow> bytes \<Rightarrow> bytes \<Rightarrow> conn_state \<Rightarrow> world \<Rightarrow> bool" where
  "sending_file file sock pre content conn w \<longleftrightarrow> trace_wf w \<and> hdr_sent conn \<and>
     resp_offset conn + resp_remain conn = length content \<and> file (resp_fd conn) = content \<and>
     0 \<le> resp_fd conn \<and> delivered file sock w = pre @ take (resp_offset conn) content"

text \<open>Induction over the iterations of the loop.\<close>

abbreviation sendfile_call :: "int \<Rightarrow> conn_state \<Rightarrow> syscall" where
  "sendfile_call sock conn \<equiv> Sys_sendfile sock (resp_fd conn) (resp_offset conn) (resp_remain conn)"

definition sendfile_adv :: "conn_state \<Rightarrow> int \<Rightarrow> conn_state" where
  "sendfile_adv conn sent = (if sent > 0 then conn\<lparr> resp_offset := resp_offset conn + nat sent,
     resp_remain := resp_remain conn - nat sent \<rparr> else conn)"

lemma sendfile_loop_induct [consumes 1, case_names finish fail more]:
  assumes run: "sendfile_loop sock conn w = Some (ret, conn', w')"
    and finish: "\<And>conn w. resp_remain conn = 0 \<Longrightarrow> P conn w 1 conn w"
    and fail: "\<And>conn w ret. 0 < resp_remain conn \<Longrightarrow> rv (w_env w (w_n w)) = - 1 \<Longrightarrow> ret \<in> {0, - 1} \<Longrightarrow>
      P conn w ret conn (snd (sys (sendfile_call sock conn) w))"
    and more: "\<And>conn w ret conn' w'. 0 < resp_remain conn \<Longrightarrow>
      P (sendfile_adv conn (rv (w_env w (w_n w)))) (snd (sys (sendfile_call sock conn) w)) ret conn' w' \<Longrightarrow>
      rv (w_env w (w_n w)) \<noteq> - 1 \<Longrightarrow> P conn w ret conn' w'"
  shows "P conn w ret conn' w'"
proof -
  let ?P = "\<lambda>s conn w (ret, conn', w'). s = sock \<longrightarrow> P conn w ret conn' w'"
  have "?P sock conn w (ret, conn', w')"
  proof (rule sendfile_loop.raw_induct[where P = ?P, OF _ run], goal_cases)
    case (1 loop s conn w res)
    obtain ret conn' w' where res: "res = (ret, conn', w')" by (cases res)
    let ?r = "rv (w_env w (w_n w))"
    show ?case unfolding res
    proof (simp, intro impI)
      assume s: "s = sock"
      consider "resp_remain conn = 0" | "0 < resp_remain conn" "?r = - 1" | "0 < resp_remain conn" "?r \<noteq> - 1" by blast
      then show "P conn w ret conn' w'"
      proof cases
        case 1
        with \<open>_ = Some res\<close> res finish[of conn w] show ?thesis by simp
      next
        case 2
        with \<open>_ = Some res\<close> res s fail[of conn w ret] show ?thesis by (auto simp: case_prod_beta Let_def split: if_splits)
      next
        case 3
        then have "loop sock (sendfile_adv conn ?r) (snd (sys (sendfile_call sock conn) w)) = Some (ret, conn', w')"
          using \<open>_ = Some res\<close> res s by (auto simp: case_prod_beta Let_def sendfile_adv_def split: if_splits)
        from 1(1)[OF this] more[OF 3(1) _ 3(2)] show ?thesis by simp
      qed
    qed
  qed
  then show ?thesis by simp
qed

lemma sendfile_loop_frame:
  assumes "sendfile_loop sock conn w = Some (ret, conn', w')"
  shows "(trace_wf w \<longrightarrow> extends w w') \<and> ret \<in> {0, 1, - 1} \<and> (ret = 1 \<longleftrightarrow> resp_remain conn' = 0) \<and>
    (\<exists>off rem. conn' = conn\<lparr> resp_offset := off, resp_remain := rem \<rparr>)"
  using assms
proof (induction rule: sendfile_loop_induct)
  case (finish conn w)
  have "conn = conn\<lparr> resp_offset := resp_offset conn, resp_remain := resp_remain conn \<rparr>" by simp
  then have "\<exists>off rem. conn = conn\<lparr> resp_offset := off, resp_remain := rem \<rparr>" by blast
  with finish show ?case by simp
next
  case (fail conn w ret)
  have "conn = conn\<lparr> resp_offset := resp_offset conn, resp_remain := resp_remain conn \<rparr>" by simp
  then have "\<exists>off rem. conn = conn\<lparr> resp_offset := off, resp_remain := rem \<rparr>" by blast
  with fail show ?case by auto
next
  case (more conn w ret conn' w')
  then show ?case
    by (auto simp: sendfile_adv_def intro: extends_trans[OF extends_sys] split: if_splits)
qed

lemma sendfile_loop_sends:
  assumes "sendfile_loop sock conn w = Some (ret, conn', w')"
  shows "(trace_wf w \<longrightarrow> extends w w') \<and>
    (sending_file file sock pre content conn w \<longrightarrow> send_bounded w' \<longrightarrow> sending_file file sock pre content conn' w')"
  using assms
proof (induction rule: sendfile_loop_induct)
  case (fail conn w ret)
  then show ?case by (auto simp: sending_file_def delivered_sys accepted_def seg_def)
next
  case (more conn w ret conn' w')
  let ?c = "sendfile_call sock conn" and ?r = "rv (w_env w (w_n w))"
  have ext: "extends (snd (sys ?c w)) w'" "extends w w'" if "trace_wf w"
    using more that by (auto intro: extends_trans[OF extends_sys])
  have "sending_file file sock pre content (sendfile_adv conn ?r) (snd (sys ?c w))"
    if st: "sending_file file sock pre content conn w" and b: "send_bounded w'"
  proof -
    have tw: "trace_wf w" using st by (simp add: sending_file_def)
    have le: "?r \<le> int (resp_remain conn)" by (rule send_bounded_call(2)[OF tw ext(1)[OF tw] b refl])
    have d: "delivered file sock (snd (sys ?c w)) = pre @ take (resp_offset conn + nat ?r) content"
      using st by (simp add: delivered_sys[OF tw] accepted_def seg_def sending_file_def take_add)
    from st tw d le show ?thesis by (auto simp: sending_file_def sendfile_adv_def)
  qed
  with more.IH ext(2) show ?case by blast
qed simp

text \<open>The whole response.  A fresh response has no header yet; the clock is read next, so
  the header text is determined.\<close>

definition fresh_response :: "(int \<Rightarrow> bytes) \<Rightarrow> int \<Rightarrow> bytes \<Rightarrow> bytes \<Rightarrow> conn_state \<Rightarrow> world \<Rightarrow> bool" where
  "fresh_response file sock base text conn w \<longleftrightarrow> \<not> hdr_sent conn \<and> hdr_len conn = 0 \<and> resp_remain conn = 0 \<and>
     delivered file sock w = base \<and> length text < HTTP_HEADER_LEN \<and>
     text = http_header_text 200 (str ''OK'') (http_date (nat (fst (timespec_of (w_env w (w_n w))))))
              (file_size conn) (keep_alive conn \<noteq> 0)"

definition responding ::
  "file_cache list \<Rightarrow> (int \<Rightarrow> bytes) \<Rightarrow> int \<Rightarrow> bytes \<Rightarrow> bytes \<Rightarrow> bytes \<Rightarrow> conn_state \<Rightarrow> world \<Rightarrow> bool" where
  "responding fcache file sock base text content conn w \<longleftrightarrow>
     (let f = fcache ! nat (file_idx conn) in
      trace_wf w \<and> scode conn = 200 \<and> length (hdr_buf conn) = HTTP_HEADER_LEN \<and>
      content \<noteq> [] \<and> fc_size f = length content \<and> file (fc_fd f) = content \<and> 0 \<le> fc_fd f \<and>
      (resp_fd conn < 0 \<and> (fresh_response file sock base text conn w \<or> sending_header file sock base text conn w) \<or>
       resp_fd conn = fc_fd f \<and> 0 < resp_remain conn \<and> sending_file file sock (base @ text) content conn w))"

lemma send_header_rest_step:
  assumes st: "sending_header file sock base text conn w"
    and run: "send_header_rest sock conn w = (ret, conn', w')" and ext: "extends w' w''" and b: "send_bounded w''"
  shows "extends w w' \<and>
    (ret \<in> {0, - 1} \<and> sending_header file sock base text conn' w' \<and>
       (\<exists>rem off. conn' = conn\<lparr> hdr_remain := rem, hdr_offset := off \<rparr>) \<or>
     ret = 1 \<and> delivered file sock w' = base @ text \<and>
       (\<exists>rem off. conn' = conn\<lparr> hdr_remain := rem, hdr_offset := off, hdr_sent := True \<rparr>))"
proof -
  let ?c = "Sys_send sock (seg (hdr_offset conn) (hdr_remain conn) (hdr_buf conn))"
  let ?r = "w_env w (w_n w)"
  have tw: "trace_wf w" using st by (simp add: sending_header_def)
  have w': "w' = snd (sys ?c w)" using run by (auto simp: send_header_rest_def case_prod_beta Let_def split: if_splits)
  have rest: "seg (hdr_offset conn) (hdr_remain conn) (hdr_buf conn) = drop (hdr_offset conn) text"
  proof -
    have "length (drop (hdr_offset conn) text) \<le> hdr_remain conn" using st by (auto simp: sending_header_def)
    then have "drop (hdr_offset conn) text = seg (hdr_offset conn) (hdr_remain conn) (seg 0 (length text) (hdr_buf conn))"
      using st unfolding sending_header_def by (simp add: seg_def)
    also have "\<dots> = seg (0 + hdr_offset conn) (hdr_remain conn) (hdr_buf conn)"
      using st by (intro seg_seg) (simp add: sending_header_def)
    finally show ?thesis by simp
  qed
  have le: "rv ?r \<le> int (hdr_remain conn)"
  proof -
    have "extends (snd (sys ?c w)) w''" using ext by (simp only: w')
    from send_bounded_call(1)[OF tw this b refl] show ?thesis using st unfolding rest by (simp add: sending_header_def)
  qed
  have d: "delivered file sock w' = base @ take (hdr_offset conn + nat (rv ?r)) text"
    using st by (simp add: w' delivered_sys[OF tw] accepted_def rest sending_header_def take_add)
  have "conn = conn\<lparr> hdr_remain := hdr_remain conn, hdr_offset := hdr_offset conn \<rparr>" by simp
  then have id: "\<exists>rem off. conn = conn\<lparr> hdr_remain := rem, hdr_offset := off \<rparr>" by blast
  consider (err) "rv ?r < 0" | (part) "0 \<le> rv ?r" "rv ?r < int (hdr_remain conn)" | (all) "rv ?r = int (hdr_remain conn)" "0 \<le> rv ?r"
    using le by (metis linorder_not_less order_le_less)
  then show ?thesis
  proof cases
    case err
    then have "conn' = conn" "ret \<in> {0, - 1}"
      using run by (auto simp: send_header_rest_def case_prod_beta Let_def split: if_splits)
    with err st d tw id show ?thesis unfolding sending_header_def w' by auto
  next
    case part
    then have "\<not> hdr_remain conn \<le> nat (rv ?r)" by simp
    with part have "conn' = conn\<lparr> hdr_remain := hdr_remain conn - nat (rv ?r), hdr_offset := hdr_offset conn + nat (rv ?r) \<rparr>" "ret = 0"
      using run by (auto simp: send_header_rest_def case_prod_beta Let_def)
    with part st d tw show ?thesis unfolding sending_header_def w' by auto
  next
    case all
    then have "conn' = conn\<lparr> hdr_remain := 0, hdr_offset := hdr_offset conn + nat (rv ?r), hdr_sent := True \<rparr>" "ret = 1"
      using run by (auto simp: send_header_rest_def case_prod_beta Let_def)
    moreover have "delivered file sock w' = base @ text" using d all st by (simp add: sending_header_def)
    ultimately show ?thesis using tw unfolding w' by auto
  qed
qed

lemma build_header_step:
  assumes "fresh_response file sock base text conn w" "trace_wf w" "scode conn = 200" "length (hdr_buf conn) = HTTP_HEADER_LEN"
  shows "\<exists>buf. build_header conn w = Some (True, conn\<lparr> hdr_buf := buf, hdr_len := length text, hdr_offset := 0,
      hdr_remain := length text \<rparr>, snd (sys Sys_clock w)) \<and> length buf = HTTP_HEADER_LEN \<and>
    sending_header file sock base text (conn\<lparr> hdr_buf := buf, hdr_len := length text, hdr_offset := 0,
      hdr_remain := length text \<rparr>) (snd (sys Sys_clock w))"
proof -
  let ?buf = "blit (hdr_buf conn) 0 (take (HTTP_HEADER_LEN - 1) text @ [0])"
  have l: "length text \<le> HTTP_HEADER_LEN - 1" "length text < HTTP_HEADER_LEN" using assms(1) by (auto simp: fresh_response_def)
  have ne: "text \<noteq> []" using assms(1) by (auto simp: fresh_response_def http_header_text_def str_def)
  have "seg 0 (length text) ?buf = seg (0 - 0) (length text) (text @ [0])"
    using l assms(4) by (subst seg_blit_inside) auto
  then have s: "seg 0 (length text) ?buf = text" by (simp add: seg_def)
  have "build_header conn w = Some (True, conn\<lparr> hdr_buf := ?buf, hdr_len := length text, hdr_offset := 0,
      hdr_remain := length text \<rparr>, snd (sys Sys_clock w))"
    using assms(1,3) l by (simp add: build_header_def case_prod_beta Let_def scode_2_str_def fresh_response_def)
  moreover have "length ?buf = HTTP_HEADER_LEN" using l assms(4) by simp
  moreover have "sending_header file sock base text (conn\<lparr> hdr_buf := ?buf, hdr_len := length text, hdr_offset := 0,
      hdr_remain := length text \<rparr>) (snd (sys Sys_clock w))"
    using assms(1,2) s ne by (simp add: sending_header_def fresh_response_def delivered_sys accepted_def)
  ultimately show ?thesis by blast
qed

lemma send_https_header_step:
  assumes st: "responding fcache file sock base text content conn w" and ns: "\<not> hdr_sent conn"
    and run: "send_https_header sock conn w = Some (ret, conn', w')" and ext: "trace_wf w' \<Longrightarrow> extends w' w''" and b: "send_bounded w''"
  shows "(ret \<in> {0, - 1} \<and> responding fcache file sock base text content conn' w') \<or>
     (ret = 1 \<and> hdr_sent conn' \<and> resp_remain conn' = 0 \<and> resp_fd conn' < 0 \<and> trace_wf w' \<and>
      delivered file sock w' = base @ text \<and> scode conn' = scode conn \<and> file_idx conn' = file_idx conn \<and>
      length (hdr_buf conn') = HTTP_HEADER_LEN)"
proof -
  have c: "trace_wf w" "scode conn = 200" "length (hdr_buf conn) = HTTP_HEADER_LEN" "resp_fd conn < 0"
    and f: "fresh_response file sock base text conn w \<or> sending_header file sock base text conn w"
    using st ns by (auto simp: responding_def Let_def sending_file_def)
  obtain conn0 w0 where r: "send_header_rest sock conn0 w0 = (ret, conn', w')"
    and h: "sending_header file sock base text conn0 w0" and l0: "length (hdr_buf conn0) = HTTP_HEADER_LEN"
    and u: "\<exists>buf n off rem. conn0 = conn\<lparr> hdr_buf := buf, hdr_len := n, hdr_offset := off, hdr_remain := rem \<rparr>"
  proof (cases "fresh_response file sock base text conn w")
    case True
    from build_header_step[OF this c(1,2,3)] obtain buf where
      e: "build_header conn w = Some (True, conn\<lparr> hdr_buf := buf, hdr_len := length text, hdr_offset := 0,
        hdr_remain := length text \<rparr>, snd (sys Sys_clock w))" "length buf = HTTP_HEADER_LEN"
        "sending_header file sock base text (conn\<lparr> hdr_buf := buf, hdr_len := length text, hdr_offset := 0,
          hdr_remain := length text \<rparr>) (snd (sys Sys_clock w))" by blast
    show thesis
    proof (rule that[OF _ e(3)])
      show "send_header_rest sock (conn\<lparr> hdr_buf := buf, hdr_len := length text, hdr_offset := 0,
          hdr_remain := length text \<rparr>) (snd (sys Sys_clock w)) = (ret, conn', w')"
        using run e(1) True by (simp add: send_https_header_def fresh_response_def)
    qed (use e(2) in auto)
  next
    case False
    with f have h: "sending_header file sock base text conn w" by simp
    have "conn = conn\<lparr> hdr_buf := hdr_buf conn, hdr_len := hdr_len conn, hdr_offset := hdr_offset conn, hdr_remain := hdr_remain conn \<rparr>" by simp
    then have "\<exists>buf n off rem. conn = conn\<lparr> hdr_buf := buf, hdr_len := n, hdr_offset := off, hdr_remain := rem \<rparr>" by blast
    moreover have "send_header_rest sock conn w = (ret, conn', w')"
      using h run by (simp add: send_https_header_def sending_header_def)
    ultimately show thesis using that[OF _ h c(3)] by blast
  qed
  have "trace_wf w0" using h by (simp add: sending_header_def)
  then have "trace_wf w'" using r by (auto simp: send_header_rest_def case_prod_beta Let_def split: if_splits)
  note step = send_header_rest_step[OF h r ext[OF this] b]
  from u obtain buf n off rem where u: "conn0 = conn\<lparr> hdr_buf := buf, hdr_len := n, hdr_offset := off, hdr_remain := rem \<rparr>" by blast
  show ?thesis
  proof (cases "ret = 1")
    case True
    with step obtain rem' off' where "conn' = conn0\<lparr> hdr_remain := rem', hdr_offset := off', hdr_sent := True \<rparr>"
      "delivered file sock w' = base @ text" by auto
    moreover have "resp_remain conn0 = 0" using h by (simp add: sending_header_def)
    ultimately show ?thesis using True u l0 c \<open>trace_wf w'\<close> by simp
  next
    case False
    with step obtain rem' off' where c': "conn' = conn0\<lparr> hdr_remain := rem', hdr_offset := off' \<rparr>"
      and s': "ret \<in> {0, - 1}" "sending_header file sock base text conn' w'" by auto
    have "file_idx conn' = file_idx conn" "scode conn' = 200" "length (hdr_buf conn') = HTTP_HEADER_LEN" "resp_fd conn' < 0"
      using c' u l0 c by simp_all
    with st s' \<open>trace_wf w'\<close> show ?thesis by (simp add: responding_def Let_def)
  qed
qed

lemma send_file_content_step:
  assumes f: "content \<noteq> []" "fc_size (fcache ! nat (file_idx conn)) = length content"
      "file (fc_fd (fcache ! nat (file_idx conn))) = content" "0 \<le> fc_fd (fcache ! nat (file_idx conn))"
    and c: "scode conn = 200" "hdr_sent conn" "length (hdr_buf conn) = HTTP_HEADER_LEN" "trace_wf w"
    and st: "resp_remain conn = 0 \<and> resp_fd conn < 0 \<and> delivered file sock w = base @ text \<or>
      resp_fd conn = fc_fd (fcache ! nat (file_idx conn)) \<and> 0 < resp_remain conn \<and>
      sending_file file sock (base @ text) content conn w"
    and run: "send_file_content fcache sock conn w = Some (ret, conn', w')" and b: "send_bounded w'"
  shows "ret \<in> {0, - 1} \<and> responding fcache file sock base text content conn' w' \<or>
     ret = 1 \<and> resp_remain conn' = 0 \<and> trace_wf w' \<and> delivered file sock w' = base @ text @ content"
proof -
  let ?f = "fcache ! nat (file_idx conn)"
  define conn1 where "conn1 = (let conn = (if resp_remain conn = 0 then conn\<lparr> resp_offset := 0, resp_remain := fc_size ?f \<rparr> else conn)
    in if resp_fd conn < 0 then conn\<lparr> resp_fd := fc_fd ?f \<rparr> else conn)"
  have s1: "sending_file file sock (base @ text) content conn1 w" "0 < resp_remain conn1" "resp_fd conn1 = fc_fd ?f"
    "scode conn1 = 200" "file_idx conn1 = file_idx conn" "hdr_buf conn1 = hdr_buf conn"
    using st f c by (auto simp: conn1_def Let_def sending_file_def)
  have r: "sendfile_loop sock conn1 w = Some (ret, conn', w')"
    using run f c s1 by (auto simp: send_file_content_def conn1_def Let_def FILE_SIZE_THRESHOLD_def split: if_splits)
  note fr = sendfile_loop_frame[OF r]
  from fr obtain off rem where c': "conn' = conn1\<lparr> resp_offset := off, resp_remain := rem \<rparr>" by blast
  have s': "sending_file file sock (base @ text) content conn' w'"
    using sendfile_loop_sends[OF r] s1(1) b by blast
  show ?thesis
  proof (cases "ret = 1")
    case True
    with fr have "resp_remain conn' = 0" by blast
    with s' True show ?thesis by (simp add: sending_file_def)
  next
    case False
    with fr s' s1 f c(3) show ?thesis
      by (auto simp: responding_def Let_def c' sending_file_def)
  qed
qed

lemma finish_resp_effect:
  assumes "finish_resp sock conn w = (ret, conn', w')" "trace_wf w"
  shows "ret \<in> {0, - 1}" "delivered file s w' = delivered file s w" "extends w w'"
  using assms
  by (auto simp: finish_resp_def handle_ephe_conn_after_resp_sent_def handle_persist_conn_after_resp_sent_def
      Let_def case_prod_beta delivered_sys accepted_def intro: extends_trans[OF extends_sys extends_sys] split: if_splits)

lemma send_file_content_extends:
  "send_file_content fcache sock conn w = Some (ret, conn', w') \<Longrightarrow> trace_wf w \<Longrightarrow> extends w w'"
  by (auto simp: send_file_content_def Let_def case_prod_beta dest: sendfile_loop_frame split: if_splits)

lemma send_resp_body_step:
  assumes f: "content \<noteq> []" "fc_size (fcache ! nat (file_idx conn)) = length content"
      "file (fc_fd (fcache ! nat (file_idx conn))) = content" "0 \<le> fc_fd (fcache ! nat (file_idx conn))"
    and c: "scode conn = 200" "hdr_sent conn" "length (hdr_buf conn) = HTTP_HEADER_LEN" "trace_wf w"
    and st: "resp_remain conn = 0 \<and> resp_fd conn < 0 \<and> delivered file sock w = base @ text \<or>
      resp_fd conn = fc_fd (fcache ! nat (file_idx conn)) \<and> 0 < resp_remain conn \<and>
      sending_file file sock (base @ text) content conn w"
    and run: "send_resp_body fcache sock conn w = Some (ret, conn', w')" and b: "send_bounded w'"
  shows "ret \<in> {0, - 1} \<and> extends w w' \<and>
    (responding fcache file sock base text content conn' w' \<or> delivered file sock w' = base @ text @ content)"
proof -
  from run obtain r2 conn2 w2 where h: "send_file_content fcache sock conn w = Some (r2, conn2, w2)"
    by (auto simp: send_resp_body_def split: bind_splits)
  note e = send_file_content_extends[OF h c(4)]
  then have tw: "trace_wf w2" by (simp add: extends_def)
  have e2: "extends w2 w'" and rest: "(ret, conn', w') = (if r2 \<noteq> 1 then (r2, conn2, w2)
      else if resp_remain conn2 = 0 then finish_resp sock conn2 w2 else (0, conn2, w2))"
    using run h tw by (auto simp: send_resp_body_def dest: finish_resp_effect(3) split: if_splits)
  note s = send_file_content_step[OF f c st h send_bounded_extends[OF e2 b]]
  show ?thesis
  proof (cases "r2 = 1")
    case True
    with s have s1: "resp_remain conn2 = 0" "delivered file sock w2 = base @ text @ content" by auto
    with rest True have r: "finish_resp sock conn2 w2 = (ret, conn', w')" by simp
    from finish_resp_effect[OF r tw] s1(2) extends_trans[OF e e2] show ?thesis by simp
  next
    case False
    with s rest extends_trans[OF e e2] show ?thesis by auto
  qed
qed


definition resp_text :: bytes where
  "resp_text = http_header_text 200 (str ''OK'') (http_date 0) 4 True"

definition resp_env :: "nat \<Rightarrow> sysret" where
  "resp_env n = (if n = 1 then ret_ok\<lparr> rv := int (length resp_text) \<rparr>
                 else if n = 2 then ret_ok\<lparr> rv := 4 \<rparr> else ret_ok)"

definition resp_conn :: conn_state where
  "resp_conn = conn_zero\<lparr> sock_fd := 5, sock_state := HTTP_REQ_RECVED, keep_alive := 1, scode := 200,
     file_idx := 0, file_size := 4, resp_fd := - 1 \<rparr>"

lemma civil_epoch: "civil 0 = (1970, 1, 1, 4)"
proof -
  have e: "(719468::nat) div 146097 = 4" "(719468::nat) mod 146097 = 135080" by simp_all
  have y: "((135080::nat) - 135080 div 1460 + 135080 div 36524 - 135080 div 146096) div 365 = 369" by simp
  have d: "(135080::nat) - (365 * 369 + 369 div 4 - 369 div 100) = 306" by simp
  show ?thesis unfolding civil_def add_0 e Let_def y d by simp
qed

lemma resp_text_length: "length resp_text = 131"
proof -
  have s: "length (str x) = length x" for x by (simp add: str_def)
  have n: "length (dec 1970) = 4" "length (dec 200) = 3" "length (dec 4) = 1" by (simp_all add: dec.simps)
  have "length (http_date 0) = 29" by (simp add: http_date_def civil_epoch s dec2_def n wdays_def months_def)
  then show ?thesis by (simp add: resp_text_def http_header_text_def s n)
qed

lemma resp_text_fits: "length resp_text < HTTP_HEADER_LEN" "resp_text \<noteq> []" "length resp_text \<noteq> 0"
  using resp_text_length by (auto simp: HTTP_HEADER_LEN_def)

lemma resp_conn_responding:
  "responding [demo_file ''a'' 4] (\<lambda>_. replicate 4 65) 5 [] resp_text (replicate 4 65) resp_conn (idle_world resp_env)"
  using resp_text_fits
  by (simp add: responding_def resp_conn_def conn_zero_def demo_file_def trace_wf_def idle_world_def fresh_response_def
      delivered_def resp_env_def ret_ok_def timespec_of_def resp_text_def)

lemma finish_resp_persist:
  assumes "keep_alive conn = 1" "sock_fd conn = fd"
  shows "\<exists>conn'. finish_resp sock conn w = (0, conn', snd (sys (Sys_setsockopt fd TCP_CORK (Opt_int 1))
      (snd (sys (Sys_setsockopt fd TCP_CORK (Opt_int 0)) w)))) \<and> scode conn' = 0"
  using assms by (simp add: finish_resp_def handle_persist_conn_after_resp_sent_def reset_conn_for_next_req_def Let_def
      case_prod_beta)

lemma sendfile_loop_once:
  assumes "rv (w_env w (w_n w)) = int n" "resp_remain conn = n" "0 < n"
  shows "sendfile_loop sock conn w =
    Some (1, sendfile_adv conn (int n), snd (sys (Sys_sendfile sock (resp_fd conn) (resp_offset conn) n) w))"
proof -
  have "sendfile_loop sock conn w = sendfile_loop sock (sendfile_adv conn (int n))
      (snd (sys (Sys_sendfile sock (resp_fd conn) (resp_offset conn) n) w))"
    using assms by (subst sendfile_loop.simps) (simp add: Let_def case_prod_beta sendfile_adv_def)
  also have "\<dots> = Some (1, sendfile_adv conn (int n), snd (sys (Sys_sendfile sock (resp_fd conn) (resp_offset conn) n) w))"
    using assms by (subst sendfile_loop.simps) (simp add: sendfile_adv_def)
  finally show ?thesis .
qed

lemma resp_conn_runs:
  "\<exists>conn' w'. send_https_resp [demo_file ''a'' 4] 5 resp_conn (idle_world resp_env) = Some (0, conn', w') \<and>
     scode conn' = 0 \<and> send_bounded w'"
proof -
  let ?w1 = "snd (sys Sys_clock (idle_world resp_env))"
  have f: "fresh_response (\<lambda>_. replicate 4 65) 5 [] resp_text resp_conn (idle_world resp_env)"
    using resp_conn_responding by (auto simp: responding_def resp_conn_def conn_zero_def sending_header_def sending_file_def Let_def)
  have c: "trace_wf (idle_world resp_env)" "scode resp_conn = 200" "length (hdr_buf resp_conn) = HTTP_HEADER_LEN"
    by (simp_all add: trace_wf_def idle_world_def resp_conn_def conn_zero_def)
  from build_header_step[OF f c] obtain buf where b: "build_header resp_conn (idle_world resp_env) =
      Some (True, resp_conn\<lparr> hdr_buf := buf, hdr_len := length resp_text, hdr_offset := 0, hdr_remain := length resp_text \<rparr>, ?w1)"
    "length buf = HTTP_HEADER_LEN" by blast
  have h: "send_https_header 5 resp_conn (idle_world resp_env) = Some (1, resp_conn\<lparr> hdr_buf := buf,
      hdr_len := length resp_text, hdr_offset := length resp_text, hdr_remain := 0, hdr_sent := True \<rparr>,
      snd (sys (Sys_send 5 (seg 0 (length resp_text) buf)) ?w1))"
    using b(1) by (simp add: send_https_header_def send_header_rest_def case_prod_beta Let_def)
      (simp add: resp_conn_def conn_zero_def idle_world_def resp_env_def)
  have l: "length (seg 0 (length resp_text) buf) = length resp_text" using b(2) resp_text_fits by (simp add: seg_def)
  let ?c = "resp_conn\<lparr> hdr_buf := buf, hdr_len := length resp_text, hdr_offset := length resp_text, hdr_remain := 0,
      hdr_sent := True, resp_offset := 0, resp_remain := 4, resp_fd := 9 \<rparr>"
  let ?w2 = "snd (sys (Sys_send 5 (seg 0 (length resp_text) buf)) ?w1)"
  let ?w3 = "snd (sys (Sys_sendfile 5 9 0 4) ?w2)"
  let ?w5 = "snd (sys (Sys_setsockopt 5 TCP_CORK (Opt_int 1)) (snd (sys (Sys_setsockopt 5 TCP_CORK (Opt_int 0)) ?w3)))"
  have e: "rv (w_env ?w2 (w_n ?w2)) = 4" by (simp add: idle_world_def resp_env_def)
  have rc: "resp_remain ?c = 4" "resp_offset ?c = 0" "resp_fd ?c = 9" by simp_all
  have f: "sendfile_loop 5 ?c ?w2 = Some (1, sendfile_adv ?c 4, ?w3)"
    using sendfile_loop_once[where w = "?w2" and n = 4 and conn = "?c" and sock = 5] e by (simp only: rc) simp
  have bd: "send_bounded ?w5"
    using l by (auto simp: send_bounded_def idle_world_def sys_def resp_env_def less_Suc_eq nth_append)
  let ?h = "resp_conn\<lparr> hdr_buf := buf, hdr_len := length resp_text, hdr_offset := length resp_text, hdr_remain := 0,
      hdr_sent := True \<rparr>"
  have rh: "scode ?h = 200" "file_idx ?h = 0" "resp_remain ?h = 0" "resp_fd ?h = - 1" "hdr_sent ?h"
    by (simp_all add: resp_conn_def conn_zero_def)
  have "send_file_content [demo_file ''a'' 4] 5 ?h ?w2 = sendfile_loop 5 ?c ?w2"
    unfolding send_file_content_def Let_def rh by (simp add: demo_file_def FILE_SIZE_THRESHOLD_def)
      (simp add: resp_conn_def conn_zero_def)
  then have "send_resp_body [demo_file ''a'' 4] 5 ?h ?w2 = Some (finish_resp 5 (sendfile_adv ?c 4) ?w3)"
    by (simp only: send_resp_body_def f) (simp add: sendfile_adv_def)
  then have "send_https_resp [demo_file ''a'' 4] 5 resp_conn (idle_world resp_env) =
      Some (finish_resp 5 (sendfile_adv ?c 4) ?w3)"
    using rh(5) by (simp only: send_https_resp_def h) simp
  moreover have "keep_alive (sendfile_adv ?c 4) = 1" "sock_fd (sendfile_adv ?c 4) = 5"
    by (simp_all add: sendfile_adv_def resp_conn_def)
  moreover note finish_resp_persist[where conn = "sendfile_adv ?c 4" and fd = 5 and sock = 5 and w = ?w3]
  ultimately obtain conn' where "send_https_resp [demo_file ''a'' 4] 5 resp_conn (idle_world resp_env) =
      Some (0, conn', ?w5)" "scode conn' = 0" by auto
  with bd show ?thesis by blast
qed


text \<open>C33: the \<^verbatim>\<open>sendfile\<close> loop ends when every call makes progress or fails.\<close>

theorem sendfile_loop_ends:
  assumes "\<forall>k \<ge> w_n w. rv (w_env w k) > 0 \<or> rv (w_env w k) = - 1"
  shows "\<exists>ret conn' w'. sendfile_loop sock conn w = Some (ret, conn', w')"
  using assms
proof (induction "resp_remain conn" arbitrary: conn w rule: less_induct)
  case less
  let ?w = "snd (sys (sendfile_call sock conn) w)" and ?r = "rv (w_env w (w_n w))"
  show ?case
  proof (cases "resp_remain conn = 0 \<or> ?r = - 1")
    case True
    then show ?thesis by (subst sendfile_loop.simps) (auto simp: case_prod_beta Let_def)
  next
    case False
    with less.prems have pos: "?r > 0" by auto
    have "\<exists>ret conn' w'. sendfile_loop sock (sendfile_adv conn ?r) ?w = Some (ret, conn', w')"
      using False pos less.prems by (intro less.hyps) (auto simp: sendfile_adv_def)
    moreover have "sendfile_loop sock conn w = sendfile_loop sock (sendfile_adv conn ?r) ?w"
      using False pos by (subst sendfile_loop.simps) (auto simp: case_prod_beta Let_def sendfile_adv_def)
    ultimately show ?thesis by simp
  qed
qed

theorem sendfile_loop_ends_witness:
  "\<exists>ret conn' w'. sendfile_loop 5 (resp_conn\<lparr> resp_remain := 3 \<rparr>) (idle_world (\<lambda>_. ret_ok\<lparr> rv := 1 \<rparr>)) = Some (ret, conn', w')"
  by (rule sendfile_loop_ends) (simp add: idle_world_def)

text \<open>The \<^verbatim>\<open>sendfile\<close> loop does not end when every call returns zero, as it does for a file
  that has been truncated since it was cached.\<close>

theorem sendfile_loop_spins:
  assumes "\<forall>k \<ge> w_n w. rv (w_env w k) = 0" "0 < resp_remain conn"
  shows "sendfile_loop sock conn w = None"
proof (rule ccontr)
  assume "sendfile_loop sock conn w \<noteq> None"
  then obtain ret conn' w' where "sendfile_loop sock conn w = Some (ret, conn', w')" by auto
  then have "\<not> ((\<forall>k \<ge> w_n w. rv (w_env w k) = 0) \<and> 0 < resp_remain conn)"
  proof (induction rule: sendfile_loop_induct)
    case (more conn w ret conn' w')
    show ?case
    proof
      assume z: "(\<forall>k \<ge> w_n w. rv (w_env w k) = 0) \<and> 0 < resp_remain conn"
      then have "sendfile_adv conn (rv (w_env w (w_n w))) = conn" by (simp add: sendfile_adv_def)
      moreover from z have "\<forall>k \<ge> Suc (w_n w). rv (w_env w k) = 0" using Suc_leD by blast
      ultimately show False using more.IH z by simp
    qed
  qed auto
  with assms show False by blast
qed

theorem sendfile_loop_spins_witness:
  "sendfile_loop 5 (resp_conn\<lparr> resp_remain := 3 \<rparr>) (idle_world (\<lambda>_. ret_ok)) = None"
  by (rule sendfile_loop_spins) (simp_all add: idle_world_def ret_ok_def)

end
