(* ===== verification/Host_Filter.thy ===== *)
theory Host_Filter
  imports Host_Types
begin

text \<open>
  The raw socket on which a host thread receives packets from the SmartNIC:
  \<^verbatim>\<open>setup_meta_sock\<close> of \<^verbatim>\<open>src/host/custom_server/src/set_sock.c\<close> and the packet filter built by
  \<^verbatim>\<open>bpf_filter_for_meta\<close> of \<^verbatim>\<open>helpers.c\<close>.  \<open>None\<close> is \<^verbatim>\<open>exit(EXIT_FAILURE)\<close>, or an index of
  \<^verbatim>\<open>key_eth_types\<close> out of range.

  The property says exactly which frames the filter keeps.  The index register is never
  loaded, so the two indexed loads read at fixed offsets: the part of the program meant for
  stray SYN segments looks at the total length and at the source address of the packet.
\<close>


section \<open>Model\<close>

definition IP_HDR_OFFSET :: nat where "IP_HDR_OFFSET = 14"
definition HTTPS_PORT_N :: u32 where "HTTPS_PORT_N = 0xBB01"

definition bpf_code :: "u16 \<Rightarrow> bpf_insn list" where
  "bpf_code eth_type =
     [LD_H_ABS 12,
      JMP_JEQ (ucast eth_type) 11 0,
      JMP_JEQ 0x0800 0 11,
      LD_B_ABS IP_HDR_OFFSET,
      ALU_AND 0x0f,
      ALU_MUL 4,
      ST_M 0,
      LD_B_ABS (IP_HDR_OFFSET + 9),
      JMP_JEQ 6 0 5,
      LD_H_IND (IP_HDR_OFFSET + 2),
      JMP_JEQ HTTPS_PORT_N 0 3,
      LD_B_IND (IP_HDR_OFFSET + 13),
      JMP_JSET 0x02 0 1,
      RET_K 0x0000FFFF,
      RET_K 0]"

definition bpf_filter_for_meta :: "nat \<Rightarrow> bpf_insn list option" where
  "bpf_filter_for_meta core =
     (if core < length key_eth_types then Some (bpf_code (key_eth_types ! core)) else None)"

definition setup_meta_sock :: "nat \<Rightarrow> world \<Rightarrow> (int \<times> world) option" where
  "setup_meta_sock core w =
    (let (s, w) = sys Sys_raw_socket w; sock = rv s in
     if sock < 0 then None
     else let (i, w) = sys (Sys_ifindex sock) w in
     if rv i < 0 then None
     else let (b, w) = sys (Sys_bind_iface sock (rv i)) w in
     if rv b < 0 then None
     else do {
       bpf \<leftarrow> bpf_filter_for_meta core;
       let (f, w) = sys (Sys_attach_filter sock bpf) w;
       if rv f < 0 then None else Some (sock, w)
     })"


section \<open>Frames that pass\<close>

definition ether_type :: "bytes \<Rightarrow> nat" where
  "ether_type f = half_at f 12"

definition ip_total_length :: "bytes \<Rightarrow> nat" where
  "ip_total_length f = half_at f 16"

lemma unat_byte_less: "unat (b :: u8) < 256"
  using unsigned_less[of b, where ?'a = nat] by simp

lemma half_eq: "(of_nat (half_at f i) :: u32) = k \<longleftrightarrow> half_at f i = unat k"
proof -
  have "half_at f i < 2 ^ 32"
    using unat_byte_less[of "f ! i"] unat_byte_less[of "f ! (i + 1)"] by (simp add: half_at_def)
  then have "unat (of_nat (half_at f i) :: u32) = half_at f i"
    by (simp add: unsigned_of_nat take_bit_nat_eq_self)
  then show ?thesis by (auto simp: word_eq_iff_unsigned[where ?'a = nat])
qed

lemma unat_ucast_wider:
  "unat (ucast (b :: u8) :: u32) = unat b" "unat (ucast (h :: u16) :: u32) = unat h"
  using unat_byte_less[of b] unsigned_less[of h, where ?'a = nat]
  by (simp_all add: unsigned_ucast_eq take_bit_nat_eq_self)

lemma byte_eq: "(ucast (b :: u8) :: u32) = k \<longleftrightarrow> unat b = unat k"
  by (simp add: word_eq_iff_unsigned[where ?'a = nat] unat_ucast_wider)

lemma half_at_ntohs:
  assumes "i + 2 \<le> length f"
  shows "half_at f i = unat (ntohs (ld16 f i))"
proof -
  have s: "seg i 2 f = [f ! i, f ! (i + 1)]"
    using assms by (simp add: seg_def numeral_2_eq_2 take_Suc_conv_app_nth hd_drop_conv_nth)
  have "ntohs (ld16 f i) = be_word [f ! i, f ! (i + 1)]" using assms by (simp add: byte_simps s)
  also have "\<dots> = push_bit 8 (ucast (f ! i)) OR ucast (f ! (i + 1))" by (simp add: be_word_def)
  also have "\<dots> = push_bit 8 (ucast (f ! i)) + ucast (f ! (i + 1))"
    by (rule disjunctive_add_eq_or[symmetric])
      (auto simp: bit_eq_iff bit_simps dest: bit_imp_le_length)
  finally show ?thesis
    using unat_byte_less[of "f ! i"] unat_byte_less[of "f ! (i + 1)"]
    by (simp add: half_at_def push_bit_eq_mult unat_word_ariths unsigned_ucast_eq take_bit_nat_eq_self mult.commute)
qed

lemma byte_syn: "ucast (b :: u8) AND (2 :: u32) \<noteq> 0 \<longleftrightarrow> bit b 1"
proof -
  have "(ucast b AND (2 :: u32) \<noteq> 0) = bit (ucast b :: u32) 1"
    by (simp add: bit_iff_and_push_bit_not_eq_0 push_bit_of_1)
  then show ?thesis by (simp add: bit_ucast_iff)
qed

lemma key_eth_types_nth: "core < 16 \<Longrightarrow> unat (key_eth_types ! core) = 0x0801 + core"
  by (simp add: key_eth_types_def less_Suc_eq numeral_eq_Suc) auto

lemma bpf_filter_for_meta_some: "core < 16 \<Longrightarrow> bpf_filter_for_meta core = Some (bpf_code (key_eth_types ! core))"
  by (simp add: bpf_filter_for_meta_def key_eth_types_def)

lemma bpf_code_exact:
  assumes "core < 16"
  shows "bpf_filter (bpf_code (key_eth_types ! core)) f \<noteq> 0 \<longleftrightarrow>
       14 \<le> length f \<and> (ether_type f = 0x0801 + core \<or>
         (ether_type f = 0x0800 \<and> 28 \<le> length f \<and> f ! 23 = 6 \<and> ip_total_length f = 0xBB01 \<and> bit (f ! 27) 1))"
proof -
  have e: "unat (ucast (key_eth_types ! core) :: u32) = 0x0801 + core"
    using key_eth_types_nth[OF assms] by (simp add: unat_ucast_wider)
  show ?thesis
    using assms
    by (simp add: bpf_filter_def bpf_code_def IP_HDR_OFFSET_def HTTPS_PORT_N_def ld_half_def ld_byte_def
        half_eq byte_eq byte_syn e ether_type_def ip_total_length_def
        word_eq_iff_unsigned[where ?'a = nat and v = "f ! 23"])
qed

text \<open>C24: the filter of thread \<open>core\<close> keeps a frame exactly if its EtherType is the key type of that
  thread, or it is an IPv4 packet with protocol TCP, the total length 0xBB01 in its header,
  and bit 1 set in the second byte of the source address.  In particular it drops every
  frame of a connection reset, and every TCP segment with SYN of at most 1500 bytes.\<close>

theorem filter_exact:
  assumes "core < 16"
  shows "\<exists>prog. bpf_filter_for_meta core = Some prog \<and>
    (\<forall>f. bpf_filter prog f \<noteq> 0 \<longleftrightarrow>
       14 \<le> length f \<and> (ether_type f = 0x0801 + core \<or>
         (ether_type f = 0x0800 \<and> 28 \<le> length f \<and> f ! 23 = 6 \<and> ip_total_length f = 0xBB01 \<and> bit (f ! 27) 1)))"
  using bpf_code_exact[OF assms] bpf_filter_for_meta_some[OF assms] by blast

theorem filter_exact_witness:
  "\<exists>prog. bpf_filter_for_meta 2 = Some prog \<and>
     bpf_filter prog (replicate 12 0 @ [0x08, 0x03]) \<noteq> 0 \<and> bpf_filter prog (replicate 12 0 @ [0x08, 0xFF]) = 0"
proof -
  from filter_exact[of 2] obtain prog where p: "bpf_filter_for_meta 2 = Some prog"
    "\<And>f. bpf_filter prog f \<noteq> 0 \<longleftrightarrow> 14 \<le> length f \<and> (ether_type f = 0x0803 \<or>
       (ether_type f = 0x0800 \<and> 28 \<le> length f \<and> f ! 23 = 6 \<and> ip_total_length f = 0xBB01 \<and> bit (f ! 27) 1))" by auto
  have "ether_type (replicate 12 0 @ [0x08, 0x03]) = 0x0803" "ether_type (replicate 12 0 @ [0x08, 0xFF]) = 0x08FF"
    by (simp_all add: ether_type_def half_at_def nth_append)
  with p(1) p(2)[of "replicate 12 0 @ [0x08, 0x03]"] p(2)[of "replicate 12 0 @ [0x08, 0xFF]"]
  show ?thesis by simp
qed

end
