(* ===== verification/Dispatch.thy ===== *)
theory Dispatch
  imports Migration Host_Filter
begin

text \<open>
  Which host thread receives a frame of the SmartNIC.  Every host thread opens its own raw
  socket with the filter of \<open>Host_Filter\<close>; the SmartNIC chooses the EtherType of a key packet
  from the client port.
\<close>

lemma meta_frame_ether_type:
  assumes "meta_hdr_wf m"
  shows "ether_type (meta_hdr_bytes m) = unat (ntohs (mh_custom_eth_type m))"
proof -
  have "ld16 (meta_hdr_bytes m) 12 = mh_custom_eth_type m"
    using meta_hdr_fields(3)[OF assms, of "[]"] by (simp add: ld16_def byte_simps)
  then show ?thesis
    using length_meta_hdr_bytes[OF assms] by (simp add: ether_type_def half_at_ntohs)
qed

lemma filter_by_type:
  assumes "core < 16" "bpf_filter_for_meta core = Some prog" "14 \<le> length f" "ether_type f \<noteq> 0x0800"
  shows "bpf_filter prog f \<noteq> 0 \<longleftrightarrow> ether_type f = 0x0801 + core"
proof -
  have "prog = bpf_code (key_eth_types ! core)" using assms(1,2) by (simp add: bpf_filter_for_meta_def split: if_splits)
  then show ?thesis using bpf_code_exact[OF assms(1), of f] assms(3,4) by simp
qed

text \<open>C21: a key packet reaches exactly one host thread.  Of the sixteen possible filters, only the
  one of thread \<open>client_port mod host_threads_num\<close> keeps the frame that \<open>send_key_meta\<close> queues,
  and this thread is one of those that run.\<close>

theorem key_frame_dispatch:
  assumes "sess_ready (nic_sess n p)" "0 < threads" "threads \<le> 16"
    and "length (n_wmbufs n port) < MAX_PKT_BURST"
  shows "\<exists>n' f k. send_key_meta threads port p n = Some (0, n') \<and> n_wmbufs n' port = n_wmbufs n port @ [f] \<and>
    k < threads \<and> k = unat (tc_client_port (n_conns n p)) mod threads \<and>
    (\<forall>core < 16. \<exists>prog. bpf_filter_for_meta core = Some prog \<and> (bpf_filter prog f \<noteq> 0 \<longleftrightarrow> core = k))"
proof -
  define k where "k = unat (tc_client_port (n_conns n p)) mod threads"
  let ?m = "key_meta_hdr k (n_conns n p)"
  have k: "k < threads" "k < 16" unfolding k_def using assms(2,3)
    by (simp, metis assms(2,3) less_le_trans mod_less_divisor)
  note wf = sess_ready_wf(1)[OF assms(1), of k]
  have "mh_custom_eth_type ?m = htons (nic_key_eth_types ! k)" by (simp add: key_meta_hdr_def Let_def)
  then have t: "ether_type (meta_hdr_bytes ?m) = 0x0801 + k"
    using meta_frame_ether_type[OF wf] key_eth_types_nth[OF k(2)] by (simp add: byte_simps eth_types_agree)
  have "\<exists>prog. bpf_filter_for_meta core = Some prog \<and> (bpf_filter prog (meta_hdr_bytes ?m) \<noteq> 0 \<longleftrightarrow> core = k)"
    if "core < 16" for core
  proof -
    note p = bpf_filter_for_meta_some[OF that]
    from filter_by_type[OF that p, of "meta_hdr_bytes ?m"] p t length_meta_hdr_bytes[OF wf] show ?thesis by auto
  qed
  moreover obtain n' where "send_key_meta threads port p n = Some (0, n')"
    "n_wmbufs n' port = n_wmbufs n port @ [meta_hdr_bytes ?m]"
    using send_key_meta_room[OF assms(4,2,3) refl] unfolding k_def by blast
  ultimately show ?thesis using k k_def by blast
qed

theorem key_frame_dispatch_witness:
  "\<exists>n' f. send_key_meta 4 1 0 demo_nic = Some (0, n') \<and> n_wmbufs n' 1 = [f] \<and>
    (\<exists>prog. bpf_filter_for_meta (unat (tc_client_port demo_conn) mod 4) = Some prog \<and> bpf_filter prog f \<noteq> 0)"
proof -
  have "unat (tc_client_port demo_conn) mod 4 < 16" by (metis less_trans mod_less_divisor numeral_less_iff
      semiring_norm(76,78,81) zero_less_numeral)
  then show ?thesis
    using key_frame_dispatch[of demo_nic 0 4 1] demo_sess_ready by (auto simp: MAX_PKT_BURST_def)
qed

text \<open>C39: a connection reset never reaches a host thread: the frame that \<open>send_rst_conn_meta\<close> queues is
  dropped by every filter.\<close>

theorem rst_frame_filtered:
  assumes "sess_ready (nic_sess n p)" "length (n_wmbufs n port) < MAX_PKT_BURST"
    and "core < 16"
  shows "\<exists>n' f prog. send_rst_conn_meta port p n = Some (0, n') \<and> n_wmbufs n' port = n_wmbufs n port @ [f] \<and>
    bpf_filter_for_meta core = Some prog \<and> bpf_filter prog f = 0"
proof -
  let ?m = "rst_meta_hdr (n_conns n p)"
  note wf = sess_ready_wf(2)[OF assms(1)]
  have "mh_custom_eth_type ?m = htons 0x08FF" by (simp add: rst_meta_hdr_def Let_def)
  then have t: "ether_type (meta_hdr_bytes ?m) = 0x08FF"
    using meta_frame_ether_type[OF wf] by (simp add: byte_simps)
  note p = bpf_filter_for_meta_some[OF assms(3)]
  have "bpf_filter (bpf_code (key_eth_types ! core)) (meta_hdr_bytes ?m) = 0"
    using filter_by_type[OF assms(3) p, of "meta_hdr_bytes ?m"] t length_meta_hdr_bytes[OF wf] assms(3) by auto
  then show ?thesis
    using p assms(2) by (simp add: send_rst_conn_meta_def Let_def put_frame_room upd_sess_def upd_tcp_def)
qed

theorem rst_frame_filtered_witness:
  "\<exists>n' f prog. send_rst_conn_meta 1 0 demo_nic = Some (0, n') \<and> n_wmbufs n' 1 = [f] \<and>
    bpf_filter_for_meta 3 = Some prog \<and> bpf_filter prog f = 0"
  using rst_frame_filtered[of demo_nic 0 1 3] demo_sess_ready by (auto simp: MAX_PKT_BURST_def)

end
