(* ===== verification/Host_Worker.thy ===== *)
theory Host_Worker
  imports Host_Http Host_Filter
begin

text \<open>
  The worker thread of the host server, \<^verbatim>\<open>src/host/custom_server/src/main.c\<close>
  (\<^verbatim>\<open>worker_thread\<close>, \<^verbatim>\<open>print_stat\<close>), and \<^verbatim>\<open>close_tcp_conn\<close> of \<^verbatim>\<open>set_sock.c\<close>.

  One event of \<^verbatim>\<open>epoll_wait\<close> is its readiness bits and the pointer registered with the socket;
  the object registered with the meta socket is one more connection object.  \<open>None\<close> is the end
  of the process, undefined behaviour, or a loop that does not end.
\<close>


section \<open>Closing a connection\<close>

definition account_close :: "conn_ptr \<Rightarrow> host \<Rightarrow> host" where
  "account_close p h =
    (let h = h\<lparr> closed_conns := closed_conns h + 1 \<rparr>;
         (t, h) = host_sys Sys_clock h;
         h = upd_conn p (\<lambda>c. c\<lparr> conn_fin := timespec_of t \<rparr>) h;
         c = conns h p
     in h\<lparr> total_conn_time :=
          (fst (total_conn_time h) + (fst (conn_fin c) - fst (conn_start c)),
           snd (total_conn_time h) + (snd (conn_fin c) - snd (conn_start c))) \<rparr>)"

definition close_tcp_conn :: "conn_ptr \<Rightarrow> host \<Rightarrow> host option" where
  "close_tcp_conn p h =
    (let (r, w) = send_close_to_arm (meta_sock h) (meta_info (conns h p)) (wrld h) in
     case remove_epoll_mig_sock (sock_fd (conns h p)) (epfd h) w of
       None \<Rightarrow> None
     | Some (e, w) \<Rightarrow>
         let h = snd (host_sys (Sys_close (sock_fd (conns h p))) (h\<lparr> wrld := w \<rparr>));
             h = (case host_ht_search (host_key h) (ht_conn h) (mi_client_ip (meta_info (conns h p)))
                         (mi_client_port (meta_info (conns h p))) of
                    None \<Rightarrow> h
                  | Some q \<Rightarrow> account_close p (h\<lparr> ht_conn := host_ht_remove (host_key h) (ht_conn h) p \<rparr>))
         in Some (conn_state_free (Some p) h))"


section \<open>Events\<close>

record event =
  ev_in :: bool
  ev_out :: bool
  ev_ptr :: conn_ptr

abbreviation set_state :: "conn_ptr \<Rightarrow> sock_state_t \<Rightarrow> host \<Rightarrow> host" where
  "set_state p s \<equiv> upd_conn p (\<lambda>c. c\<lparr> sock_state := s \<rparr>)"

text \<open>A change of the registration with epoll followed by a change of the state.\<close>

definition mod_state ::
  "(conn_ptr \<Rightarrow> int \<Rightarrow> int \<Rightarrow> world \<Rightarrow> (int \<times> world) option) \<Rightarrow> sock_state_t \<Rightarrow> conn_ptr \<Rightarrow> host \<Rightarrow> host option" where
  "mod_state md s p h =
    (case md p (sock_fd (conns h p)) (epfd h) (wrld h) of
       None \<Rightarrow> None
     | Some (e, w) \<Rightarrow> Some (set_state p s (h\<lparr> wrld := w \<rparr>)))"

definition after_recv :: "req_handler_result \<Rightarrow> conn_ptr \<Rightarrow> host \<Rightarrow> host option" where
  "after_recv ret p h =
    (case ret of
       RECV_OK \<Rightarrow> mod_state mod_epoll_inout_mig_sock HTTP_REQ_RECVED p h
     | RECV_CLOSE_NOTIFY \<Rightarrow> mod_state mod_epoll_inout_mig_sock WAIT_TCP_FIN p h
     | RECV_TLS \<Rightarrow> mod_state mod_epoll_out_mig_sock TLS_HS_RECVED p h
     | RECV_FIN \<Rightarrow> mod_state mod_epoll_out_mig_sock ERRORED p h
     | RECV_ERR \<Rightarrow> mod_state mod_epoll_out_mig_sock ERRORED p h
     | RECV_CONTINUE \<Rightarrow> Some h)"

definition event_init :: "bool \<Rightarrow> conn_ptr \<Rightarrow> host \<Rightarrow> host option" where
  "event_init zc p h =
    (let (r, w) = mig_tls_conn zc (conns h p) (wrld h); h = h\<lparr> wrld := w \<rparr> in
     if r < 0 then Some h
     else let h = set_state p CONNECTED h in Some (h\<lparr> new_conns := new_conns h + 1 \<rparr>))"

definition event_connected :: "conn_ptr \<Rightarrow> host \<Rightarrow> host option" where
  "event_connected p h =
    (let (r, w) = send_mig_fin_to_arm (meta_sock h) (conns h p) (wrld h); h = h\<lparr> wrld := w \<rparr> in
     if r < 0 then Some h else mod_state mod_epoll_in_mig_sock READY_TO_RECV p h)"

definition event_recv :: "file_cache list \<Rightarrow> bytes \<Rightarrow> conn_ptr \<Rightarrow> host \<Rightarrow> host option" where
  "event_recv fcache www_main p h =
    (let (ret, c, w) = handle_received_pkt fcache www_main (sock_fd (conns h p)) (conns h p) (wrld h)
     in after_recv ret p (upd_conn p (\<lambda>_. c) (h\<lparr> wrld := w \<rparr>)))"

definition event_resp :: "file_cache list \<Rightarrow> conn_ptr \<Rightarrow> host \<Rightarrow> host option" where
  "event_resp fcache p h =
    (case send_https_resp fcache (sock_fd (conns h p)) (conns h p) (wrld h) of
       None \<Rightarrow> None
     | Some (ret, c, w) \<Rightarrow>
         let h = upd_conn p (\<lambda>_. c) (h\<lparr> wrld := w \<rparr>) in
         if ret < 0 then Some (set_state p ERRORED h)
         else if resp_remain (conns h p) = 0 \<and> keep_alive (conns h p) \<in> {0, 1}
         then mod_state mod_epoll_in_mig_sock READY_TO_RECV p h
         else Some h)"

definition event_tls_hs :: "conn_ptr \<Rightarrow> host \<Rightarrow> host option" where
  "event_tls_hs p h =
    (let (r, w) = send_server_records (conns h p) (wrld h)
     in mod_state mod_epoll_in_mig_sock READY_TO_RECV p (h\<lparr> wrld := w \<rparr>))"

definition worker_event ::
  "bool \<Rightarrow> bool \<Rightarrow> file_cache list \<Rightarrow> bytes \<Rightarrow> event \<Rightarrow> host \<Rightarrow> host option" where
  "worker_event tls13 zc fcache www_main ev h =
    (let p = ev_ptr ev; s = sock_state (conns h p) in
     if sock_fd (conns h p) = meta_sock h then map_option snd (handle_meta_packet tls13 h)
     else if ev_out ev \<and> s = INIT then event_init zc p h
     else if ev_out ev \<and> s = CONNECTED then event_connected p h
     else if ev_in ev \<and> s = READY_TO_RECV then event_recv fcache www_main p h
     else if ev_out ev \<and> s = HTTP_REQ_RECVED then event_resp fcache p h
     else if ev_out ev \<and> s = TLS_HS_RECVED then event_tls_hs p h
     else if ev_in ev \<and> (s = HTTP_RESP_SENT \<or> s = WAIT_TCP_FIN) then close_tcp_conn p h
     else if ev_out ev \<and> (s = HTTP_RESP_SENT \<or> s = ERRORED) then close_tcp_conn p h
     else Some h)"

text \<open>The loop over the events of one \<^verbatim>\<open>epoll_wait\<close>.\<close>

fun worker_events ::
  "bool \<Rightarrow> bool \<Rightarrow> file_cache list \<Rightarrow> bytes \<Rightarrow> event list \<Rightarrow> host \<Rightarrow> host option" where
  "worker_events tls13 zc fcache www_main [] h = Some h"
| "worker_events tls13 zc fcache www_main (ev # evs) h =
    (case worker_event tls13 zc fcache www_main ev h of
       None \<Rightarrow> None
     | Some h \<Rightarrow> worker_events tls13 zc fcache www_main evs h)"

text \<open>The part of \<^verbatim>\<open>worker_thread\<close> before its loop.\<close>

definition worker_init ::
  "(nat \<Rightarrow> conn_ptr option) \<Rightarrow> bool \<Rightarrow> bool \<Rightarrow> conn_ptr option \<Rightarrow> host \<Rightarrow> host option" where
  "worker_init malloc ok1 ok2 mptr h = do {
     h \<leftarrow> conn_pool_init malloc h;
     ht \<leftarrow> host_create_ht ok1 ok2 NUM_BINS;
     let h = h\<lparr> ht_conn := ht \<rparr>;
     (msock, w) \<leftarrow> setup_meta_sock (core_id h) (wrld h);
     let h = h\<lparr> meta_sock := msock, wrld := w \<rparr>;
     if msock < 0 then None
     else let (nb, w) = set_nonblock msock (wrld h); h = h\<lparr> wrld := w \<rparr> in
       if nb < 0 then None
       else (case register_epoll_in_meta_sock mptr msock (wrld h) of
               None \<Rightarrow> None
             | Some (ep, c, w) \<Rightarrow>
                 let h = h\<lparr> epfd := ep, conns := (conns h)(the mptr := c), wrld := w \<rparr>;
                     (t, h) = host_sys Sys_clock h
                 in Some h)
   }"


section \<open>What the operations keep\<close>

text \<open>The identity of a connection: addresses and numbers, socket, and keys.\<close>

definition ident :: "conn_state \<Rightarrow> meta_info \<times> int \<times> crypto_info \<times> crypto_info" where
  "ident c = (meta_info c, sock_fd c, crypto_info_rx c, crypto_info_tx c)"

abbreviation calls :: "world \<Rightarrow> syscall set" where
  "calls w \<equiv> set (w_out w)"

lemma ident_client: "ident c = ident c' \<Longrightarrow> conn_client c = conn_client c'"
  by (simp add: ident_def conn_client_def)

text \<open>What a step of the server keeps of a connection and of the world.\<close>

definition keeps :: "conn_state \<Rightarrow> world \<Rightarrow> conn_state \<Rightarrow> world \<Rightarrow> bool" where
  "keeps c w c' w' \<longleftrightarrow> ident c' = ident c \<and> sock_state c' = sock_state c \<and> calls w \<subseteq> calls w'"

lemma keeps_refl [simp]: "keeps c w c w"
  by (simp add: keeps_def)

lemma keeps_trans: "keeps c w c1 w1 \<Longrightarrow> keeps c1 w1 c2 w2 \<Longrightarrow> keeps c w c2 w2"
  by (auto simp: keeps_def)

lemma handle_request_ident:
  "ident (handle_request fcache www_main c) = ident c" "sock_state (handle_request fcache www_main c) = sock_state c"
  by (simp_all add: handle_request_def ident_def Let_def split: option.split)

lemma handle_received_pkt_keeps:
  assumes "handle_received_pkt fcache www_main sock conn w = (ret, conn', w')"
  shows "keeps conn w conn' w'"
proof -
  have "ident conn' = ident conn" "sock_state conn' = sock_state conn" "w' = snd (sys (Sys_recvmsg sock) w)"
    using assms
    by (auto simp: handle_received_pkt_def Let_def case_prod_beta handle_request_ident split: if_splits option.splits)
      (auto simp: ident_def)
  then show ?thesis by (auto simp: keeps_def)
qed

lemma sendfile_loop_keeps:
  assumes "sendfile_loop sock conn w = Some (ret, conn', w')"
  shows "keeps conn w conn' w'"
  using assms by (induction rule: sendfile_loop_induct) (auto simp: sendfile_adv_def ident_def keeps_def)

lemma build_header_keeps:
  "build_header conn w = Some (ok, conn', w') \<Longrightarrow> keeps conn w conn' w'"
  by (auto simp: build_header_def Let_def case_prod_beta keeps_def ident_def split: option.splits if_splits)

lemma send_header_rest_keeps: "send_header_rest sock conn w = (ret, conn', w') \<Longrightarrow> keeps conn w conn' w'"
  by (auto simp: send_header_rest_def Let_def case_prod_beta keeps_def ident_def split: if_splits)

lemma send_https_header_keeps:
  assumes "send_https_header sock conn w = Some (ret, conn', w')"
  shows "keeps conn w conn' w'"
proof (cases "hdr_sent conn \<or> hdr_len conn \<noteq> 0")
  case True
  with assms show ?thesis by (auto simp: send_https_header_def intro: send_header_rest_keeps split: if_splits)
next
  case False
  with assms obtain ok c1 w1 where "build_header conn w = Some (ok, c1, w1)"
    "send_header_rest sock c1 w1 = (ret, conn', w') \<or> (conn', w') = (c1, w1)"
    by (auto simp: send_https_header_def split: option.splits prod.splits if_splits)
  then show ?thesis using build_header_keeps send_header_rest_keeps keeps_trans by (metis prod.inject)
qed

lemma send_file_content_keeps:
  assumes "send_file_content fcache sock conn w = Some (ret, conn', w')"
  shows "keeps conn w conn' w'"
proof (cases "scode conn = 200 \<and> FILE_SIZE_THRESHOLD < int (fc_size (fcache ! nat (file_idx conn)))")
  case True
  define c1 where "c1 = (if resp_remain conn = 0 then conn\<lparr> resp_offset := 0, resp_remain := fc_size (fcache ! nat (file_idx conn)) \<rparr> else conn)"
  define c2 where "c2 = (if resp_fd c1 < 0 then c1\<lparr> resp_fd := fc_fd (fcache ! nat (file_idx conn)) \<rparr> else c1)"
  have "sendfile_loop sock c2 w = Some (ret, conn', w') \<or> (conn', w') = (c2, w) \<or> (conn', w') = (c1, w)"
    using assms True unfolding send_file_content_def Let_def c1_def[symmetric] c2_def[symmetric]
    by (simp split: if_splits)
  moreover have "keeps conn w c1 w" "keeps conn w c2 w" by (simp_all add: keeps_def ident_def c1_def c2_def)
  ultimately show ?thesis using sendfile_loop_keeps keeps_trans by (metis prod.inject)
next
  case False
  with assms show ?thesis
    by (auto simp: send_file_content_def Let_def case_prod_beta keeps_def ident_def split: if_splits)
qed

lemma finish_resp_keeps: "finish_resp sock conn w = (ret, conn', w') \<Longrightarrow> keeps conn w conn' w'"
  by (auto simp: finish_resp_def handle_ephe_conn_after_resp_sent_def handle_persist_conn_after_resp_sent_def
      reset_conn_for_next_req_def Let_def case_prod_beta keeps_def ident_def split: if_splits)

lemma send_https_resp_keeps:
  assumes "send_https_resp fcache sock conn w = Some (ret, conn', w')"
  shows "keeps conn w conn' w'"
proof -
  from assms obtain r1 c1 w1 where h: "send_https_header sock conn w = Some (r1, c1, w1)"
    by (auto simp: send_https_resp_def split: bind_splits)
  note k1 = send_https_header_keeps[OF h]
  show ?thesis
  proof (cases "r1 = 1 \<and> hdr_sent c1")
    case False
    with assms h k1 show ?thesis by (auto simp: send_https_resp_def split: if_splits)
  next
    case True
    with assms h have "send_resp_body fcache sock c1 w1 = Some (ret, conn', w')" by (simp add: send_https_resp_def)
    then obtain r2 c2 w2 where b: "send_file_content fcache sock c1 w1 = Some (r2, c2, w2)"
      "finish_resp sock c2 w2 = (ret, conn', w') \<or> (conn', w') = (c2, w2)"
      by (auto simp: send_resp_body_def split: bind_splits if_splits)
    show ?thesis
      using keeps_trans[OF k1 send_file_content_keeps[OF b(1)]] b(2) finish_resp_keeps keeps_trans by (metis prod.inject)
  qed
qed


section \<open>Invariant of the thread\<close>

text \<open>The kernel has been given both keys of the connection on its own socket.\<close>

definition keyed :: "conn_state \<Rightarrow> world \<Rightarrow> bool" where
  "keyed c w \<longleftrightarrow> Sys_setsockopt (sock_fd c) TLS_RX (Opt_crypto (crypto_info_rx c)) \<in> calls w \<and>
     Sys_setsockopt (sock_fd c) TLS_TX (Opt_crypto (crypto_info_tx c)) \<in> calls w"

text \<open>The SmartNIC has been told that the migration of this connection is complete.\<close>

definition answered :: "int \<Rightarrow> conn_state \<Rightarrow> world \<Rightarrow> bool" where
  "answered msock c w \<longleftrightarrow> (\<exists>n. Sys_sendto msock (mig_fin_packet (c\<lparr> recv_bytes := n \<rparr>)) \<in> calls w)"

definition progress_ok :: "int \<Rightarrow> conn_state \<Rightarrow> world \<Rightarrow> bool" where
  "progress_ok msock c w \<longleftrightarrow>
     (sock_state c \<notin> {DEFAULT, INIT} \<longrightarrow> keyed c w) \<and>
     (sock_state c \<notin> {DEFAULT, INIT, CONNECTED} \<longrightarrow> answered msock c w)"

definition thread_inv :: "conn_ptr set \<Rightarrow> conn_ptr \<Rightarrow> host \<Rightarrow> bool" where
  "thread_inv A m h \<longleftrightarrow> host_inv A h \<and> m \<notin> A \<and> sock_fd (conns h m) = meta_sock h \<and>
     (\<forall>p \<in> ht_members (ht_conn h). progress_ok (meta_sock h) (conns h p) (wrld h))"

lemma mig_fin_packet_ident:
  "ident c = ident c' \<Longrightarrow> mig_fin_packet (c\<lparr> recv_bytes := n \<rparr>) = mig_fin_packet (c'\<lparr> recv_bytes := n \<rparr>)"
  by (simp add: mig_fin_packet_def ident_def Let_def)

lemma progress_ok_keeps:
  "progress_ok ms c w \<Longrightarrow> keeps c w c' w' \<Longrightarrow> progress_ok ms c' w'"
  by (auto simp: progress_ok_def keeps_def keyed_def answered_def ident_def mig_fin_packet_def Let_def)

lemma progress_ok_world: "progress_ok ms c w \<Longrightarrow> calls w \<subseteq> calls w' \<Longrightarrow> progress_ok ms c w'"
  using progress_ok_keeps[of ms c w c w'] by (simp add: keeps_def)

lemma progress_ok_early: "sock_state c \<in> {DEFAULT, INIT} \<Longrightarrow> progress_ok ms c w"
  by (auto simp: progress_ok_def)

lemma progress_ok_late:
  assumes "progress_ok ms c w" "sock_state c \<notin> {DEFAULT, INIT, CONNECTED}"
  shows "progress_ok ms (c\<lparr> sock_state := s \<rparr>) w"
  using assms by (auto simp: progress_ok_def keyed_def answered_def mig_fin_packet_def Let_def)

text \<open>An operation that changes one linked connection.\<close>

lemma thread_inv_upd:
  assumes inv: "thread_inv A m h" and p: "p \<in> ht_members (ht_conn h)"
    and c: "ident c = ident (conns h p)" and w: "calls (wrld h) \<subseteq> calls w" and ok: "progress_ok (meta_sock h) c w"
  shows "thread_inv A m (upd_conn p (\<lambda>_. c) (h\<lparr> wrld := w \<rparr>))"
proof -
  have i: "host_inv A (upd_conn p (\<lambda>_. c) (h\<lparr> wrld := w \<rparr>))"
    using inv ident_client[OF c] by (intro host_inv_upd_conn) (simp_all add: thread_inv_def)
  have "p \<in> A" using inv p by (auto simp: thread_inv_def host_inv_def)
  then have "p \<noteq> m" using inv by (auto simp: thread_inv_def)
  moreover have "progress_ok (meta_sock h) (if q = p then c else conns h q) w" if "q \<in> ht_members (ht_conn h)" for q
    using inv that ok w progress_ok_world[of "meta_sock h" "conns h q" "wrld h" w] by (simp add: thread_inv_def)
  ultimately show ?thesis
    using inv i unfolding thread_inv_def by (simp add: upd_conn_def)
qed

lemma thread_inv_world:
  assumes "thread_inv A m h" "calls (wrld h) \<subseteq> calls w"
  shows "thread_inv A m (h\<lparr> wrld := w \<rparr>)"
  using assms progress_ok_world[OF _ assms(2)] unfolding thread_inv_def by simp

lemma thread_inv_step:
  assumes inv: "thread_inv A m h" and hi: "host_inv A h'" and w: "calls (wrld h) \<subseteq> calls (wrld h')"
    and ms: "meta_sock h' = meta_sock h" and m: "conns h' m = conns h m"
    and cs: "\<And>q. q \<in> ht_members (ht_conn h') \<Longrightarrow>
      q \<in> ht_members (ht_conn h) \<and> conns h' q = conns h q \<or> sock_state (conns h' q) \<in> {DEFAULT, INIT}"
  shows "thread_inv A m h'"
proof -
  have "progress_ok (meta_sock h') (conns h' q) (wrld h')" if "q \<in> ht_members (ht_conn h')" for q
    using cs[OF that]
  proof
    assume q: "q \<in> ht_members (ht_conn h) \<and> conns h' q = conns h q"
    with inv have "progress_ok (meta_sock h) (conns h q) (wrld h)" by (simp add: thread_inv_def)
    from progress_ok_world[OF this w] q ms show ?thesis by simp
  qed (rule progress_ok_early)
  then show ?thesis using inv hi ms m by (simp add: thread_inv_def)
qed

lemma thread_inv_counters [simp]:
  "thread_inv A m (h\<lparr> new_conns := n \<rparr>) = thread_inv A m h"
  by (simp add: thread_inv_def host_inv_def pool_inv_def pool_free_list_def)

lemma epoll_op_calls: "epoll_op ep c w = Some (e, w') \<Longrightarrow> calls w \<subseteq> calls w'"
  by (auto simp: epoll_op_def Let_def case_prod_beta split: if_splits)

lemmas epoll_mod_defs =
  mod_epoll_inout_mig_sock_def mod_epoll_in_mig_sock_def mod_epoll_out_mig_sock_def remove_epoll_mig_sock_def

lemma mod_state_inv:
  assumes "mod_state md s p h = Some h'" "thread_inv A m h" "p \<in> ht_members (ht_conn h)"
    and "\<And>p fd ep w e w'. md p fd ep w = Some (e, w') \<Longrightarrow> calls w \<subseteq> calls w'"
    and "progress_ok (meta_sock h) ((conns h p)\<lparr> sock_state := s \<rparr>) (wrld h)"
  shows "thread_inv A m h'"
proof -
  from assms(1) obtain e w where m: "md p (sock_fd (conns h p)) (epfd h) (wrld h) = Some (e, w)"
    "h' = upd_conn p (\<lambda>_. (conns h p)\<lparr> sock_state := s \<rparr>) (h\<lparr> wrld := w \<rparr>)"
    by (auto simp: mod_state_def upd_conn_def split: option.splits)
  show ?thesis unfolding m(2)
    by (rule thread_inv_upd[OF assms(2,3)]) (use assms(4)[OF m(1)] progress_ok_world[OF assms(5)] in \<open>auto simp: ident_def\<close>)
qed

lemma epoll_mod_calls:
  "mod_epoll_inout_mig_sock p fd ep w = Some (e, w') \<Longrightarrow> calls w \<subseteq> calls w'"
  "mod_epoll_in_mig_sock p fd ep w = Some (e, w') \<Longrightarrow> calls w \<subseteq> calls w'"
  "mod_epoll_out_mig_sock p fd ep w = Some (e, w') \<Longrightarrow> calls w \<subseteq> calls w'"
  "remove_epoll_mig_sock fd ep w = Some (e, w') \<Longrightarrow> calls w \<subseteq> calls w'"
  by (auto simp: epoll_mod_defs dest: epoll_op_calls)


lemma after_recv_inv:
  assumes "after_recv ret p h = Some h'" "thread_inv A m h" "p \<in> ht_members (ht_conn h)"
    and "sock_state (conns h p) = READY_TO_RECV"
  shows "thread_inv A m h'"
proof -
  have "progress_ok (meta_sock h) ((conns h p)\<lparr> sock_state := s \<rparr>) (wrld h)" for s
    using assms(2-4) by (intro progress_ok_late) (auto simp: thread_inv_def)
  then show ?thesis
    using assms(1,2) by (cases ret) (auto simp: after_recv_def intro: mod_state_inv[OF _ assms(2,3)] dest: epoll_mod_calls)
qed

lemma event_init_inv:
  assumes "event_init zc p h = Some h'" "thread_inv A m h" "p \<in> ht_members (ht_conn h)"
  shows "thread_inv A m h'"
proof -
  let ?c = "conns h p"
  obtain r w where t: "mig_tls_conn zc ?c (wrld h) = (r, w)" by fastforce
  have w: "calls (wrld h) \<subseteq> calls w"
    using t by (auto simp: mig_tls_conn_def Let_def case_prod_beta split: if_splits)
  have k: "r < 0 \<or> keyed ?c w"
    using t by (auto simp: mig_tls_conn_def keyed_def Let_def case_prod_beta split: if_splits)
  have ok: "progress_ok (meta_sock h) ?c (wrld h)" using assms(2,3) by (simp add: thread_inv_def)
  show ?thesis
  proof (cases "r < 0")
    case True
    then have "h' = h\<lparr> wrld := w \<rparr>" using assms(1) t by (simp add: event_init_def)
    then show ?thesis using thread_inv_world[OF assms(2) w] by simp
  next
    case False
    let ?c' = "?c\<lparr> sock_state := CONNECTED \<rparr>"
    have "h' = (upd_conn p (\<lambda>_. ?c') (h\<lparr> wrld := w \<rparr>))\<lparr> new_conns := new_conns h + 1 \<rparr>"
      using assms(1) t False by (simp add: event_init_def upd_conn_def)
    moreover have "progress_ok (meta_sock h) ?c' w"
      using k False by (simp add: progress_ok_def keyed_def)
    ultimately show ?thesis
      using thread_inv_upd[OF assms(2,3) _ w, of ?c'] by (simp add: ident_def)
  qed
qed

lemma event_connected_inv:
  assumes "event_connected p h = Some h'" "thread_inv A m h" "p \<in> ht_members (ht_conn h)"
    and "sock_state (conns h p) = CONNECTED"
  shows "thread_inv A m h'"
proof -
  let ?c = "conns h p"
  obtain r w where t: "send_mig_fin_to_arm (meta_sock h) ?c (wrld h) = (r, w)" by fastforce
  have o: "w_out w = w_out (wrld h) @ [Sys_sendto (meta_sock h) (mig_fin_packet ?c)]"
    using send_mig_fin_out[of "meta_sock h" ?c "wrld h"] t by simp
  have ok: "progress_ok (meta_sock h) ?c (wrld h)" using assms(2,3) by (simp add: thread_inv_def)
  have inv: "thread_inv A m (h\<lparr> wrld := w \<rparr>)" using thread_inv_world[OF assms(2), of w] o by auto
  have "answered (meta_sock h) (?c\<lparr> sock_state := READY_TO_RECV \<rparr>) w"
    unfolding answered_def o by (rule exI[of _ "recv_bytes ?c"]) (simp add: mig_fin_packet_def)
  then have "progress_ok (meta_sock h) (?c\<lparr> sock_state := READY_TO_RECV \<rparr>) w"
    using ok assms(4) o by (auto simp: progress_ok_def keyed_def)
  then show ?thesis
    using assms(1,3) t inv mod_state_inv[OF _ inv, of mod_epoll_in_mig_sock READY_TO_RECV p h']
    by (auto simp: event_connected_def Let_def split: if_splits dest: epoll_mod_calls)
qed

lemma event_recv_inv:
  assumes "event_recv fcache www_main p h = Some h'" "thread_inv A m h" "p \<in> ht_members (ht_conn h)"
    and "sock_state (conns h p) = READY_TO_RECV"
  shows "thread_inv A m h'"
proof -
  obtain ret c w where r: "handle_received_pkt fcache www_main (sock_fd (conns h p)) (conns h p) (wrld h) = (ret, c, w)"
    by (metis prod_cases3)
  note k = handle_received_pkt_keeps[OF r]
  let ?h = "upd_conn p (\<lambda>_. c) (h\<lparr> wrld := w \<rparr>)"
  have "progress_ok (meta_sock h) c w"
    using assms(2,3) by (intro progress_ok_keeps[OF _ k]) (simp add: thread_inv_def)
  then have "thread_inv A m ?h" using k by (intro thread_inv_upd[OF assms(2,3)]) (simp_all add: keeps_def)
  then show ?thesis
    using assms(1,3,4) r k after_recv_inv[of ret p ?h h'] by (simp add: event_recv_def upd_conn_def keeps_def)
qed

lemma event_resp_inv:
  assumes "event_resp fcache p h = Some h'" "thread_inv A m h" "p \<in> ht_members (ht_conn h)"
    and "sock_state (conns h p) = HTTP_REQ_RECVED"
  shows "thread_inv A m h'"
proof -
  from assms(1) obtain ret c w where r: "send_https_resp fcache (sock_fd (conns h p)) (conns h p) (wrld h) = Some (ret, c, w)"
    by (auto simp: event_resp_def split: option.splits)
  note k = send_https_resp_keeps[OF r]
  let ?h = "upd_conn p (\<lambda>_. c) (h\<lparr> wrld := w \<rparr>)"
  have ok: "progress_ok (meta_sock h) c w"
    using assms(2,3) by (intro progress_ok_keeps[OF _ k]) (simp add: thread_inv_def)
  then have inv: "thread_inv A m ?h" using k by (intro thread_inv_upd[OF assms(2,3)]) (simp_all add: keeps_def)
  have f: "conns ?h p = c" "ht_conn ?h = ht_conn h" "wrld ?h = w" "meta_sock ?h = meta_sock h" by (simp_all add: upd_conn_def)
  have late: "progress_ok (meta_sock h) (c\<lparr> sock_state := s \<rparr>) w" for s
    using ok k assms(4) by (intro progress_ok_late) (auto simp: keeps_def)
  have "thread_inv A m (set_state p ERRORED ?h)"
    using thread_inv_upd[OF inv, of p "c\<lparr> sock_state := ERRORED \<rparr>" w] late assms(3)
    by (simp add: f ident_def) (simp add: upd_conn_def)
  moreover have "thread_inv A m h''" if "mod_state mod_epoll_in_mig_sock READY_TO_RECV p ?h = Some h''" for h''
    using mod_state_inv[OF that inv] assms(3) late by (auto simp: f dest: epoll_mod_calls)
  ultimately show ?thesis
    using assms(1) r inv by (auto simp: event_resp_def Let_def split: if_splits)
qed

lemma event_tls_hs_inv:
  assumes "event_tls_hs p h = Some h'" "thread_inv A m h" "p \<in> ht_members (ht_conn h)"
    and "sock_state (conns h p) = TLS_HS_RECVED"
  shows "thread_inv A m h'"
proof -
  obtain r w where t: "send_server_records (conns h p) (wrld h) = (r, w)" by fastforce
  have w: "calls (wrld h) \<subseteq> calls w"
    using t by (auto simp: send_server_records_def Let_def case_prod_beta split: if_splits)
  have "progress_ok (meta_sock h) ((conns h p)\<lparr> sock_state := READY_TO_RECV \<rparr>) w"
    using assms(2-4) by (intro progress_ok_world[OF progress_ok_late w]) (simp_all add: thread_inv_def)
  then show ?thesis
    using assms(1,3) t mod_state_inv[OF _ thread_inv_world[OF assms(2) w], of mod_epoll_in_mig_sock READY_TO_RECV p h']
    by (auto simp: event_tls_hs_def dest: epoll_mod_calls)
qed

lemma conn_state_free_conns:
  "q \<noteq> p \<Longrightarrow> conns (conn_state_free (Some p) h) q = conns h q"
  "sock_state (conns (conn_state_free (Some p) h) p) = sock_state (conns h p)"
  "meta_sock (conn_state_free (Some p) h) = meta_sock h"
  "calls (wrld h) \<subseteq> calls (wrld (conn_state_free (Some p) h))"
  by (auto simp: conn_state_free_def upd_conn_def host_sys_def sys_def Let_def)

lemma account_close_frame:
  "ht_conn (account_close p h) = ht_conn h" "meta_sock (account_close p h) = meta_sock h"
  "q \<noteq> p \<Longrightarrow> conns (account_close p h) q = conns h q"
  "calls (wrld h) \<subseteq> calls (wrld (account_close p h))"
  "host_mid A p h \<Longrightarrow> host_mid A p (account_close p h)"
proof -
  define h0 where "h0 = h\<lparr> closed_conns := closed_conns h + 1 \<rparr>"
  define h1 where "h1 = upd_conn p (\<lambda>c. c\<lparr> conn_fin := timespec_of (fst (host_sys Sys_clock h0)) \<rparr>) (snd (host_sys Sys_clock h0))"
  obtain t where h: "account_close p h = h1\<lparr> total_conn_time := t \<rparr>"
    by (simp add: account_close_def h1_def h0_def Let_def case_prod_beta)
  show "ht_conn (account_close p h) = ht_conn h" "meta_sock (account_close p h) = meta_sock h"
    "q \<noteq> p \<Longrightarrow> conns (account_close p h) q = conns h q" "calls (wrld h) \<subseteq> calls (wrld (account_close p h))"
    by (auto simp: h h1_def h0_def upd_conn_def host_sys_def sys_def)
  show "host_mid A p (account_close p h)" if "host_mid A p h"
  proof -
    have "host_mid A p h0" using that by (simp add: h0_def host_mid_def pool_inv_def pool_free_list_def)
    then have "host_mid A p h1" unfolding h1_def by (intro host_mid_upd) simp
    then show ?thesis by (simp add: h host_mid_def pool_inv_def pool_free_list_def)
  qed
qed

lemma host_member_lookup:
  assumes "host_inv A h" "p \<in> ht_members (ht_conn h)"
  shows "host_lookup h (fst (host_key h p)) (snd (host_key h p)) = Some p"
  using assms host_tab.srch_iff[of "host_key h" "ht_conn h" "host_key h p" p] by (simp add: host_inv_def case_prod_beta)

lemma close_tcp_conn_effect:
  assumes "close_tcp_conn p h = Some h'" "host_inv A h" "p \<in> ht_members (ht_conn h)"
  obtains w h2 where "calls (wrld h) \<subseteq> calls w"
    "h2 = account_close p (h\<lparr> wrld := w, ht_conn := host_ht_remove (host_key h) (ht_conn h) p \<rparr>)"
    "h' = conn_state_free (Some p) h2"
proof -
  obtain r w1 where s: "send_close_to_arm (meta_sock h) (meta_info (conns h p)) (wrld h) = (r, w1)" by fastforce
  then have c1: "calls (wrld h) \<subseteq> calls w1"
    using send_close_out[of "meta_sock h" "meta_info (conns h p)" "wrld h"] by auto
  from assms(1) s obtain e w2 where e: "remove_epoll_mig_sock (sock_fd (conns h p)) (epfd h) w1 = Some (e, w2)"
    by (auto simp: close_tcp_conn_def split: option.splits)
  let ?w = "snd (sys (Sys_close (sock_fd (conns h p))) w2)"
  have l: "host_ht_search (host_key h) (ht_conn h) (mi_client_ip (meta_info (conns h p)))
      (mi_client_port (meta_info (conns h p))) = Some p"
    using host_member_lookup[OF assms(2,3)] by (simp add: conn_client_def)
  have "h' = conn_state_free (Some p) (account_close p (h\<lparr> wrld := ?w, ht_conn := host_ht_remove (host_key h) (ht_conn h) p \<rparr>))"
    using assms(1) s e l by (simp add: close_tcp_conn_def host_sys_def case_prod_beta Let_def)
  with c1 epoll_mod_calls(4)[OF e] show ?thesis by (intro that[of ?w]) auto
qed

lemma close_tcp_conn_inv:
  assumes "close_tcp_conn p h = Some h'" "thread_inv A m h" "p \<in> ht_members (ht_conn h)"
  shows "thread_inv A m h'"
proof -
  have hi: "host_inv A h" and ma: "m \<notin> A" using assms(2) by (simp_all add: thread_inv_def)
  from close_tcp_conn_effect[OF assms(1) hi assms(3)] obtain w h2 where w: "calls (wrld h) \<subseteq> calls w"
    and h2: "h2 = account_close p (h\<lparr> wrld := w, ht_conn := host_ht_remove (host_key h) (ht_conn h) p \<rparr>)"
    and h': "h' = conn_state_free (Some p) h2" by blast
  have "host_mid A p (h\<lparr> wrld := w, ht_conn := host_ht_remove (host_key h) (ht_conn h) p \<rparr>)"
    using host_remove_mid[of A "h\<lparr> wrld := w \<rparr>" p] hi assms(3) by simp
  then have mid: "host_mid A p h2" unfolding h2 by (rule account_close_frame(5))
  have hi': "host_inv A h'" unfolding h' by (rule host_mid_free[OF mid])
  have mem: "ht_members (ht_conn h') \<subseteq> ht_members (ht_conn h) - {p}"
    using host_tab.del_member[of "host_key h" "ht_conn h" p] hi assms(3)
    by (simp add: h' h2 conn_state_free_frame account_close_frame host_inv_def)
  have pa: "p \<in> A" using hi assms(3) by (auto simp: host_inv_def)
  have cs: "conns h' q = conns h q" if "q \<noteq> p" for q
    using that by (simp add: h' h2 conn_state_free_conns account_close_frame)
  have ms: "meta_sock h' = meta_sock h" by (simp add: h' h2 conn_state_free_conns account_close_frame)
  have "calls w \<subseteq> calls (wrld h2)" using account_close_frame(4)[of "h\<lparr> wrld := w, ht_conn := host_ht_remove (host_key h) (ht_conn h) p \<rparr>" p] h2 by simp
  then have wc: "calls (wrld h) \<subseteq> calls (wrld h')" using w conn_state_free_conns(4)[of h2 p] unfolding h' by blast
  have "m \<noteq> p" using pa ma by auto
  then show ?thesis using mem cs by (intro thread_inv_step[OF assms(2) hi' wc ms]) auto
qed

text \<open>Packets from the SmartNIC change linked connections only by linking a new one.\<close>

lemma fill_conn_frame:
  assumes "fill_conn tls13 n h = Some (p, h')"
  shows "sock_state (conns h' p) = DEFAULT" "q \<noteq> p \<Longrightarrow> conns h' q = conns h q" "ht_conn h' = ht_conn h"
    "meta_sock h' = meta_sock h" "calls (wrld h) \<subseteq> calls (wrld h')"
  using assms
  by (auto simp: fill_conn_def conn_state_alloc_def Let_def upd_conn_def host_sys_def sys_def conn_zero_def
      handle_sccs_sf_records_def split: prod.splits option.splits if_splits)

lemma set_mig_sock_calls_mono: "calls w \<subseteq> calls (snd (set_mig_sock mi w))"
  by (auto simp: set_mig_sock_def Let_def case_prod_beta)

lemma set_nonblock_calls: "calls w \<subseteq> calls (snd (set_nonblock fd w))"
  by (auto simp: set_nonblock_def Let_def case_prod_beta)

lemma mig_tcp_conn_calls: "mig_tcp_conn p c ep w = Some (r, w') \<Longrightarrow> calls w \<subseteq> calls w'"
  by (auto simp: mig_tcp_conn_def register_epoll_out_mig_sock_def Let_def case_prod_beta
      dest!: epoll_op_calls split: option.splits if_splits)

lemma migrate_conn_frame:
  assumes "migrate_conn p h = Some (r, h')" "sock_state (conns h p) = DEFAULT"
  shows "q \<noteq> p \<Longrightarrow> conns h' q = conns h q" "sock_state (conns h' p) \<in> {DEFAULT, INIT}"
    "meta_sock h' = meta_sock h" "calls (wrld h) \<subseteq> calls (wrld h')"
    "ht_conn h' \<in> {ht_conn h, host_ht_remove (host_key h) (ht_conn h) p}"
proof -
  obtain fd w1 where s: "set_mig_sock (meta_info (conns h p)) (wrld h) = (fd, w1)" by fastforce
  obtain nb w2 where n: "set_nonblock fd w1 = (nb, w2)" by fastforce
  let ?h = "upd_conn p (\<lambda>c. c\<lparr> sock_fd := fd \<rparr>) (h\<lparr> wrld := w2 \<rparr>)"
  let ?h1 = "?h\<lparr> ht_conn := host_ht_remove (host_key ?h) (ht_conn ?h) p \<rparr>"
  have w2: "calls (wrld h) \<subseteq> calls w2"
    using set_mig_sock_calls_mono[of "wrld h" "meta_info (conns h p)"] set_nonblock_calls[of w1 fd] s n by auto
  have k: "host_key ?h = host_key h" by (auto simp: upd_conn_def conn_client_def)
  from assms(1) s n consider (nb) "h' = snd (host_sys (Sys_close fd) ?h)"
    | (fail) w where "calls w2 \<subseteq> calls w"
        "h' = conn_state_free (Some p) (snd (host_sys (Sys_close fd) (?h1\<lparr> wrld := w \<rparr>)))"
    | (ok) w where "calls w2 \<subseteq> calls w" "h' = upd_conn p (\<lambda>c. c\<lparr> sock_state := INIT \<rparr>) (?h\<lparr> wrld := w \<rparr>)"
    by (auto simp: migrate_conn_def Let_def upd_conn_def host_sys_def split: option.splits prod.splits if_splits
        dest!: mig_tcp_conn_calls)
  note cases = this
  show "q \<noteq> p \<Longrightarrow> conns h' q = conns h q"
    by (cases rule: cases) (simp_all add: host_sys_def sys_def upd_conn_def conn_state_free_conns)
  show "sock_state (conns h' p) \<in> {DEFAULT, INIT}" "meta_sock h' = meta_sock h"
    using assms(2) by (cases rule: cases; simp add: host_sys_def sys_def upd_conn_def conn_state_free_conns)+
  show "calls (wrld h) \<subseteq> calls (wrld h')"
    using w2 conn_state_free_conns(4)
    by (cases rule: cases) (fastforce simp: host_sys_def sys_def upd_conn_def)+
  have u: "ht_conn (upd_conn q f g) = ht_conn g" for q f g by (simp add: upd_conn_def)
  show "ht_conn h' \<in> {ht_conn h, host_ht_remove (host_key h) (ht_conn h) p}"
    by (cases rule: cases) (simp_all add: host_sys_def sys_def conn_state_free_frame k u)
qed

lemma install_conn_frame:
  assumes inv: "host_inv A h" and cl: "meta_client (meta_buf h) = (ip, port)" and none: "host_lookup h ip port = None"
    and run: "install_conn tls13 n h = Some (r, h')"
  obtains p where "p \<in> A" "p \<notin> ht_members (ht_conn h)" "\<And>q. q \<noteq> p \<Longrightarrow> conns h' q = conns h q"
    "sock_state (conns h' p) \<in> {DEFAULT, INIT}" "meta_sock h' = meta_sock h" "calls (wrld h) \<subseteq> calls (wrld h')"
    "ht_members (ht_conn h') \<subseteq> insert p (ht_members (ht_conn h))"
proof -
  from run obtain p h1 where f: "fill_conn tls13 n h = Some (p, h1)"
    and g: "migrate_conn p (h1\<lparr> ht_conn := host_ht_insert (host_key h1) (ht_conn h1) p \<rparr>) = Some (r, h')"
    by (auto simp: install_conn_def split: option.splits)
  note fr = fill_conn_frame[OF f]
  note fm = fill_conn_mid[OF inv f]
  let ?h2 = "h1\<lparr> ht_conn := host_ht_insert (host_key h1) (ht_conn h1) p \<rparr>"
  have l: "host_lookup h1 ip port = None" using fm(3) none by simp
  note ins = host_mid_insert[OF fm(1) _ l]
  have cc: "conn_client (conns h1 p) = (ip, port)" using fm(2) cl by simp
  have tab: "table_inv host_calculate_hash (host_key h1) (ht_conn h1)" using fm(1) by (simp add: host_mid_def)
  have m2: "ht_members (ht_conn ?h2) = insert p (ht_members (ht_conn h))"
    using host_tab.ins_fresh[OF tab, of p] l cc by (simp add: fr(3))
  have i2: "host_inv A ?h2" using ins(1)[OF cc] .
  have key2: "host_key ?h2 = host_key h1" by simp
  note mf = migrate_conn_frame[OF g]
  have st: "sock_state (conns ?h2 p) = DEFAULT" using fr(1) by simp
  have sub: "ht_members (ht_conn h') \<subseteq> insert p (ht_members (ht_conn h))"
  proof -
    have t2: "table_inv host_calculate_hash (host_key ?h2) (ht_conn ?h2)" using i2 by (simp add: host_inv_def)
    have "p \<in> ht_members (ht_conn ?h2)" using m2 by simp
    from host_tab.del_member[OF t2 this] m2
    have "ht_members (host_ht_remove (host_key ?h2) (ht_conn ?h2) p) \<subseteq> insert p (ht_members (ht_conn h))" by blast
    moreover have "ht_members (ht_conn ?h2) \<subseteq> insert p (ht_members (ht_conn h))" using m2 by blast
    ultimately show ?thesis using mf(5)[OF st] by (metis insert_iff singletonD)
  qed
  show ?thesis
  proof (rule that[of p])
    show "p \<in> A" using fm(1) by (auto simp: host_mid_def)
    show "p \<notin> ht_members (ht_conn h)" using fm(1) by (simp add: host_mid_def fr(3))
    show "\<And>q. q \<noteq> p \<Longrightarrow> conns h' q = conns h q" using mf(1)[OF st] fr(2) by simp
    show "sock_state (conns h' p) \<in> {DEFAULT, INIT}" by (rule mf(2)[OF st])
    show "meta_sock h' = meta_sock h" using mf(3)[OF st] fr(4) by simp
    show "calls (wrld h) \<subseteq> calls (wrld h')" using order_trans[OF fr(5)] mf(4)[OF st] by simp
  qed (rule sub)
qed

lemma install_conn_thread:
  assumes inv: "thread_inv A m h" and cl: "meta_client (meta_buf h) = (ip, port)" and none: "host_lookup h ip port = None"
    and run: "install_conn tls13 n h = Some (r, h')"
  shows "thread_inv A m h'"
proof -
  have hi: "host_inv A h" "m \<notin> A" using inv by (simp_all add: thread_inv_def)
  from install_conn_frame[OF hi(1) cl none run] obtain p where p: "p \<in> A" "p \<notin> ht_members (ht_conn h)"
    "\<And>q. q \<noteq> p \<Longrightarrow> conns h' q = conns h q" "sock_state (conns h' p) \<in> {DEFAULT, INIT}" "meta_sock h' = meta_sock h"
    "calls (wrld h) \<subseteq> calls (wrld h')" "ht_members (ht_conn h') \<subseteq> insert p (ht_members (ht_conn h))" by blast
  show ?thesis
  proof (rule thread_inv_step[OF inv install_conn_inv[OF hi(1) cl none run] p(6,5)])
    have "m \<noteq> p" using p(1) hi(2) by auto
    then show "conns h' m = conns h m" by (rule p(3))
    show "q \<in> ht_members (ht_conn h) \<and> conns h' q = conns h q \<or> sock_state (conns h' q) \<in> {DEFAULT, INIT}"
      if "q \<in> ht_members (ht_conn h')" for q
      using p(3,4,7) that by (cases "q = p") auto
  qed
qed

lemma thread_inv_buf [simp]:
  "thread_inv A m (h\<lparr> meta_buf := b \<rparr>) = thread_inv A m h"
  "thread_inv A m (h\<lparr> key_metas := k \<rparr>) = thread_inv A m h"
  by (simp_all add: thread_inv_def)

lemma handle_key_packet_thread:
  assumes "thread_inv A m h" "handle_key_packet tls13 n h = Some (r, h')"
  shows "thread_inv A m h'"
  using assms(2)
proof (cases rule: handle_key_packet_cases)
  case (known ip port p w)
  have "thread_inv A m ((h\<lparr> key_metas := key_metas h + 1 \<rparr>)\<lparr> wrld := w \<rparr>)"
    by (rule thread_inv_world) (use assms(1) known(5) in auto)
  with known(4) show ?thesis by simp
next
  case (fresh ip port)
  show ?thesis by (rule install_conn_thread[OF _ _ _ fresh(3)]) (use assms(1) fresh(1,2) in simp_all)
qed

text \<open>The frame about to be received is not a reset for one connection that carries the
  address of another.\<close>

definition rst_ok :: "host \<Rightarrow> bool" where
  "rst_ok h \<longleftrightarrow> (let buf = blit (meta_buf h) 0 (rdata (w_env (wrld h) (w_n (wrld h)))) in
     validate_meta_type buf = META_TYPE_RST_CONN \<longrightarrow>
       case_prod (host_lookup h) (meta_client buf) \<in> {None, host_lookup h (ntohl (ld32 buf 0)) (ntohs (ld16 buf 14))})"

lemma handle_rst_conn_packet_thread:
  assumes inv: "thread_inv A m h" and run: "handle_rst_conn_packet tls13 n h = Some (r, h')"
    and same: "case_prod (host_lookup h) (meta_client (meta_buf h)) \<in>
      {None, host_lookup h (ntohl (ld32 (meta_buf h) 0)) (ntohs (ld16 (meta_buf h) 14))}"
  shows "thread_inv A m h'"
proof (cases "host_lookup h (ntohl (ld32 (meta_buf h) 0)) (ntohs (ld16 (meta_buf h) 14))")
  case None
  with run inv show ?thesis by (simp add: handle_rst_conn_packet_def Let_def)
next
  case (Some p)
  have hi: "host_inv A h" "m \<notin> A" using inv by (simp_all add: thread_inv_def)
  have tab: "table_inv host_calculate_hash (host_key h) (ht_conn h)" using hi by (simp add: host_inv_def)
  let ?k0 = "(ntohl (ld32 (meta_buf h) 0), ntohs (ld16 (meta_buf h) 14))"
  have p: "p \<in> ht_members (ht_conn h)" "host_key h p = ?k0"
    using host_tab.srch_iff[OF tab, of ?k0 p] Some by auto
  define h1 where "h1 = h\<lparr> ht_conn := host_ht_remove (host_key h) (ht_conn h) p \<rparr>"
  define w where "w = snd (sys (Sys_close (sock_fd (conns h p))) (wrld h))"
  define h2 where "h2 = conn_state_free (Some p) (h1\<lparr> wrld := w \<rparr>)"
  note u = host_unlink_free[OF hi(1) p(1) h1_def, of w, folded h2_def]
  have buf: "meta_buf h2 = meta_buf h"
    by (simp add: h2_def h1_def conn_state_free_def upd_conn_def host_sys_def sys_def Let_def)
  have i2: "thread_inv A m h2"
  proof (rule thread_inv_step[OF inv u(1)])
    show "calls (wrld h) \<subseteq> calls (wrld h2)"
      using conn_state_free_conns(4)[of "h1\<lparr> wrld := w \<rparr>" p] by (auto simp: h2_def w_def)
    show "meta_sock h2 = meta_sock h" by (simp add: h2_def h1_def conn_state_free_conns)
    have "p \<in> A" using hi p(1) by (auto simp: host_inv_def)
    then have "m \<noteq> p" using hi(2) by auto
    then show "conns h2 m = conns h m" by (simp add: h2_def h1_def conn_state_free_conns)
    fix q assume "q \<in> ht_members (ht_conn h2)"
    then have "q \<in> ht_members (ht_conn h)" "q \<noteq> p"
      using host_tab.del_member[OF tab p(1)] by (auto simp: h2_def h1_def conn_state_free_frame)
    then show "q \<in> ht_members (ht_conn h) \<and> conns h2 q = conns h q \<or> sock_state (conns h2 q) \<in> {DEFAULT, INIT}"
      by (simp add: h2_def h1_def conn_state_free_conns)
  qed
  obtain ip port where cl: "meta_client (meta_buf h2) = (ip, port)" by fastforce
  have "host_lookup h2 ip port = None"
    using same cl Some u(2)[of ip port] host_tab.srch_iff[OF tab, of "(ip, port)" p] p(2) unfolding buf by auto
  from install_conn_thread[OF i2 cl this] run Some show ?thesis
    by (simp add: handle_rst_conn_packet_def h2_def h1_def w_def host_sys_def case_prod_beta Let_def)
qed

lemma handle_meta_packet_thread:
  assumes inv: "thread_inv A m h" and run: "handle_meta_packet tls13 h = Some (r, h')" and "rst_ok h"
  shows "thread_inv A m h'"
proof -
  define buf where "buf = blit (meta_buf h) 0 (rdata (w_env (wrld h) (w_n (wrld h))))"
  define h1 where "h1 = h\<lparr> wrld := snd (sys (Sys_recvfrom (meta_sock h)) (wrld h)) \<rparr>"
  define h2 where "h2 = h1\<lparr> meta_buf := buf \<rparr>"
  let ?n = "nat (rv (w_env (wrld h) (w_n (wrld h))))"
  have i1: "thread_inv A m h1" unfolding h1_def by (rule thread_inv_world[OF inv]) auto
  then have i2: "thread_inv A m h2" by (simp add: h2_def)
  have l: "meta_buf h2 = buf" "host_lookup h2 = host_lookup h" by (simp_all add: h2_def h1_def)
  have e: "handle_meta_packet tls13 h =
     (if rv (w_env (wrld h) (w_n (wrld h))) < 0 then Some (- 1, h1)
      else case validate_meta_type buf of
         META_TYPE_UNKNOWN \<Rightarrow> Some (- 1, h2)
       | META_TYPE_KEY \<Rightarrow> handle_key_packet tls13 ?n h2
       | META_TYPE_RST_CONN \<Rightarrow> handle_rst_conn_packet tls13 ?n h2
       | META_TYPE_WEIRD_SYN \<Rightarrow> handle_unterminated_conn h2)"
    unfolding buf_def h1_def h2_def
    by (simp add: handle_meta_packet_def host_sys_def case_prod_beta Let_def buf_def split: meta_type.split)
  have rst: "thread_inv A m h'" if "handle_rst_conn_packet tls13 ?n h2 = Some (r, h')"
      "validate_meta_type buf = META_TYPE_RST_CONN"
    using that(2) assms(3)
    by (intro handle_rst_conn_packet_thread[OF i2 that(1)]) (simp add: l rst_ok_def buf_def[symmetric])
  have syn: "thread_inv A m h'" if "handle_unterminated_conn h2 = Some (r, h')"
  proof -
    from that obtain mi where "h' = h2\<lparr> wrld := snd (send_close_to_arm (meta_sock h2) mi (wrld h2)) \<rparr>"
      by (auto simp: handle_unterminated_conn_def Let_def case_prod_beta)
    moreover have "calls (wrld h2) \<subseteq> calls (snd (send_close_to_arm (meta_sock h2) mi (wrld h2)))" by auto
    ultimately show ?thesis using thread_inv_world[OF i2] by blast
  qed
  show ?thesis
    using run i1 i2 handle_key_packet_thread[OF i2] rst syn
    unfolding e by (auto split: if_splits meta_type.splits)
qed

lemma worker_event_inv:
  assumes inv: "thread_inv A m h" and run: "worker_event tls13 zc fcache www_main ev h = Some h'"
    and ev: "ev_ptr ev \<in> insert m (ht_members (ht_conn h))" and rst: "rst_ok h"
  shows "thread_inv A m h'"
proof (cases "sock_fd (conns h (ev_ptr ev)) = meta_sock h")
  case True
  with run obtain r where "handle_meta_packet tls13 h = Some (r, h')" by (auto simp: worker_event_def)
  from handle_meta_packet_thread[OF inv this rst] show ?thesis .
next
  case False
  with inv ev have p: "ev_ptr ev \<in> ht_members (ht_conn h)" by (auto simp: thread_inv_def)
  let ?p = "ev_ptr ev" let ?s = "sock_state (conns h ?p)"
  from run False have "h' = h \<or> event_init zc ?p h = Some h' \<or> ?s = CONNECTED \<and> event_connected ?p h = Some h' \<or>
      ?s = READY_TO_RECV \<and> event_recv fcache www_main ?p h = Some h' \<or>
      ?s = HTTP_REQ_RECVED \<and> event_resp fcache ?p h = Some h' \<or>
      ?s = TLS_HS_RECVED \<and> event_tls_hs ?p h = Some h' \<or> close_tcp_conn ?p h = Some h'"
    by (simp add: worker_event_def Let_def split: if_splits)
  then show ?thesis
  proof (elim disjE conjE)
    assume "h' = h"
    then show ?thesis using inv by simp
  qed (rule event_init_inv[OF _ inv p] event_connected_inv[OF _ inv p] event_recv_inv[OF _ inv p]
      event_resp_inv[OF _ inv p] event_tls_hs_inv[OF _ inv p] close_tcp_conn_inv[OF _ inv p]; assumption)+
qed

text \<open>The states of a thread: it starts with \<open>worker_init\<close> on the connection objects \<open>A\<close>, with the
  object \<open>m\<close> registered for the meta socket, and handles events for objects it has
  registered.\<close>

inductive worker_reach ::
  "bool \<Rightarrow> bool \<Rightarrow> file_cache list \<Rightarrow> bytes \<Rightarrow> conn_ptr set \<Rightarrow> conn_ptr \<Rightarrow> host \<Rightarrow> bool"
  for tls13 zc fcache www_main A m where
  start: "worker_init malloc ok1 ok2 (Some m) h0 = Some h \<Longrightarrow> length (conn_pool h0) = MAX_CONN \<Longrightarrow>
    (\<And>i. i < MAX_CONN \<Longrightarrow> malloc i = Some (addr i)) \<Longrightarrow> inj_on addr {..<MAX_CONN} \<Longrightarrow> A = addr ` {..<MAX_CONN} \<Longrightarrow>
    m \<notin> A \<Longrightarrow> worker_reach tls13 zc fcache www_main A m h"
| event: "worker_reach tls13 zc fcache www_main A m h \<Longrightarrow> ev_ptr ev \<in> insert m (ht_members (ht_conn h)) \<Longrightarrow> rst_ok h \<Longrightarrow>
    worker_event tls13 zc fcache www_main ev h = Some h' \<Longrightarrow> worker_reach tls13 zc fcache www_main A m h'"

lemma worker_init_inv:
  assumes run: "worker_init malloc ok1 ok2 (Some m) h0 = Some h" and len: "length (conn_pool h0) = MAX_CONN"
    and malloc: "\<And>i. i < MAX_CONN \<Longrightarrow> malloc i = Some (addr i)" and inj: "inj_on addr {..<MAX_CONN}"
    and A: "A = addr ` {..<MAX_CONN}" and m: "m \<notin> A"
  shows "thread_inv A m h"
proof -
  from conn_pool_init_inv[OF malloc inj len] obtain h1 where h1: "conn_pool_init malloc h0 = Some h1" "pool_inv h1"
    "set (pool_free_list h1) = A" using A by blast
  from run h1(1) obtain ht :: "conn_ptr hashtable" where ht: "host_create_ht ok1 ok2 NUM_BINS = Some ht"
    by (auto simp: worker_init_def split: bind_splits)
  have t: "table_inv host_calculate_hash key ht" "ht_members ht = {}" for key
    using create_ht_inv[of ok1 ok2 ht] ht by (simp_all add: host_create_ht_def)
  from run h1(1) ht obtain ms w1 where s: "setup_meta_sock (core_id h1) (wrld h1) = Some (ms, w1)"
    by (auto simp: worker_init_def split: bind_splits)
  define w2 where "w2 = snd (set_nonblock ms w1)"
  define c where "c = conn_zero\<lparr> sock_fd := ms, sock_state := INIT \<rparr>"
  have h: "h = h1\<lparr> ht_conn := ht, meta_sock := ms, epfd := rv (w_env w2 (w_n w2)), conns := (conns h1)(m := c),
      wrld := snd (sys Sys_clock (snd (sys (Sys_epoll_add ms EPOLLIN_only m) (snd (sys Sys_epoll_create w2))))) \<rparr>"
    using run h1(1) ht s
    by (simp add: worker_init_def register_epoll_in_meta_sock_def host_sys_def Let_def case_prod_beta w2_def c_def
        split: if_splits)
  have fd: "sock_fd c = ms" by (simp add: c_def)
  have "card A \<le> MAX_CONN" unfolding A using card_image_le[of "{..<MAX_CONN}" addr] by simp
  then show ?thesis
    using h1(2,3) t m unfolding thread_inv_def host_inv_def h
    by (simp add: pool_inv_def pool_free_list_def fd)
qed


lemma conn_pool_fill_frame:
  "conn_pool_fill malloc is h = Some h' \<Longrightarrow> wrld h' = wrld h \<and> core_id h' = core_id h"
  by (induction "is" arbitrary: h) (fastforce simp: Let_def split: option.splits)+

lemma conn_pool_init_frame: "conn_pool_init malloc h = Some h' \<Longrightarrow> wrld h' = wrld h \<and> core_id h' = core_id h"
  using conn_pool_fill_frame by (fastforce simp: conn_pool_init_def)

definition all_three :: "nat \<Rightarrow> sysret" where
  "all_three n = ret_ok\<lparr> rv := 3 \<rparr>"



section \<open>Single events\<close>

lemma mod_state_ok:
  assumes "0 \<le> epfd h" "0 \<le> rv (w_env (wrld h) (w_n (wrld h)))"
    and "\<And>p fd ep w. md p fd ep w = epoll_op ep (c p fd) w"
  shows "mod_state md s p h = Some (set_state p s (h\<lparr> wrld := snd (sys (c p (sock_fd (conns h p))) (wrld h)) \<rparr>))"
  using assms(1,2) by (simp add: mod_state_def assms(3) epoll_op_def case_prod_beta Let_def)

lemma account_close_client: "conn_client (conns (account_close p h) q) = conn_client (conns h q)"
  by (simp add: account_close_def upd_conn_def host_sys_def sys_def Let_def conn_client_def)

text \<open>A thread with one linked connection.\<close>

definition linked_conn :: conn_state where
  "linked_conn = conn_zero\<lparr> sock_fd := 5, sock_state := INIT,
     meta_info := \<lparr> mi_client_ip = 0x0A000001, mi_client_port = 50000, mi_seq_num = 1, mi_ack_num = 2, mi_ssl_meta = None \<rparr> \<rparr>"

definition linked_host :: host where
  "linked_host = (let h = (host_init (\<lambda>_. ret_ok) empty_ht)\<lparr> conn_pool := replicate MAX_CONN 0, pool_top := - 1,
        conns := (\<lambda>_. conn_zero)(7 := linked_conn) \<rparr>
     in h\<lparr> ht_conn := host_ht_insert (host_key h) (ht_conn h) 7 \<rparr>)"

lemma linked_host_facts:
  "host_inv {7} linked_host" "7 \<in> ht_members (ht_conn linked_host)" "0 \<le> epfd linked_host"
  "0 \<le> rv (w_env (wrld linked_host) k)" "conns linked_host 7 = linked_conn" "meta_sock linked_host = 3"
proof -
  define h where "h = (host_init (\<lambda>_. ret_ok) empty_ht)\<lparr> conn_pool := replicate MAX_CONN 0, pool_top := - 1,
        conns := (\<lambda>_. conn_zero)(7 := linked_conn) \<rparr>"
  have l: "linked_host = h\<lparr> ht_conn := host_ht_insert (host_key h) (ht_conn h) 7 \<rparr>"
    by (simp add: linked_host_def h_def)
  have "host_mid {7} 7 h"
    by (simp add: host_mid_def h_def host_init_def pool_inv_def pool_free_list_def empty_ht_inv MAX_CONN_def)
  moreover have "host_lookup h ip port = None" for ip port
    using host_tab.srch_iff[of "host_key h" "ht_conn h" "(ip, port)"]
    by (auto simp: h_def host_init_def empty_ht_inv intro: option_ext)
  ultimately show "host_inv {7} linked_host" "7 \<in> ht_members (ht_conn linked_host)"
    using host_mid_insert[of "{7}" 7 h] unfolding l by (metis prod.collapse, simp, metis prod.collapse)
  show "0 \<le> epfd linked_host" "0 \<le> rv (w_env (wrld linked_host) k)" "conns linked_host 7 = linked_conn" "meta_sock linked_host = 3"
    by (simp_all add: l h_def host_init_def idle_world_def ret_ok_def)
qed

text \<open>C27: \<^verbatim>\<open>close_tcp_conn\<close> of a linked connection, when the removal from epoll succeeds, tells the SmartNIC,
  unlinks exactly this client, makes the object available again, and counts one closed
  connection.\<close>

theorem close_tcp_conn_unlinks:
  assumes "host_inv A h" "p \<in> ht_members (ht_conn h)" "0 \<le> epfd h" "0 \<le> rv (w_env (wrld h) (Suc (w_n (wrld h))))"
  shows "\<exists>h'. close_tcp_conn p h = Some h' \<and> host_inv A h' \<and> p \<in> set (pool_free_list h') \<and>
    Sys_sendto (meta_sock h) (arm_packet 0xfc (meta_info (conns h p))) \<in> calls (wrld h') \<and>
    closed_conns h' = closed_conns h + 1 \<and>
    (\<forall>ip port. host_lookup h' ip port = (if (ip, port) = host_key h p then None else host_lookup h ip port))"
proof -
  let ?fd = "sock_fd (conns h p)"
  define w where "w = snd (sys (Sys_close ?fd) (snd (sys (Sys_epoll_del ?fd)
      (snd (sys (Sys_sendto (meta_sock h) (arm_packet 0xfc (meta_info (conns h p)))) (wrld h))))))"
  define h1 where "h1 = h\<lparr> wrld := w, ht_conn := host_ht_remove (host_key h) (ht_conn h) p \<rparr>"
  have l: "host_ht_search (host_key h) (ht_conn h) (mi_client_ip (meta_info (conns h p)))
      (mi_client_port (meta_info (conns h p))) = Some p"
    using host_member_lookup[OF assms(1,2)] by (simp add: conn_client_def)
  have run: "close_tcp_conn p h = Some (conn_state_free (Some p) (account_close p h1))"
    using assms(3,4) l by (simp add: close_tcp_conn_def send_close_to_arm_def remove_epoll_mig_sock_def epoll_op_def
        host_sys_def case_prod_beta Let_def h1_def w_def)
  have tab: "table_inv host_calculate_hash (host_key h) (ht_conn h)" using assms(1) by (simp add: host_inv_def)
  let ?h' = "conn_state_free (Some p) (account_close p h1)"
  have "host_mid A p h1" using host_remove_mid[of A "h\<lparr> wrld := w \<rparr>" p] assms(1,2) by (simp add: h1_def)
  then have inv: "host_inv A ?h'" by (intro host_mid_free account_close_frame)
  have key: "host_key ?h' = host_key h" and ht: "ht_conn ?h' = host_ht_remove (host_key h) (ht_conn h) p"
    by (auto simp: conn_state_free_frame account_close_frame account_close_client h1_def)
  have "p \<in> A" using assms(1,2) by (auto simp: host_inv_def)
  moreover have "p \<notin> ht_members (ht_conn ?h')" using host_tab.del_member[OF tab assms(2)] by (simp add: ht)
  ultimately have free: "p \<in> set (pool_free_list ?h')" using inv by (auto simp: host_inv_def)
  have cl: "closed_conns ?h' = closed_conns h + 1"
    by (simp add: conn_state_free_def account_close_def h1_def upd_conn_def host_sys_def sys_def Let_def)
  have "Sys_sendto (meta_sock h) (arm_packet 0xfc (meta_info (conns h p))) \<in> calls (wrld h1)"
    by (simp add: h1_def w_def)
  then have snt: "Sys_sendto (meta_sock h) (arm_packet 0xfc (meta_info (conns h p))) \<in> calls (wrld ?h')"
    using account_close_frame(4) conn_state_free_conns(4) by blast
  have lk: "host_lookup ?h' ip port = (if (ip, port) = host_key h p then None else host_lookup h ip port)" for ip port
    using host_tab.srch_del[OF tab assms(2), of "(ip, port)"] unfolding key ht by simp
  show ?thesis using run inv free snt cl lk by blast
qed

theorem close_tcp_conn_unlinks_witness:
  "\<exists>h'. close_tcp_conn 7 linked_host = Some h' \<and> host_inv {7} h' \<and> host_lookup h' 0x0A000001 50000 = None"
proof -
  have "host_key linked_host 7 = (0x0A000001, 50000)" by (simp add: linked_host_facts linked_conn_def conn_client_def)
  then show ?thesis using close_tcp_conn_unlinks[of "{7}" linked_host 7] linked_host_facts by metis
qed

text \<open>Two write events complete a migration on the host side, whatever the results of the calls that
  set the keys.\<close>

lemma mig_tls_conn_ok:
  assumes "0 \<le> rv (w_env w (w_n w))"
  shows "\<exists>w'. mig_tls_conn zc c w = (0, w') \<and> w_env w' = w_env w \<and> w_n w < w_n w' \<and> keyed c w' \<and> calls w \<subseteq> calls w'"
  using assms by (auto simp: mig_tls_conn_def keyed_def case_prod_beta Let_def)

abbreviation write_ready :: "conn_ptr \<Rightarrow> event" where
  "write_ready p \<equiv> \<lparr> ev_in = False, ev_out = True, ev_ptr = p \<rparr>"

lemma write_events:
  assumes fd: "sock_fd (conns h p) \<noteq> meta_sock h" and init: "sock_state (conns h p) = INIT" and ep: "0 \<le> epfd h"
    and ok: "\<And>k. w_n (wrld h) \<le> k \<Longrightarrow> 0 \<le> rv (w_env (wrld h) k)"
  shows "\<exists>h1 h2. worker_event tls13 zc fcache www_main (write_ready p) h = Some h1 \<and>
      worker_event tls13 zc fcache www_main (write_ready p) h1 = Some h2 \<and>
      conns h2 = (conns h)(p := (conns h p)\<lparr> sock_state := READY_TO_RECV \<rparr>) \<and>
      keyed (conns h p) (wrld h2) \<and> Sys_sendto (meta_sock h) (mig_fin_packet (conns h p)) \<in> calls (wrld h2) \<and>
      ht_conn h2 = ht_conn h \<and> new_conns h2 = new_conns h + 1"
proof -
  let ?c = "conns h p" and ?c1 = "(conns h p)\<lparr> sock_state := CONNECTED \<rparr>"
  from mig_tls_conn_ok[OF ok[OF order_refl]] obtain w1 where t: "mig_tls_conn zc ?c (wrld h) = (0, w1)"
    and w1: "w_env w1 = w_env (wrld h)" "w_n (wrld h) < w_n w1" "keyed ?c w1" by blast
  define h1 where "h1 = (set_state p CONNECTED (h\<lparr> wrld := w1 \<rparr>))\<lparr> new_conns := new_conns h + 1 \<rparr>"
  have e1: "worker_event tls13 zc fcache www_main (write_ready p) h = Some h1"
    using fd init t by (simp add: worker_event_def event_init_def h1_def upd_conn_def)
  define w2 where "w2 = snd (sys (Sys_sendto (meta_sock h) (mig_fin_packet ?c1)) w1)"
  define w3 where "w3 = snd (sys (Sys_epoll_mod (sock_fd ?c) EPOLLIN_only p) w2)"
  have f1: "conns h1 p = ?c1" "meta_sock h1 = meta_sock h" "epfd h1 = epfd h" "wrld h1 = w1" by (simp_all add: h1_def upd_conn_def)
  have r: "0 \<le> rv (w_env w1 (w_n w1))" "0 \<le> rv (w_env w1 (Suc (w_n w1)))" using ok w1 by simp_all
  have e2: "worker_event tls13 zc fcache www_main (write_ready p) h1 =
      Some (set_state p READY_TO_RECV (h1\<lparr> wrld := w3 \<rparr>))"
    using fd r ep by (simp add: worker_event_def f1 event_connected_def send_mig_fin_to_arm_def mod_state_def
        mod_epoll_in_mig_sock_def epoll_op_def case_prod_beta Let_def w3_def w2_def)
  have "mig_fin_packet ?c1 = mig_fin_packet ?c" by (simp add: mig_fin_packet_def)
  then show ?thesis
    using e1 e2 w1(3)
    by (intro exI[of _ h1] exI[of _ "set_state p READY_TO_RECV (h1\<lparr> wrld := w3 \<rparr>)"])
      (auto simp: h1_def upd_conn_def w3_def w2_def keyed_def)
qed

text \<open>C40: a connection whose keys the kernel refuses goes on as if they were in place: with both
  \<^verbatim>\<open>TLS_RX\<close> and \<^verbatim>\<open>TLS_TX\<close> failing, two write events still take it to \<open>READY_TO_RECV\<close>, where requests
  are read and answered without encryption.\<close>

theorem refused_keys_ignored:
  assumes "sock_fd (conns h p) \<noteq> meta_sock h" "sock_state (conns h p) = INIT" "0 \<le> epfd h"
    and "rv (w_env (wrld h) (w_n (wrld h) + 2)) < 0" "rv (w_env (wrld h) (w_n (wrld h) + 3)) < 0"
    and "\<And>k. w_n (wrld h) \<le> k \<Longrightarrow> k \<notin> {w_n (wrld h) + 2, w_n (wrld h) + 3} \<Longrightarrow> 0 \<le> rv (w_env (wrld h) k)"
  shows "\<exists>h1 h2. worker_event tls13 zc fcache www_main (write_ready p) h = Some h1 \<and>
      worker_event tls13 zc fcache www_main (write_ready p) h1 = Some h2 \<and>
      w_out (wrld h1) ! (length (w_out (wrld h)) + 2) =
        Sys_setsockopt (sock_fd (conns h p)) TLS_RX (Opt_crypto (crypto_info_rx (conns h p))) \<and>
      w_out (wrld h1) ! (length (w_out (wrld h)) + 3) =
        Sys_setsockopt (sock_fd (conns h p)) TLS_TX (Opt_crypto (crypto_info_tx (conns h p))) \<and>
      sock_state (conns h2 p) = READY_TO_RECV"
proof -
  let ?w = "wrld h" let ?c = "conns h p" let ?fd = "sock_fd ?c"
  define w1 where "w1 = snd (mig_tls_conn zc ?c ?w)"
  have r0: "0 \<le> rv (w_env ?w (w_n ?w))" by (rule assms(6)) auto
  have t: "mig_tls_conn zc ?c ?w = (0, w1)"
    using r0 by (simp add: w1_def mig_tls_conn_def case_prod_beta Let_def)
  have o: "w_out w1 = w_out ?w @ [Sys_setsockopt ?fd TCP_ULP Opt_ulp, Sys_setsockopt ?fd TCP_CORK (Opt_int 1),
      Sys_setsockopt ?fd TLS_RX (Opt_crypto (crypto_info_rx ?c)), Sys_setsockopt ?fd TLS_TX (Opt_crypto (crypto_info_tx ?c))] @
      (if zc then [Sys_setsockopt ?fd TLS_TX_ZEROCOPY_RO (Opt_int 1)] else [])"
    and n: "w_n ?w + 4 \<le> w_n w1" "w_env w1 = w_env ?w"
    using r0 by (simp_all add: w1_def mig_tls_conn_def case_prod_beta Let_def)
  have r: "0 \<le> rv (w_env w1 (w_n w1))" "0 \<le> rv (w_env w1 (Suc (w_n w1)))"
    unfolding n(2) using n(1) by (auto intro!: assms(6))
  define h1 where "h1 = (set_state p CONNECTED (h\<lparr> wrld := w1 \<rparr>))\<lparr> new_conns := new_conns h + 1 \<rparr>"
  have e1: "worker_event tls13 zc fcache www_main (write_ready p) h = Some h1"
    using assms(1,2) t by (simp add: worker_event_def event_init_def h1_def upd_conn_def)
  have "\<exists>h2. worker_event tls13 zc fcache www_main (write_ready p) h1 = Some h2 \<and> sock_state (conns h2 p) = READY_TO_RECV"
    using assms(1,3) r by (simp add: worker_event_def h1_def upd_conn_def event_connected_def send_mig_fin_to_arm_def
        mod_state_def mod_epoll_in_mig_sock_def epoll_op_def case_prod_beta Let_def)
  moreover have "w_out (wrld h1) = w_out w1" by (simp add: h1_def upd_conn_def)
  ultimately show ?thesis using e1 by (auto simp: o nth_append)
qed

theorem refused_keys_ignored_witness:
  "\<exists>h1 h2. worker_event True True [] [] (write_ready 7)
        (linked_host\<lparr> wrld := idle_world (\<lambda>k. if k \<in> {2, 3} then ret_ok\<lparr> rv := - 1 \<rparr> else ret_ok) \<rparr>) = Some h1 \<and>
      worker_event True True [] [] (write_ready 7) h1 = Some h2 \<and> sock_state (conns h2 7) = READY_TO_RECV"
proof -
  let ?h = "linked_host\<lparr> wrld := idle_world (\<lambda>k. if k \<in> {2, 3} then ret_ok\<lparr> rv := - 1 \<rparr> else ret_ok) \<rparr>"
  have "sock_fd (conns ?h 7) \<noteq> meta_sock ?h" "sock_state (conns ?h 7) = INIT" "0 \<le> epfd ?h"
    by (simp_all add: linked_host_facts linked_conn_def)
  from refused_keys_ignored[OF this, of True True "[]" "[]"] show ?thesis
    by (fastforce simp: idle_world_def ret_ok_def)
qed

text \<open>A response header that the socket accepts only in part is not continued.  If the header of a
  fresh response is sent in part, the thread goes back to waiting for requests, with the rest of
  the header unsent, and further write events change nothing.\<close>

theorem partial_header_parks:
  assumes "sock_fd (conns h p) \<noteq> meta_sock h" "sock_state (conns h p) = HTTP_REQ_RECVED" "0 \<le> epfd h"
    and "\<not> hdr_sent (conns h p)" "hdr_len (conns h p) = 0" "resp_remain (conns h p) = 0" "keep_alive (conns h p) \<in> {0, 1}"
    and "scode_2_str (scode (conns h p)) = Some reason"
    and "text = http_header_text (nat (scode (conns h p))) reason
           (http_date (nat (fst (timespec_of (w_env (wrld h) (w_n (wrld h))))))) (file_size (conns h p)) (keep_alive (conns h p) \<noteq> 0)"
    and "length text < HTTP_HEADER_LEN"
    and "0 \<le> rv (w_env (wrld h) (w_n (wrld h) + 1))" "rv (w_env (wrld h) (w_n (wrld h) + 1)) < int (length text)"
    and "0 \<le> rv (w_env (wrld h) (w_n (wrld h) + 2))"
  shows "\<exists>h'. worker_event tls13 zc fcache www_main (write_ready p) h = Some h' \<and>
    sock_state (conns h' p) = READY_TO_RECV \<and> \<not> hdr_sent (conns h' p) \<and> 0 < hdr_remain (conns h' p) \<and>
    last (w_out (wrld h')) = Sys_epoll_mod (sock_fd (conns h p)) EPOLLIN_only p \<and>
    worker_event tls13 zc fcache www_main (write_ready p) h' = Some h'"
proof -
  let ?c = "conns h p" let ?w1 = "snd (sys Sys_clock (wrld h))" let ?k = "nat (rv (w_env (wrld h) (w_n (wrld h) + 1)))"
  define c1 where "c1 = ?c\<lparr> hdr_buf := blit (hdr_buf ?c) 0 (take (HTTP_HEADER_LEN - 1) text @ [0]),
      hdr_len := length text, hdr_offset := 0, hdr_remain := length text \<rparr>"
  define c2 where "c2 = c1\<lparr> hdr_remain := length text - ?k, hdr_offset := ?k \<rparr>"
  define w2 where "w2 = snd (sys (Sys_send (sock_fd ?c) (seg 0 (length text) (hdr_buf c1))) ?w1)"
  have b: "build_header ?c (wrld h) = Some (True, c1, ?w1)"
    using assms(8,10) by (simp add: build_header_def case_prod_beta Let_def assms(9)[symmetric] c1_def)
  have k: "0 < length text - ?k" using assms(11,12) by linarith
  have s: "send_header_rest (sock_fd ?c) c1 ?w1 = (0, c2, w2)"
    using assms(11) k by (simp add: send_header_rest_def case_prod_beta Let_def c1_def c2_def w2_def)
  have "send_https_resp fcache (sock_fd ?c) ?c (wrld h) = Some (0, c2, w2)"
    using assms(4,5) by (simp add: send_https_resp_def send_https_header_def b s)
  moreover have "resp_remain c2 = 0" "keep_alive c2 \<in> {0, 1}" "sock_fd c2 = sock_fd ?c" "hdr_remain c2 = length text - ?k"
    "\<not> hdr_sent c2" using assms(4,6,7) by (simp_all add: c2_def c1_def)
  moreover have "0 \<le> rv (w_env w2 (w_n w2))" using assms(13) by (simp add: w2_def)
  ultimately show ?thesis
    using assms(1-3) k by (simp add: worker_event_def event_resp_def upd_conn_def mod_state_def mod_epoll_in_mig_sock_def
        epoll_op_def case_prod_beta Let_def)
qed

theorem partial_header_parks_witness:
  "\<exists>h'. worker_event True True [] [] (write_ready 7)
      (linked_host\<lparr> conns := (\<lambda>_. resp_conn), wrld := idle_world (\<lambda>k. if k = 1 then ret_ok\<lparr> rv := 5 \<rparr> else ret_ok) \<rparr>) = Some h' \<and>
    0 < hdr_remain (conns h' 7)"
proof -
  let ?env = "\<lambda>k. if k = (1::nat) then ret_ok\<lparr> rv := 5 \<rparr> else ret_ok"
  let ?h = "linked_host\<lparr> conns := (\<lambda>_. resp_conn), wrld := idle_world ?env \<rparr>"
  have d: "fst (timespec_of (?env 0)) = 0" by (simp add: timespec_of_def ret_ok_def)
  show ?thesis
    using partial_header_parks[of ?h 7 "str ''OK''" resp_text True True "[]" "[]"] linked_host_facts resp_text_length
    by (auto simp: resp_conn_def conn_zero_def scode_2_str_def idle_world_def d resp_text_def HTTP_HEADER_LEN_def ret_ok_def
        timespec_of_def)
qed

end
