(* ===== verification/Nic_Session.thy ===== *)
theory Nic_Session
  imports Nic_Meta
begin

text \<open>
  Connections of the SmartNIC, \<^verbatim>\<open>src/smartnic/offload_ssl/src/tcp.c\<close> with the helpers of \<^verbatim>\<open>src/ssl.c\<close> that it
  calls: sequence numbers, cookies, clearing and recycling of connections and sessions, the transmission
  of segments.

  Connections, records and operations wait in queues while they are free (\<^verbatim>\<open>free_session_q\<close>,
  \<^verbatim>\<open>record_pool\<close>, \<^verbatim>\<open>op_pool\<close>).  Inserting an object into a \<^verbatim>\<open>TAILQ\<close> that already holds it ruins the
  links of the queue; the model does not follow that run, it is \<open>None\<close>, as are a failed assertion and a
  call of \<^verbatim>\<open>exit\<close>.
\<close>


section \<open>Sequence numbers\<close>

definition SEQ_LT :: "u32 \<Rightarrow> u32 \<Rightarrow> bool" where "SEQ_LT a b \<longleftrightarrow> sint (a - b) < 0"
definition SEQ_LEQ :: "u32 \<Rightarrow> u32 \<Rightarrow> bool" where "SEQ_LEQ a b \<longleftrightarrow> sint (a - b) \<le> 0"
definition SEQ_GT :: "u32 \<Rightarrow> u32 \<Rightarrow> bool" where "SEQ_GT a b \<longleftrightarrow> sint (a - b) > 0"
definition SEQ_GEQ :: "u32 \<Rightarrow> u32 \<Rightarrow> bool" where "SEQ_GEQ a b \<longleftrightarrow> sint (a - b) \<ge> 0"

definition validate_syn_packet :: "tcp_conn \<Rightarrow> u32 \<Rightarrow> u32 \<Rightarrow> tcp_syn_check" where
  "validate_syn_packet conn seq_no ack_no =
     (if seq_no + 1 = tc_last_recv_seq conn then TCP_SYN_RETRANS else TCP_SYN_NEW)"

text \<open>\<open>None\<close> is the result \<open>-1\<close>.\<close>

definition validate_sequence :: "tcp_conn \<Rightarrow> u32 \<Rightarrow> u32 \<Rightarrow> u16 \<Rightarrow> tcp_sequence_check option" where
  "validate_sequence conn seq_no ack_no payload_len =
     (if seq_no = tc_last_recv_seq conn \<and> ack_no = tc_last_recv_ack conn \<and>
         ucast payload_len = tc_last_recv_len conn then Some TCP_SEQ_OK
      else if tc_last_sent_ack conn = seq_no \<or> tc_last_recv_seq conn + tc_last_recv_len conn = seq_no
      then Some TCP_SEQ_OK
      else if SEQ_LT seq_no (tc_last_recv_seq conn) \<or> SEQ_LT ack_no (tc_last_recv_ack conn)
      then Some TCP_SEQ_UNDER
      else if SEQ_GT seq_no (tc_last_sent_ack conn) \<and>
         SEQ_GT seq_no (tc_last_recv_seq conn + tc_last_recv_len conn) then Some TCP_SEQ_OVER
      else None)"


section \<open>Cookies\<close>

definition update_cookie :: "nic \<Rightarrow> nic" where
  "update_cookie n =
     (if n_t_minor n = 63 then
        if n_t_major n = 31 then n\<lparr> n_t_major := 0, n_t_minor := 0 \<rparr>
        else n\<lparr> n_t_major := n_t_major n + 1, n_t_minor := 0 \<rparr>
      else n\<lparr> n_t_minor := n_t_minor n + 1 \<rparr>)"

definition get_cookie :: "openssl \<Rightarrow> nat \<Rightarrow> u32 \<Rightarrow> u16 \<Rightarrow> u32 \<Rightarrow> u16 \<Rightarrow> u32" where
  "get_cookie lib t_major client_ip client_port server_ip server_port =
    (let cookie = push_bit 3 (of_nat t_major) + 3;
         input = le_bytes 4 client_ip @ le_bytes 4 server_ip @
           le_bytes 4 ((ucast client_port :: u32) OR push_bit 16 (ucast server_port));
         hash = ossl_sha1 lib input;
         cookie = push_bit 8 cookie + ucast (hash ! 0);
         cookie = push_bit 8 cookie + ucast (hash ! 1)
     in push_bit 8 cookie + ucast (hash ! 2))"


section \<open>Pools of records and operations\<close>

text \<open>\<open>record_zero\<close> stands for a cleared record: its pointers are set when it is taken from the pool.\<close>

definition put_record :: "rec_ptr \<Rightarrow> nic \<Rightarrow> nic option" where
  "put_record r n =
    (if r \<in> set (n_record_pool n) then None
     else Some (n\<lparr> n_records := (n_records n)(r := record_zero), n_record_pool := n_record_pool n @ [r],
       n_free_record_cnt := n_free_record_cnt n + 1, n_using_record_cnt := n_using_record_cnt n - 1 \<rparr>))"

definition delete_record :: "tcp_ptr \<Rightarrow> rec_ptr \<Rightarrow> nic \<Rightarrow> nic option" where
  "delete_record p r n = do {
     n \<leftarrow> put_record r n;
     Some (upd_sess p (\<lambda>s. s\<lparr> ss_num_current_records := ss_num_current_records s - 1 \<rparr>) n)
   }"

definition new_ssl_crypto_op :: "nic \<Rightarrow> (op_ptr \<times> nic) option" where
  "new_ssl_crypto_op n =
    (case n_op_pool n of
       [] \<Rightarrow> None
     | target # rest \<Rightarrow> Some (target, n\<lparr> n_op_pool := rest, n_free_op_cnt := n_free_op_cnt n - 1,
         n_using_op_cnt := n_using_op_cnt n + 1 \<rparr>))"

definition delete_op :: "op_ptr \<Rightarrow> nic \<Rightarrow> nic option" where
  "delete_op op n =
    (if op \<in> set (n_op_pool n) then None
     else Some (n\<lparr> n_ops := (n_ops n)(op := op_zero), n_op_pool := n_op_pool n @ [op],
       n_free_op_cnt := n_free_op_cnt n + 1, n_using_op_cnt := n_using_op_cnt n - 1 \<rparr>))"

definition upd_op :: "op_ptr \<Rightarrow> (crypto_op \<Rightarrow> crypto_op) \<Rightarrow> nic \<Rightarrow> nic" where
  "upd_op op f n = n\<lparr> n_ops := (n_ops n)(op := f (n_ops n op)) \<rparr>"

definition remove_pending_pka_op :: "tcp_ptr \<Rightarrow> nic \<Rightarrow> nic option" where
  "remove_pending_pka_op p n = do {
     n \<leftarrow> (case ss_pending_pka_op (nic_sess n p) of
        None \<Rightarrow> Some n
      | Some op \<Rightarrow> do {
          n \<leftarrow> Some (upd_op op (\<lambda>x. x\<lparr> op_pka_flag := False \<rparr>) n);
          n \<leftarrow> (case op_data (n_ops n op) of None \<Rightarrow> Some n | Some r \<Rightarrow> delete_record p r n);
          n \<leftarrow> delete_op op n;
          n \<leftarrow> Some (upd_sess p (\<lambda>s. s\<lparr> ss_pending_pka_op := None \<rparr>) n);
          Some (n\<lparr> n_cur_crypto_cnt := n_cur_crypto_cnt n - 1 \<rparr>)
        });
     (case ss_pending_pka_op_1 (nic_sess n p) of
        None \<Rightarrow> Some n
      | Some op \<Rightarrow> do {
          n \<leftarrow> Some (upd_op op (\<lambda>x. x\<lparr> op_pka_flag := False \<rparr>) n);
          n \<leftarrow> delete_op op n;
          n \<leftarrow> Some (upd_sess p (\<lambda>s. s\<lparr> ss_pending_pka_op_1 := None \<rparr>) n);
          Some (n\<lparr> n_cur_crypto_cnt := n_cur_crypto_cnt n - 1 \<rparr>)
        })
   }"


section \<open>Clearing and recycling\<close>

definition clear_tcp_connection :: "tcp_conn \<Rightarrow> tcp_conn" where
  "clear_tcp_connection conn = conn\<lparr>
     tc_state := TCP_SESSION_IDLE, tc_portid := 0, tc_ip_id := 0, tc_client_ip := 0, tc_client_port := 0,
     tc_onload := False, tc_server_ip := 0, tc_server_port := 0, tc_window := 0, tc_total_sent := 0,
     tc_last_recv_seq := 0, tc_last_recv_ack := 0, tc_last_recv_len := 0,
     tc_last_sent_seq := 0, tc_last_sent_ack := 0, tc_last_sent_len := 0,
     tc_recv_mig_fin := False, tc_hws_inserted := False, tc_hws_applied := False,
     tc_hws_ready_to_del := False, tc_hws_deleted := False,
     tc_pending_syn := pending_syn_zero, tc_need_to_send_rst_meta := False, tc_pending_app_data_len := 0 \<rparr>"

definition clear_result :: "pka_operand \<Rightarrow> pka_operand" where
  "clear_result r = r\<lparr> po_buf := replicate (length (po_buf r)) 0, po_actual_len := 0 \<rparr>"

definition clear_results :: "pka_operand list \<Rightarrow> pka_operand list" where
  "clear_results rs = map clear_result rs"

text \<open>\<^verbatim>\<open>init_random\<close> fills \<open>len\<close> bytes from the seed of the session; the seed itself stays as it is.\<close>

definition lcg :: "u64 \<Rightarrow> u64" where
  "lcg rand_seed = rand_seed * 1103515245 + 12345"

definition RAND_MAX_LOCAL :: u64 where "RAND_MAX_LOCAL = 4294967295"

fun random_words :: "nat \<Rightarrow> u64 \<Rightarrow> bytes \<times> u64" where
  "random_words 0 rand_seed = ([], rand_seed)"
| "random_words (Suc i) rand_seed =
    (let rand_seed = lcg rand_seed;
         w = (ucast ((rand_seed div (RAND_MAX_LOCAL * 21)) mod RAND_MAX_LOCAL) :: u32);
         (rest, rand_seed) = random_words i rand_seed
     in (le_bytes 4 w @ rest, rand_seed))"

fun random_bytes :: "nat \<Rightarrow> u64 \<Rightarrow> bytes" where
  "random_bytes 0 rand_seed = []"
| "random_bytes (Suc j) rand_seed = (let rand_seed = lcg rand_seed in ucast rand_seed # random_bytes j rand_seed)"

definition init_random :: "u64 \<Rightarrow> nat \<Rightarrow> bytes" where
  "init_random rand_seed len =
    (let (ws, rand_seed) = random_words (len div 4) (lcg rand_seed)
     in ws @ random_bytes (len mod 4) rand_seed)"

text \<open>\<^verbatim>\<open>memset(sess->meta_hdr, 0, sizeof(sess->meta_hdr))\<close> clears as many bytes as a pointer has: the padding and
  the sequence number.  \<^verbatim>\<open>memset(sess->pka_op, 0, sizeof(ssl_crypto_t))\<close> clears nothing, since that structure has
  no members.\<close>

definition clear_meta_hdr :: "meta_hdr \<Rightarrow> meta_hdr" where
  "clear_meta_hdr m = m\<lparr> mh_eth_pad := replicate 4 0, mh_server_seq_num := 0 \<rparr>"

fun put_records :: "rec_ptr list \<Rightarrow> nic \<Rightarrow> nic option" where
  "put_records [] n = Some n"
| "put_records (r # rs) n = do { n \<leftarrow> put_record r n; put_records rs n }"

definition clear_ssl_session :: "tcp_ptr \<Rightarrow> nic \<Rightarrow> nic option" where
  "clear_ssl_session p n = do {
     n \<leftarrow> Some (upd_sess p (\<lambda>s. s\<lparr>
        ss_state := STATE_INIT, ss_handshake_state := HELLO_REQUEST, ss_current_read_record := None,
        ss_version := (0, 0), ss_recv_seq_num := 0, ss_send_seq_num := 0, ss_handshake_msgs_len := 0,
        ss_client_write_MAC_secret := replicate 128 0, ss_server_write_MAC_secret := replicate 128 0,
        ss_client_write_IV_seq_num := 0, ss_server_write_IV_seq_num := 0, ss_tls13_ctx := tls13_ctx_zero,
        ss_meta_hdr := clear_meta_hdr (ss_meta_hdr s), ss_rand_seed := ucast (n_rand n (n_rands n)),
        ss_send_buffer := replicate MAX_RECORD_SIZE 0, ss_send_buffer_offset := 0,
        ss_read_sp := sp_zero, ss_write_sp := sp_zero, ss_pending_sp := sp_zero,
        ss_pka_results := clear_results (ss_pka_results s),
        ss_waiting_crypto := False, ss_completed_crypto := False \<rparr>) (n\<lparr> n_rands := n_rands n + 1 \<rparr>));
     n \<leftarrow> remove_pending_pka_op p n;
     n \<leftarrow> put_records (ss_recv_q (nic_sess n p)) n;
     Some (upd_sess p (\<lambda>s. s\<lparr>
        ss_recv_q := [], ss_num_current_records := 0, ss_recv_q_cnt := 0, ss_waiting_crypto := False,
        ss_tls13_ctx := tls13_ctx_zero, ss_id := init_random (ss_rand_seed s) 32,
        ss_num_of_retransmitted_ch := 0, ss_num_of_retransmitted_meta_pkt := 0 \<rparr>) n)
   }"

definition remove_session :: "tcp_ptr \<Rightarrow> nic \<Rightarrow> nic option" where
  "remove_session p n =
    (if \<not> n_active_cnt n > 0 then None
     else do {
       n \<leftarrow> Some (n\<lparr> n_active := ht_remove (nic_key n) (n_active n) p, n_active_cnt := n_active_cnt n - 1 \<rparr>);
       n \<leftarrow> clear_ssl_session p n;
       n \<leftarrow> Some (upd_tcp p clear_tcp_connection n);
       (if p \<in> set (n_free_q n) then None
        else Some (n\<lparr> n_free_q := n_free_q n @ [p], n_free_cnt := n_free_cnt n + 1 \<rparr>))
     })"

definition pop_free_connection :: "nic \<Rightarrow> (tcp_ptr \<times> nic) option" where
  "pop_free_connection n =
    (case n_free_q n of
       [] \<Rightarrow> None
     | target # rest \<Rightarrow> Some (target, n\<lparr> n_free_q := rest, n_free_cnt := n_free_cnt n - 1 \<rparr>))"

definition insert_tcp_connection ::
  "openssl \<Rightarrow> u16 \<Rightarrow> bytes \<Rightarrow> u32 \<Rightarrow> u16 \<Rightarrow> bytes \<Rightarrow> u32 \<Rightarrow> u16 \<Rightarrow> u32 \<Rightarrow> u16 \<Rightarrow> u16 \<Rightarrow> nic \<Rightarrow> (tcp_ptr \<times> nic) option" where
  "insert_tcp_connection lib portid client_mac client_ip client_port server_mac server_ip server_port
       seq_no window payload_len n = do {
     (target, n) \<leftarrow> pop_free_connection n;
     (if tc_state (n_conns n target) \<noteq> TCP_SESSION_IDLE then None
      else do {
        n \<leftarrow> Some (upd_tcp target (\<lambda>c. let cookie = get_cookie lib (n_t_major n) client_ip client_port server_ip server_port in
          c\<lparr> tc_client_mac := client_mac, tc_server_mac := server_mac,
             tc_state := TCP_SESSION_RECEIVED, tc_portid := portid,
             tc_client_ip := client_ip, tc_client_port := client_port,
             tc_server_ip := server_ip, tc_server_port := server_port,
             tc_cookie := cookie,
             tc_last_recv_ack := cookie + 1, tc_last_recv_seq := seq_no + 1, tc_last_recv_len := ucast payload_len,
             tc_last_sent_ack := seq_no + 1, tc_last_sent_seq := cookie, tc_last_sent_len := 0,
             tc_window := window, tc_ip_id := 1 \<rparr>) n);
        Some (target, n\<lparr> n_active := ht_insert (nic_key n) (n_active n) target, n_active_cnt := n_active_cnt n + 1 \<rparr>)
      })
   }"


section \<open>Transmission\<close>

definition MAX_PKT_SIZE :: nat where "MAX_PKT_SIZE = 1500"

definition seg_ack :: "tcp_conn \<Rightarrow> u32" where
  "seg_ack c = (let recv_ack = tc_last_recv_seq c + tc_last_recv_len c in
     if ss_state (tc_ssl_session c) = STATE_ACTIVE \<and> tc_last_recv_len c > 126 then recv_ack - 126 else recv_ack)"

text \<open>One turn of the loop: the segment that starts \<open>already_to_send\<close> bytes into the payload.\<close>

definition seg_frame :: "tcp_conn \<Rightarrow> bytes \<Rightarrow> u8 \<Rightarrow> nat \<Rightarrow> bytes" where
  "seg_frame c data flags already_to_send =
     tcp_frame (tc_client_mac c) (tc_server_mac c)
       (htons (of_nat (IP_HEADER_LEN + TCP_HEADER_LEN + length data))) (htons (tc_ip_id c))
       (tc_server_ip c) (tc_client_ip c) (tc_server_port c) (tc_client_port c)
       (htonl (tc_last_recv_ack c + of_nat already_to_send)) (htonl (seg_ack c))
       0x50 flags (htons 8192) data"

definition seg_sent :: "nat \<Rightarrow> nat \<Rightarrow> tcp_conn \<Rightarrow> tcp_conn" where
  "seg_sent byte_to_send already_to_send c = c\<lparr>
     tc_ip_id := tc_ip_id c + 1,
     tc_last_sent_seq := tc_last_recv_ack c + of_nat already_to_send, tc_last_sent_ack := seg_ack c,
     tc_last_sent_len := of_nat byte_to_send, tc_total_sent := tc_total_sent c + of_nat byte_to_send,
     tc_state := TCP_SESSION_SENT \<rparr>"

function send_segments :: "tcp_ptr \<Rightarrow> bytes \<Rightarrow> u8 \<Rightarrow> nat \<Rightarrow> nat \<Rightarrow> nic \<Rightarrow> nic option" where
  "send_segments p payload flags left_to_send already_to_send n =
    (let byte_to_send = min left_to_send (MAX_PKT_SIZE - IP_HEADER_LEN - TCP_HEADER_LEN);
         c = n_conns n p
     in case put_frame (unat (tc_portid c)) (seg_frame c (seg already_to_send byte_to_send payload) flags already_to_send) n of
          None \<Rightarrow> None
        | Some n \<Rightarrow>
            let n = upd_tcp p (seg_sent byte_to_send already_to_send) n in
            if left_to_send - byte_to_send > 0
            then send_segments p payload flags (left_to_send - byte_to_send) (already_to_send + byte_to_send) n
            else Some n)"
  by pat_completeness auto
termination
  by (relation "measure (\<lambda>(_, _, _, left_to_send, _). left_to_send)")
    (auto simp: MAX_PKT_SIZE_def IP_HEADER_LEN_def TCP_HEADER_LEN_def)

declare send_segments.simps [simp del]

text \<open>A length beyond the buffer would read past it.  The function always returns 0.\<close>

definition send_tcp_packet :: "tcp_ptr \<Rightarrow> bytes \<Rightarrow> u16 \<Rightarrow> u8 \<Rightarrow> nic \<Rightarrow> nic option" where
  "send_tcp_packet p payload payload_len flags n =
    (if unat payload_len > length payload then None
     else send_segments p payload flags (unat payload_len) 0 n)"

definition abort_session :: "tcp_ptr \<Rightarrow> nic \<Rightarrow> nic option" where
  "abort_session p n = do {
     n \<leftarrow> send_tcp_packet p [] 0 (TCP_FLAG_RST OR TCP_FLAG_ACK) n;
     remove_session p n
   }"

text \<open>The SYN-ACK repeats the options of the SYN.  A data offset of less than five words gives a negative
  length.\<close>

definition send_synack_packet :: "nat \<Rightarrow> bytes \<Rightarrow> u32 \<Rightarrow> nic \<Rightarrow> nic option" where
  "send_synack_packet port pkt cookie n =
    (let hlen = unat (drop_bit 2 (pkt ! 46 AND 0xf0)) in
     if hlen < TCP_HEADER_LEN then None
     else let option_len = hlen - TCP_HEADER_LEN;
              frame = tcp_frame (seg 6 6 pkt) (seg 0 6 pkt)
                (htons (of_nat (IP_HEADER_LEN + TCP_HEADER_LEN + option_len)))
                (ucast (n_rand n (n_rands n))) (ld32 pkt 30) (ld32 pkt 26) (ld16 pkt 36) (ld16 pkt 34)
                (htonl cookie) (htonl (ntohl (ld32 pkt 38) + 1))
                (push_bit 4 (of_nat (drop_bit 2 (TCP_HEADER_LEN + option_len))))
                (TCP_FLAG_SYN OR TCP_FLAG_ACK) (ld16 pkt 48) (seg 54 option_len pkt)
          in put_frame port (blit frame 12 (seg 12 2 pkt)) (n\<lparr> n_rands := n_rands n + 1 \<rparr>))"



section \<open>Frame conditions\<close>

text \<open>The steps of the TLS layer leave the TCP part of every connection, the table and the free queue alone.\<close>

definition tcp_part :: "tcp_conn \<Rightarrow> tcp_conn" where
  "tcp_part c = c\<lparr> tc_ssl_session := sess_zero 0 \<rparr>"

definition same_tcp :: "nic \<Rightarrow> nic \<Rightarrow> bool" where
  "same_tcp n n' \<longleftrightarrow> (\<forall>q. tcp_part (n_conns n' q) = tcp_part (n_conns n q)) \<and>
     n_active n' = n_active n \<and> n_active_cnt n' = n_active_cnt n \<and>
     n_free_q n' = n_free_q n \<and> n_free_cnt n' = n_free_cnt n"

lemma same_tcp_refl [simp]: "same_tcp n n"
  by (simp add: same_tcp_def)

lemma same_tcp_trans [trans]: "same_tcp a b \<Longrightarrow> same_tcp b c \<Longrightarrow> same_tcp a c"
  by (simp add: same_tcp_def)

lemma tcp_part_sess [simp]: "tcp_part (c\<lparr> tc_ssl_session := s \<rparr>) = tcp_part c"
  by (simp add: tcp_part_def)

lemma same_tcp_upd_sess [simp]: "same_tcp n (upd_sess p f m) = same_tcp n m"
  by (auto simp: same_tcp_def upd_sess_def upd_tcp_def)

lemma same_tcp_upd_op [simp]: "same_tcp n (upd_op p f m) = same_tcp n m"
  by (simp add: same_tcp_def upd_op_def)

lemma same_tcp_fields [simp]:
  "same_tcp n (m\<lparr> n_records := x1 \<rparr>) = same_tcp n m"
  "same_tcp n (m\<lparr> n_record_pool := x2 \<rparr>) = same_tcp n m"
  "same_tcp n (m\<lparr> n_free_record_cnt := x3 \<rparr>) = same_tcp n m"
  "same_tcp n (m\<lparr> n_using_record_cnt := x4 \<rparr>) = same_tcp n m"
  "same_tcp n (m\<lparr> n_ops := x5 \<rparr>) = same_tcp n m"
  "same_tcp n (m\<lparr> n_op_pool := x6 \<rparr>) = same_tcp n m"
  "same_tcp n (m\<lparr> n_free_op_cnt := x7 \<rparr>) = same_tcp n m"
  "same_tcp n (m\<lparr> n_using_op_cnt := x8 \<rparr>) = same_tcp n m"
  "same_tcp n (m\<lparr> n_submit_ring := x9 \<rparr>) = same_tcp n m"
  "same_tcp n (m\<lparr> n_cur_crypto_cnt := x10 \<rparr>) = same_tcp n m"
  "same_tcp n (m\<lparr> n_rands := x11 \<rparr>) = same_tcp n m"
  "same_tcp n (m\<lparr> n_clocks := x12 \<rparr>) = same_tcp n m"
  "same_tcp n (m\<lparr> n_epochs := x13 \<rparr>) = same_tcp n m"
  "same_tcp n (m\<lparr> n_bursts := x14 \<rparr>) = same_tcp n m"
  "same_tcp n (m\<lparr> n_wire := x15 \<rparr>) = same_tcp n m"
  "same_tcp n (m\<lparr> n_wmbufs := x16 \<rparr>) = same_tcp n m"
  by (simp_all add: same_tcp_def)

lemma same_tcp_left [simp]:
  "same_tcp (upd_sess p f n) m = same_tcp n m"
  "same_tcp (upd_op q g n) m = same_tcp n m"
  by (auto simp: same_tcp_def upd_sess_def upd_tcp_def upd_op_def)

lemma tcp_part_fields:
  assumes "tcp_part c' = tcp_part c"
  shows "tc_state c' = tc_state c" "tcp_flow c' = tcp_flow c" "tc_portid c' = tc_portid c"
proof -
  have "tc_state (tcp_part c') = tc_state (tcp_part c)" "tcp_flow (tcp_part c') = tcp_flow (tcp_part c)"
    "tc_portid (tcp_part c') = tc_portid (tcp_part c)" using assms by simp_all
  then show "tc_state c' = tc_state c" "tcp_flow c' = tcp_flow c" "tc_portid c' = tc_portid c"
    by (simp_all add: tcp_part_def tcp_flow_def)
qed

lemma same_tcpD:
  assumes "same_tcp n n'"
  shows "n_active n' = n_active n" "n_active_cnt n' = n_active_cnt n" "n_free_q n' = n_free_q n"
    "n_free_cnt n' = n_free_cnt n" "nic_key n' = nic_key n" "conn_idle n' = conn_idle n"
  using assms tcp_part_fields[of "n_conns n' _" "n_conns n _"] by (auto simp: same_tcp_def)

lemma put_record_same: "put_record r n = Some n' \<Longrightarrow> same_tcp n n'"
  by (auto simp: put_record_def split: if_splits)

lemma delete_record_same: "delete_record p r n = Some n' \<Longrightarrow> same_tcp n n'"
  by (auto simp: delete_record_def put_record_same split: bind_splits)

lemma delete_op_same: "delete_op p n = Some n' \<Longrightarrow> same_tcp n n'"
  by (auto simp: delete_op_def split: if_splits)

lemma new_ssl_crypto_op_same: "new_ssl_crypto_op n = Some (op, n') \<Longrightarrow> same_tcp n n'"
  by (auto simp: new_ssl_crypto_op_def split: list.splits)

lemma put_records_same: "put_records rs n = Some n' \<Longrightarrow> same_tcp n n'"
  by (induction rs arbitrary: n) (auto split: bind_splits intro: same_tcp_trans put_record_same)

lemma put_frame_same: "put_frame port f n = Some n' \<Longrightarrow> same_tcp n n'"
  by (drule put_frame_effect) auto

lemma remove_pending_same:
  assumes "remove_pending_pka_op p n = Some n'"
  shows "same_tcp n n'"
proof -
  from assms obtain m where
    m: "(case ss_pending_pka_op (nic_sess n p) of
        None \<Rightarrow> Some n
      | Some op \<Rightarrow> do {
          n \<leftarrow> Some (upd_op op (\<lambda>x. x\<lparr> op_pka_flag := False \<rparr>) n);
          n \<leftarrow> (case op_data (n_ops n op) of None \<Rightarrow> Some n | Some r \<Rightarrow> delete_record p r n);
          n \<leftarrow> delete_op op n;
          n \<leftarrow> Some (upd_sess p (\<lambda>s. s\<lparr> ss_pending_pka_op := None \<rparr>) n);
          Some (n\<lparr> n_cur_crypto_cnt := n_cur_crypto_cnt n - 1 \<rparr>)
        }) = Some m"
    and n': "(case ss_pending_pka_op_1 (nic_sess m p) of
        None \<Rightarrow> Some m
      | Some op \<Rightarrow> do {
          n \<leftarrow> Some (upd_op op (\<lambda>x. x\<lparr> op_pka_flag := False \<rparr>) m);
          n \<leftarrow> delete_op op n;
          n \<leftarrow> Some (upd_sess p (\<lambda>s. s\<lparr> ss_pending_pka_op_1 := None \<rparr>) n);
          Some (n\<lparr> n_cur_crypto_cnt := n_cur_crypto_cnt n - 1 \<rparr>)
        }) = Some n'"
    unfolding remove_pending_pka_op_def by (auto split: bind_splits)
  have "same_tcp n m"
    using m by (auto split: option.splits bind_splits intro: same_tcp_trans
        dest!: delete_record_same delete_op_same)
  also have "same_tcp m n'"
    using n' by (auto split: option.splits bind_splits intro: same_tcp_trans dest!: delete_op_same)
  finally show ?thesis .
qed

lemma clear_ssl_session_same:
  assumes "clear_ssl_session p n = Some n'"
  shows "same_tcp n n'"
proof -
  from assms obtain f g n1 n2 where n1: "remove_pending_pka_op p (upd_sess p f (n\<lparr> n_rands := n_rands n + 1 \<rparr>)) = Some n1"
    and n2: "put_records (ss_recv_q (nic_sess n1 p)) n1 = Some n2" and n': "n' = upd_sess p g n2"
    unfolding clear_ssl_session_def by (auto split: bind_splits)
  have "same_tcp n (upd_sess p f (n\<lparr> n_rands := n_rands n + 1 \<rparr>))" by simp
  also note remove_pending_same[OF n1]
  also note put_records_same[OF n2]
  finally show ?thesis by (simp add: n')
qed


section \<open>The table and the free queue\<close>

text \<open>Every connection in the table is in use under its own flow, every free one is idle, and the counters are
  right.\<close>

definition conns_inv :: "nic \<Rightarrow> bool" where
  "conns_inv n \<longleftrightarrow> nic_table_inv (nic_key n) (conn_idle n) (n_active n) \<and>
     distinct (n_free_q n) \<and> (\<forall>p \<in> set (n_free_q n). conn_idle n p) \<and>
     n_active_cnt n = int (card (ht_members (n_active n))) \<and> n_free_cnt n = int (length (n_free_q n))"

lemma conns_inv_same: "same_tcp n n' \<Longrightarrow> conns_inv n \<Longrightarrow> conns_inv n'"
  unfolding conns_inv_def by (simp only: same_tcpD) simp

lemma conns_inv_disjoint: "conns_inv n \<Longrightarrow> p \<in> ht_members (n_active n) \<Longrightarrow> p \<notin> set (n_free_q n)"
  by (auto simp: conns_inv_def nic_table_inv_def)

lemma finite_ht_members [simp]: "finite (ht_members t)"
  by (simp add: ht_members_def)

lemma nic_table_inv_cong:
  assumes "\<And>p. p \<in> ht_members t \<Longrightarrow> key p = key' p \<and> idle p = idle' p"
  shows "nic_table_inv key idle t \<longleftrightarrow> nic_table_inv key' idle' t"
  using table_inv_cong[of t key key' calculate_hash] assms by (auto simp: nic_table_inv_def)

text \<open>A step that leaves a connection of the table alone but for fields that are neither the flow nor the idle
  state.\<close>

lemma conns_inv_upd_tcp:
  assumes "conns_inv n" "tcp_flow (f (n_conns n p)) = tcp_flow (n_conns n p)"
    and "(tc_state (f (n_conns n p)) = TCP_SESSION_IDLE) = (tc_state (n_conns n p) = TCP_SESSION_IDLE)"
  shows "conns_inv (upd_tcp p f n)"
proof -
  have "nic_key (upd_tcp p f n) = nic_key n" "conn_idle (upd_tcp p f n) = conn_idle n"
    using assms(2,3) by (auto simp: upd_tcp_def)
  then show ?thesis using assms(1) unfolding conns_inv_def by (simp only:) (simp add: upd_tcp_def)
qed

lemma remove_session_run:
  assumes "conns_inv n" "p \<in> ht_members (n_active n)" "remove_session p n = Some n'"
  shows "conns_inv n'" "ht_members (n_active n') = ht_members (n_active n) - {p}"
    "n_free_q n' = n_free_q n @ [p]"
    "\<And>q. q \<noteq> p \<Longrightarrow> tcp_part (n_conns n' q) = tcp_part (n_conns n q)"
proof -
  let ?k = "nic_key n" and ?i = "conn_idle n"
  let ?a = "ht_remove ?k (n_active n) p"
  define m0 where "m0 = n\<lparr> n_active := ?a, n_active_cnt := n_active_cnt n - 1 \<rparr>"
  from assms(3) obtain m where m: "clear_ssl_session p m0 = Some m"
    and n': "n' = (upd_tcp p clear_tcp_connection m)\<lparr> n_free_q := n_free_q m @ [p], n_free_cnt := n_free_cnt m + 1 \<rparr>"
    unfolding remove_session_def m0_def[symmetric]
    by (auto simp: upd_tcp_def split: if_splits bind_splits)
  note sm = same_tcpD[OF clear_ssl_session_same[OF m]]
  have inv: "nic_table_inv ?k ?i (n_active n)" using assms(1) by (simp add: conns_inv_def)
  have del: "nic_table_inv ?k ?i ?a" "ht_members ?a = ht_members (n_active n) - {p}"
    using nic_tab.del_member[OF inv assms(2)] by auto
  have act: "n_active n' = ?a" by (simp add: n' upd_tcp_def sm(1) m0_def)
  have k: "q \<noteq> p \<Longrightarrow> nic_key n' q = ?k q \<and> conn_idle n' q = ?i q" for q
    using sm(5,6) by (simp add: n' upd_tcp_def m0_def fun_eq_iff)
  have idle: "conn_idle n' p" by (simp add: n' upd_tcp_def clear_tcp_connection_def)
  show mem: "ht_members (n_active n') = ht_members (n_active n) - {p}" by (simp add: act del)
  show fq: "n_free_q n' = n_free_q n @ [p]" by (simp add: n' sm(3) m0_def)
  have "nic_table_inv (nic_key n') (conn_idle n') (n_active n')"
    unfolding act using del(1) nic_table_inv_cong[of ?a "nic_key n'" ?k "conn_idle n'" ?i] k del(2) by auto
  moreover have pf: "p \<notin> set (n_free_q n)" using conns_inv_disjoint[OF assms(1,2)] .
  moreover have "distinct (n_free_q n')" using assms(1) pf by (simp add: fq conns_inv_def)
  moreover have "\<forall>q \<in> set (n_free_q n'). conn_idle n' q"
  proof
    fix q assume "q \<in> set (n_free_q n')"
    then consider "q = p" | "q \<noteq> p" "conn_idle n q" using assms(1) pf by (auto simp: fq conns_inv_def)
    then show "conn_idle n' q" using k[of q] idle by cases simp_all
  qed
  moreover have "n_active_cnt n' = int (card (ht_members (n_active n')))"
  proof -
    have "card (ht_members (n_active n)) > 0" using assms(2) by (auto simp: card_gt_0_iff)
    moreover have "n_active_cnt n' = n_active_cnt n - 1" by (simp add: n' upd_tcp_def sm(2) m0_def)
    ultimately show ?thesis using assms(1,2) by (simp add: mem conns_inv_def card_Diff_singleton)
  qed
  moreover have "n_free_cnt n' = int (length (n_free_q n'))"
    using assms(1) sm(3,4) by (simp add: n' upd_tcp_def m0_def conns_inv_def)
  ultimately show "conns_inv n'" unfolding conns_inv_def by blast
  show "\<And>q. q \<noteq> p \<Longrightarrow> tcp_part (n_conns n' q) = tcp_part (n_conns n q)"
    using clear_ssl_session_same[OF m] by (simp add: n' upd_tcp_def same_tcp_def m0_def)
qed

lemma insert_tcp_connection_run:
  assumes "conns_inv n"
    and "insert_tcp_connection lib portid cmac cip cport smac sip sport seq_no window len n = Some (p, n')"
    and "\<And>q. q \<in> ht_members (n_active n) \<Longrightarrow> nic_key n q \<noteq> (cip, sip, cport, sport)"
  shows "conns_inv n'" "ht_members (n_active n') = insert p (ht_members (n_active n))"
    "n_free_q n = p # n_free_q n'" "nic_key n' p = (cip, sip, cport, sport)"
    "tc_cookie (n_conns n' p) = get_cookie lib (n_t_major n) cip cport sip sport"
    "tc_last_recv_ack (n_conns n' p) = tc_cookie (n_conns n' p) + 1"
    "tc_last_recv_seq (n_conns n' p) = seq_no + 1"
    "tc_ssl_session (n_conns n' p) = tc_ssl_session (n_conns n p)"
    "\<And>q. q \<noteq> p \<Longrightarrow> n_conns n' q = n_conns n q"
proof -
  from assms(2) obtain rest where fq: "n_free_q n = p # rest" and idle: "conn_idle n p"
    unfolding insert_tcp_connection_def pop_free_connection_def
    by (auto split: list.splits bind_splits if_splits)
  define m where "m = upd_tcp p (\<lambda>c. let cookie = get_cookie lib (n_t_major n) cip cport sip sport in
          c\<lparr> tc_client_mac := cmac, tc_server_mac := smac,
             tc_state := TCP_SESSION_RECEIVED, tc_portid := portid,
             tc_client_ip := cip, tc_client_port := cport, tc_server_ip := sip, tc_server_port := sport,
             tc_cookie := cookie,
             tc_last_recv_ack := cookie + 1, tc_last_recv_seq := seq_no + 1, tc_last_recv_len := ucast len,
             tc_last_sent_ack := seq_no + 1, tc_last_sent_seq := cookie, tc_last_sent_len := 0,
             tc_window := window, tc_ip_id := 1 \<rparr>) (n\<lparr> n_free_q := rest, n_free_cnt := n_free_cnt n - 1 \<rparr>)"
  have n': "n' = m\<lparr> n_active := ht_insert (nic_key m) (n_active m) p, n_active_cnt := n_active_cnt m + 1 \<rparr>"
    using assms(2) idle fq unfolding insert_tcp_connection_def pop_free_connection_def m_def
    by (simp add: Let_def)
  show key: "nic_key n' p = (cip, sip, cport, sport)"
    "tc_cookie (n_conns n' p) = get_cookie lib (n_t_major n) cip cport sip sport"
    "tc_last_recv_ack (n_conns n' p) = tc_cookie (n_conns n' p) + 1"
    "tc_last_recv_seq (n_conns n' p) = seq_no + 1"
    "tc_ssl_session (n_conns n' p) = tc_ssl_session (n_conns n p)"
    by (simp_all add: n' m_def upd_tcp_def tcp_flow_def Let_def)
  show oth: "\<And>q. q \<noteq> p \<Longrightarrow> n_conns n' q = n_conns n q" by (simp add: n' m_def upd_tcp_def)
  have busy: "\<not> conn_idle n' p" by (simp add: n' m_def upd_tcp_def Let_def)
  have act: "n_active n' = ht_insert (nic_key n') (n_active n) p" by (simp add: n' m_def upd_tcp_def)
  have pn: "p \<notin> ht_members (n_active n)" using conns_inv_disjoint[OF assms(1)] fq by auto
  have inv: "nic_table_inv (nic_key n') (conn_idle n') (n_active n)"
  proof -
    have "nic_table_inv (nic_key n) (conn_idle n) (n_active n)" using assms(1) by (simp add: conns_inv_def)
    moreover have "q \<in> ht_members (n_active n) \<Longrightarrow> nic_key n q = nic_key n' q \<and> conn_idle n q = conn_idle n' q" for q
      using oth pn by metis
    ultimately show ?thesis
      using nic_table_inv_cong[of "n_active n" "nic_key n" "nic_key n'" "conn_idle n" "conn_idle n'"] by simp
  qed
  have "nic_search (nic_key n') (conn_idle n') (n_active n) (nic_key n' p) = None"
  proof (rule ccontr)
    assume "\<not> ?thesis"
    then obtain q where "q \<in> ht_members (n_active n)" "nic_key n' q = nic_key n' p"
      using nic_search_iff[OF inv] by blast
    then show False using assms(3)[of q] oth[of q] pn key(1) by metis
  qed
  note ins = nic_tab.ins_fresh[OF inv busy this]
  show mem: "ht_members (n_active n') = insert p (ht_members (n_active n))" using ins act by simp
  show fq': "n_free_q n = p # n_free_q n'" by (simp add: fq n' m_def upd_tcp_def)
  have "n_free_cnt n' = n_free_cnt n - 1" "n_active_cnt n' = n_active_cnt n + 1"
    by (simp_all add: n' m_def upd_tcp_def)
  moreover have "\<forall>q \<in> set (n_free_q n'). conn_idle n' q"
  proof
    fix q assume "q \<in> set (n_free_q n')"
    then have "conn_idle n q" "q \<noteq> p" using assms(1) fq' unfolding conns_inv_def by auto
    then show "conn_idle n' q" using oth by metis
  qed
  ultimately show "conns_inv n'"
    using assms(1) ins act pn mem fq' unfolding conns_inv_def by simp
qed


section \<open>Segments\<close>

text \<open>Only the connection that sends changes, and of it only counters.\<close>

lemma seg_sent_fields [simp]:
  "tcp_flow (seg_sent b a c) = tcp_flow c" "tc_ssl_session (seg_sent b a c) = tc_ssl_session c"
  "tc_state (seg_sent b a c) = TCP_SESSION_SENT" "tc_portid (seg_sent b a c) = tc_portid c"
  "tc_last_recv_ack (seg_sent b a c) = tc_last_recv_ack c"
  "tc_client_mac (seg_sent b a c) = tc_client_mac c" "tc_server_mac (seg_sent b a c) = tc_server_mac c"
  by (simp_all add: seg_sent_def tcp_flow_def)

lemma send_segments_inv:
  assumes "send_segments p payload flags l a n = Some n'" "conns_inv n" "\<not> conn_idle n p"
  shows "conns_inv n' \<and> \<not> conn_idle n' p \<and> n_active n' = n_active n \<and> n_free_q n' = n_free_q n \<and>
    (\<forall>q. q \<noteq> p \<longrightarrow> n_conns n' q = n_conns n q) \<and> nic_key n' = nic_key n"
  using assms
proof (induction p payload flags l a n rule: send_segments.induct)
  case (1 p payload flags l a n)
  define b where "b = min l (MAX_PKT_SIZE - IP_HEADER_LEN - TCP_HEADER_LEN)"
  let ?c = "n_conns n p"
  let ?f = "seg_frame ?c (seg a b payload) flags a"
  from "1.prems"(1) obtain m where m: "put_frame (unat (tc_portid ?c)) ?f n = Some m"
    by (subst (asm) send_segments.simps) (auto simp: Let_def b_def split: option.splits)
  define m' where "m' = upd_tcp p (seg_sent b a) m"
  note eff = put_frame_frame[OF m]
  have inv: "conns_inv m'" unfolding m'_def
    by (rule conns_inv_upd_tcp[OF conns_inv_same[OF put_frame_same[OF m] "1.prems"(2)]])
      (use "1.prems"(3) eff in simp_all)
  have busy: "\<not> conn_idle m' p" by (simp add: m'_def upd_tcp_def)
  have oth: "n_active m' = n_active n" "n_free_q m' = n_free_q n" "\<forall>q. q \<noteq> p \<longrightarrow> n_conns m' q = n_conns n q"
    "nic_key m' = nic_key n"
    using eff by (auto simp: m'_def upd_tcp_def)
  have run: "send_segments p payload flags l a n =
      (if l - b > 0 then send_segments p payload flags (l - b) (a + b) m' else Some m')"
    by (subst send_segments.simps) (simp only: Let_def m[unfolded b_def] m'_def option.case b_def)
  show ?case
  proof (cases "l - b > 0")
    case True
    then have "send_segments p payload flags (l - b) (a + b) m' = Some n'" using run "1.prems"(1) by simp
    from "1.IH"[OF b_def refl m m'_def True this inv busy] show ?thesis using oth by simp
  next
    case False
    then have "n' = m'" using run "1.prems"(1) by simp
    then show ?thesis using inv busy oth by simp
  qed
qed

lemma send_tcp_packet_inv:
  assumes "send_tcp_packet p payload len flags n = Some n'" "conns_inv n" "\<not> conn_idle n p"
  shows "conns_inv n'" "\<not> conn_idle n' p" "n_active n' = n_active n" "n_free_q n' = n_free_q n"
    "\<And>q. q \<noteq> p \<Longrightarrow> n_conns n' q = n_conns n q" "nic_key n' = nic_key n"
  using send_segments_inv[of p payload flags "unat len" 0 n n'] assms
  by (auto simp: send_tcp_packet_def split: if_splits)

lemma member_busy: "conns_inv n \<Longrightarrow> p \<in> ht_members (n_active n) \<Longrightarrow> \<not> conn_idle n p"
  by (simp add: conns_inv_def nic_table_inv_def)

lemma abort_session_run:
  assumes "abort_session p n = Some n'" "conns_inv n" "p \<in> ht_members (n_active n)"
  shows "conns_inv n'" "ht_members (n_active n') = ht_members (n_active n) - {p}"
proof -
  from assms(1) obtain m where m: "send_tcp_packet p [] 0 (TCP_FLAG_RST OR TCP_FLAG_ACK) n = Some m"
    and r: "remove_session p m = Some n'" by (auto simp: abort_session_def split: bind_splits)
  note s = send_tcp_packet_inv[OF m assms(2) member_busy[OF assms(2,3)]]
  have "p \<in> ht_members (n_active m)" using s(3) assms(3) by simp
  from remove_session_run[OF s(1) this r] s(3)
  show "conns_inv n'" "ht_members (n_active n') = ht_members (n_active n) - {p}" by simp_all
qed

text \<open>The pieces of a payload, and the frames that carry them.\<close>

function chunks :: "nat \<Rightarrow> nat \<Rightarrow> bytes \<Rightarrow> bytes list" where
  "chunks l a payload =
    (let b = min l (MAX_PKT_SIZE - IP_HEADER_LEN - TCP_HEADER_LEN)
     in seg a b payload # (if l - b > 0 then chunks (l - b) (a + b) payload else []))"
  by pat_completeness auto
termination
  by (relation "measure (\<lambda>(l, _). l)") (auto simp: MAX_PKT_SIZE_def IP_HEADER_LEN_def TCP_HEADER_LEN_def)

declare chunks.simps [simp del]

fun seg_frames :: "tcp_conn \<Rightarrow> u8 \<Rightarrow> nat \<Rightarrow> bytes list \<Rightarrow> bytes list" where
  "seg_frames c flags a [] = []"
| "seg_frames c flags a (d # ds) = seg_frame c d flags a # seg_frames (seg_sent (length d) a c) flags (a + length d) ds"

lemma concat_chunks: "concat (chunks l a payload) = seg a l payload"
proof (induction l a payload rule: chunks.induct)
  case (1 l a payload)
  let ?b = "min l (MAX_PKT_SIZE - IP_HEADER_LEN - TCP_HEADER_LEN)"
  have "take ?b (drop a payload) @ take (l - ?b) (drop (a + ?b) payload) = take l (drop a payload)"
    using take_add[of ?b "l - ?b" "drop a payload"] by (simp add: add.commute)
  then show ?case using "1.IH"[OF refl] by (subst chunks.simps) (auto simp: Let_def seg_def)
qed

lemma chunks_small: "d \<in> set (chunks l a payload) \<Longrightarrow> length d \<le> 1460"
proof (induction l a payload rule: chunks.induct)
  case (1 l a payload)
  from "1.prems" "1.IH"[OF refl] show ?case
    by (subst (asm) chunks.simps)
      (auto simp: Let_def MAX_PKT_SIZE_def IP_HEADER_LEN_def TCP_HEADER_LEN_def split: if_splits)
qed

lemma send_segments_frames:
  assumes "a + l \<le> length payload"
    and "length (n_wmbufs n port) + length (chunks l a payload) \<le> MAX_PKT_BURST"
    and "unat (tc_portid (n_conns n p)) = port"
  shows "\<exists>n'. send_segments p payload flags l a n = Some n' \<and>
    n_wmbufs n' port = n_wmbufs n port @ seg_frames (n_conns n p) flags a (chunks l a payload)"
  using assms
proof (induction p payload flags l a n rule: send_segments.induct)
  case (1 p payload flags l a n)
  define b where "b = min l (MAX_PKT_SIZE - IP_HEADER_LEN - TCP_HEADER_LEN)"
  have bl: "b \<le> l" by (simp add: b_def)
  let ?c = "n_conns n p"
  let ?d = "seg a b payload"
  let ?f = "seg_frame ?c ?d flags a"
  have ld: "length ?d = b" using "1.prems"(1) bl by auto
  have ch: "chunks l a payload = ?d # (if l - b > 0 then chunks (l - b) (a + b) payload else [])"
    by (subst chunks.simps) (simp only: Let_def b_def)
  define m where "m = n\<lparr> n_wmbufs := (n_wmbufs n)(port := n_wmbufs n port @ [?f]) \<rparr>"
  have "length (n_wmbufs n port) < MAX_PKT_BURST" using "1.prems"(2) ch by simp
  then have m: "put_frame (unat (tc_portid ?c)) ?f n = Some m"
    using "1.prems"(3) by (simp add: put_frame_room m_def)
  define m' where "m' = upd_tcp p (seg_sent b a) m"
  have m': "n_conns m' p = seg_sent b a ?c" "n_wmbufs m' port = n_wmbufs n port @ [?f]"
    by (simp_all add: m'_def m_def upd_tcp_def)
  have run: "send_segments p payload flags l a n =
      (if l - b > 0 then send_segments p payload flags (l - b) (a + b) m' else Some m')"
    by (subst send_segments.simps) (simp only: Let_def m[unfolded b_def] m'_def option.case b_def)
  show ?case
  proof (cases "l - b > 0")
    case True
    have room: "length (n_wmbufs m' port) + length (chunks (l - b) (a + b) payload) \<le> MAX_PKT_BURST"
      using "1.prems"(2) True by (simp add: ch m')
    have "\<exists>n'. send_segments p payload flags (l - b) (a + b) m' = Some n' \<and>
        n_wmbufs n' port = n_wmbufs m' port @ seg_frames (n_conns m' p) flags (a + b) (chunks (l - b) (a + b) payload)"
      by (rule "1.IH"[OF b_def refl m m'_def True _ room]) (use "1.prems"(1,3) bl m' in simp_all)
    then show ?thesis using True run ld by (auto simp: ch m')
  next
    case False
    then show ?thesis using run ch m' by simp
  qed
qed

lemma tcp_frame_reads:
  assumes "length dm = 6" "length sm = 6"
  shows "ld32 (tcp_frame dm sm len pid sa da sp dp sq ack off fl win rest) 38 = sq"
    and "drop 54 (tcp_frame dm sm len pid sa da sp dp sq ack off fl win rest) = rest"
    and "length (tcp_frame dm sm len pid sa da sp dp sq ack off fl win rest) = 54 + length rest"
  using assms by (simp_all add: tcp_frame_def ld32_def seg_def byte_simps drop_Cons')

lemma seg_frames_payload:
  "length (tc_client_mac c) = 6 \<Longrightarrow> length (tc_server_mac c) = 6 \<Longrightarrow>
   map (drop 54) (seg_frames c flags a ds) = ds"
  by (induction ds arbitrary: c a) (simp_all add: seg_frame_def tcp_frame_reads)

lemma seg_frames_place:
  assumes "length (tc_client_mac c) = 6" "length (tc_server_mac c) = 6" "f \<in> set (seg_frames c flags a ds)"
  shows "\<exists>i. i + (length f - 54) \<le> length (concat ds) \<and> 54 \<le> length f \<and>
    ld32 f 38 = htonl (tc_last_recv_ack c + of_nat (a + i)) \<and> seg i (length f - 54) (concat ds) = drop 54 f"
  using assms
proof (induction ds arbitrary: c a)
  case (Cons d ds)
  show ?case
  proof (cases "f = seg_frame c d flags a")
    case True
    then show ?thesis using Cons.prems by (intro exI[of _ 0]) (simp add: seg_frame_def tcp_frame_reads seg_def)
  next
    case False
    with Cons obtain i where i: "i + (length f - 54) \<le> length (concat ds)" "54 \<le> length f"
      "ld32 f 38 = htonl (tc_last_recv_ack c + of_nat (a + length d + i))"
      "seg i (length f - 54) (concat ds) = drop 54 f"
      using Cons.IH[of "seg_sent (length d) a c" "a + length d"] by auto
    then show ?thesis by (intro exI[of _ "length d + i"]) (simp add: seg_def add.assoc)
  qed
qed simp


section \<open>Properties\<close>

text \<open>C22: With room in the transmit table of its port, \<open>send_tcp_packet\<close> sends the payload in segments of at most
  1460 bytes: their payloads in order are the payload, and every segment carries the bytes that its
  sequence number, counted from the client's acknowledgement number, stands for.\<close>

theorem send_tcp_packet_delivers:
  assumes "unat len \<le> length payload"
    and "length (tc_client_mac (n_conns n p)) = 6" "length (tc_server_mac (n_conns n p)) = 6"
    and "port = unat (tc_portid (n_conns n p))"
    and "length (n_wmbufs n port) + length (chunks (unat len) 0 payload) \<le> MAX_PKT_BURST"
  shows "\<exists>n' frames. send_tcp_packet p payload len flags n = Some n' \<and>
    n_wmbufs n' port = n_wmbufs n port @ frames \<and>
    concat (map (drop 54) frames) = take (unat len) payload \<and>
    (\<forall>f \<in> set frames. 54 \<le> length f \<and> length f \<le> 1514 \<and>
       seg (unat (ntohl (ld32 f 38) - tc_last_recv_ack (n_conns n p))) (length f - 54) payload = drop 54 f)"
proof -
  let ?c = "n_conns n p"
  let ?ds = "chunks (unat len) 0 payload"
  let ?fs = "seg_frames ?c flags 0 ?ds"
  have "\<exists>n'. send_segments p payload flags (unat len) 0 n = Some n' \<and> n_wmbufs n' port = n_wmbufs n port @ ?fs"
    by (rule send_segments_frames[OF _ assms(5) assms(4)[symmetric]]) (simp add: assms(1))
  then obtain n' where n': "send_tcp_packet p payload len flags n = Some n'" "n_wmbufs n' port = n_wmbufs n port @ ?fs"
    using assms(1) unfolding send_tcp_packet_def by auto
  have cc: "concat ?ds = take (unat len) payload" by (simp add: concat_chunks seg_def)
  have pay: "map (drop 54) ?fs = ?ds" using seg_frames_payload assms(2,3) by blast
  have "54 \<le> length f \<and> length f \<le> 1514 \<and>
      seg (unat (ntohl (ld32 f 38) - tc_last_recv_ack ?c)) (length f - 54) payload = drop 54 f" if f: "f \<in> set ?fs" for f
  proof -
    from seg_frames_place[OF assms(2,3) f] obtain i where i: "i + (length f - 54) \<le> length (concat ?ds)" "54 \<le> length f"
      "ld32 f 38 = htonl (tc_last_recv_ack ?c + of_nat i)" "seg i (length f - 54) (concat ?ds) = drop 54 f" by auto
    have "drop 54 f \<in> set (map (drop 54) ?fs)" using f by simp
    then have "drop 54 f \<in> set ?ds" by (simp only: pay)
    from chunks_small[OF this] have small: "length f \<le> 1514" by simp
    have "length (concat ?ds) = unat len" using assms(1) cc by simp
    moreover have "unat len < 65536" using unsigned_less[of len, where ?'a = nat] by simp
    ultimately have "i < 65536" using i(1) by linarith
    then have "i < 2 ^ 32" by simp
    then have at: "unat (ntohl (ld32 f 38) - tc_last_recv_ack ?c) = i"
      using i(3) by (simp add: ntohl_htonl unsigned_of_nat take_bit_nat_eq_self)
    have "seg i (length f - 54) (take (unat len) payload) = seg i (length f - 54) payload"
      using i(1) \<open>length (concat ?ds) = unat len\<close> by (simp add: seg_def drop_take)
    then show ?thesis using i(2,4) small unfolding at cc by simp
  qed
  moreover have "concat (map (drop 54) ?fs) = take (unat len) payload" by (simp only: pay cc)
  ultimately show ?thesis using n' by (intro exI[of _ n'] exI[of _ ?fs] conjI ballI) blast+
qed

definition demo_tcp :: tcp_conn where
  "demo_tcp = (tcp_zero 0)\<lparr> tc_state := TCP_SESSION_RECEIVED, tc_last_recv_ack := 0xFFFFFF00 \<rparr>"

lemma length_chunks_two:
  assumes "1460 < l" "l \<le> 2920"
  shows "length (chunks l a payload) = 2"
proof -
  have "length (chunks (l - 1460) (a + 1460) payload) = 1"
    using assms by (subst chunks.simps) (simp add: Let_def MAX_PKT_SIZE_def IP_HEADER_LEN_def TCP_HEADER_LEN_def)
  then show ?thesis
    using assms by (subst chunks.simps) (simp add: Let_def MAX_PKT_SIZE_def IP_HEADER_LEN_def TCP_HEADER_LEN_def)
qed

theorem send_tcp_packet_delivers_witness:
  "\<exists>n' frames. send_tcp_packet 0 (replicate 2000 7) 2000 TCP_FLAG_ACK (nic_idle (\<lambda>_. 64) (\<lambda>_. 0) (\<lambda>_. demo_tcp)) = Some n' \<and>
    n_wmbufs n' 0 = frames \<and> concat (map (drop 54) frames) = replicate 2000 7"
proof -
  let ?n = "nic_idle (\<lambda>_. 64) (\<lambda>_. 0) (\<lambda>_. demo_tcp)"
  have n: "n_conns ?n 0 = demo_tcp" "n_wmbufs ?n 0 = []" by (simp_all add: nic_idle_def)
  have d: "length (tc_client_mac demo_tcp) = 6" "length (tc_server_mac demo_tcp) = 6" "unat (tc_portid demo_tcp) = 0"
    by (simp_all add: demo_tcp_def tcp_zero_def)
  show ?thesis
    using send_tcp_packet_delivers[of 2000 "replicate 2000 7" ?n 0 0 TCP_FLAG_ACK] length_chunks_two[of 2000] n d
    by (auto simp: MAX_PKT_BURST_def)
qed

end
