(* ===== verification/Tls_Codec.thy ===== *)
theory Tls_Codec
  imports Nic_Session
begin

text \<open>
  Encoding and decoding of TLS records and handshake messages on the SmartNIC,
  \<^verbatim>\<open>src/smartnic/offload_ssl/src/ssl.c\<close>: 24-bit integers, the choice among the client's offers, the
  ClientHello and its extensions, and the messages of the server.

  A read or a write outside the buffer of a record is \<open>None\<close>, as is a failed assertion, a null pointer that
  is followed, and a loop that does not end.
\<close>


section \<open>Integers\<close>

definition set_u32 :: "u32 \<Rightarrow> bytes" where
  "set_u32 b = (let y = le_bytes 4 b in [y ! 2, y ! 1, y ! 0])"

definition get_u32 :: "bytes \<Rightarrow> u32" where
  "get_u32 a =
    (let x = ucast (a ! 0);
         x = push_bit 8 x OR ucast (a ! 1)
     in push_bit 8 x OR ucast (a ! 2))"

definition rd8 :: "bytes \<Rightarrow> nat \<Rightarrow> u8 option" where
  "rd8 b i = (if i < length b then Some (b ! i) else None)"

definition rd16 :: "bytes \<Rightarrow> nat \<Rightarrow> u16 option" where
  "rd16 b i = (if i + 2 \<le> length b then Some (ntohs (ld16 b i)) else None)"

definition rd_seg :: "bytes \<Rightarrow> nat \<Rightarrow> nat \<Rightarrow> bytes option" where
  "rd_seg b i k = (if i + k \<le> length b then Some (seg i k b) else None)"


section \<open>Choice of the parameters\<close>

definition TLS_NULL_WITH_NULL_NULL :: "u8 \<times> u8" where "TLS_NULL_WITH_NULL_NULL = (0x00, 0x00)"
definition TLS_AES_256_GCM_SHA384 :: "u8 \<times> u8" where "TLS_AES_256_GCM_SHA384 = (0x13, 0x02)"
definition TLS_RSA_WITH_AES_256_GCM_SHA384 :: "u8 \<times> u8" where "TLS_RSA_WITH_AES_256_GCM_SHA384 = (0x00, 0x9d)"
definition TLS_RSA_WITH_AES_256_CBC_SHA :: "u8 \<times> u8" where "TLS_RSA_WITH_AES_256_CBC_SHA = (0x00, 0x35)"
definition X25519 :: "u8 \<times> u8" where "X25519 = (0x00, 0x1d)"
definition SUPPORTED_GROUP_UNKNOWN :: "u8 \<times> u8" where "SUPPORTED_GROUP_UNKNOWN = (0x00, 0x00)"
definition ECDSA_SECP256r1_SHA256 :: "u8 \<times> u8" where "ECDSA_SECP256r1_SHA256 = (0x04, 0x03)"
definition SIGNATURE_UNKNOWN :: "u8 \<times> u8" where "SIGNATURE_UNKNOWN = (0x00, 0x00)"

text \<open>The three functions walk an array of \<open>length div 2\<close> two-byte codes.  The pointer is an offset into the
  fragment \<open>pf\<close>; an array of no codes is not looked at.\<close>

fun select_cipher_loop :: "nat \<Rightarrow> nat \<Rightarrow> bytes \<Rightarrow> (u8 \<times> u8) option" where
  "select_cipher_loop 0 at pf = Some TLS_NULL_WITH_NULL_NULL"
| "select_cipher_loop (Suc k) at pf = do {
     a \<leftarrow> rd8 pf at;
     b \<leftarrow> rd8 pf (at + 1);
     if (a, b) = TLS_AES_256_GCM_SHA384 then Some TLS_AES_256_GCM_SHA384
     else if (a, b) = TLS_RSA_WITH_AES_256_GCM_SHA384 then Some TLS_RSA_WITH_AES_256_GCM_SHA384
     else if (a, b) = TLS_RSA_WITH_AES_256_CBC_SHA then Some TLS_RSA_WITH_AES_256_CBC_SHA
     else select_cipher_loop k (at + 2) pf
   }"

fun select_code_loop :: "u8 \<times> u8 \<Rightarrow> nat \<Rightarrow> nat \<Rightarrow> bytes \<Rightarrow> (u8 \<times> u8) option" where
  "select_code_loop code 0 at pf = Some (0x00, 0x00)"
| "select_code_loop code (Suc k) at pf = do {
     a \<leftarrow> rd8 pf at;
     b \<leftarrow> rd8 pf (at + 1);
     if (a, b) = code then Some code else select_code_loop code k (at + 2) pf
   }"

definition select_cipher :: "u16 \<Rightarrow> nat option \<Rightarrow> bytes \<Rightarrow> (u8 \<times> u8) option" where
  "select_cipher len cipher_suites pf =
    (let k = unat len div 2 in
     if k = 0 then Some TLS_NULL_WITH_NULL_NULL
     else case cipher_suites of None \<Rightarrow> None | Some at \<Rightarrow> select_cipher_loop k at pf)"

definition select_supported_group :: "u16 \<Rightarrow> nat option \<Rightarrow> bytes \<Rightarrow> (u8 \<times> u8) option" where
  "select_supported_group len supported_groups pf =
    (let k = unat len div 2 in
     if k = 0 then Some SUPPORTED_GROUP_UNKNOWN
     else case supported_groups of None \<Rightarrow> None | Some at \<Rightarrow> select_code_loop X25519 k at pf)"

definition select_signature_algorithm :: "u16 \<Rightarrow> nat option \<Rightarrow> bytes \<Rightarrow> (u8 \<times> u8) option" where
  "select_signature_algorithm len signature_algorithms pf =
    (let k = unat len div 2 in
     if k = 0 then Some SIGNATURE_UNKNOWN
     else case signature_algorithms of None \<Rightarrow> None | Some at \<Rightarrow> select_code_loop ECDSA_SECP256r1_SHA256 k at pf)"


section \<open>ClientHello\<close>

definition EC_POINT_FORMATS :: u16 where "EC_POINT_FORMATS = 0x000b"
definition SUPPORTED_GROUPS :: u16 where "SUPPORTED_GROUPS = 0x000a"
definition SESSION_TICKET :: u16 where "SESSION_TICKET = 0x0023"
definition ALPN :: u16 where "ALPN = 0x0010"
definition ENCRYPT_THEN_MAC :: u16 where "ENCRYPT_THEN_MAC = 0x0016"
definition EXTENDED_MASTER_SECRET :: u16 where "EXTENDED_MASTER_SECRET = 0x0017"
definition SIGNATURE_ALGORITHMS :: u16 where "SIGNATURE_ALGORITHMS = 0x000d"
definition SUPPORTED_VERSIONS :: u16 where "SUPPORTED_VERSIONS = 0x002b"
definition PSK_KEY_EXCHANGE_MODES :: u16 where "PSK_KEY_EXCHANGE_MODES = 0x002d"
definition KEY_SHARE :: u16 where "KEY_SHARE = 0x0033"

lemmas extension_type_defs =
  EC_POINT_FORMATS_def SUPPORTED_GROUPS_def SESSION_TICKET_def ALPN_def ENCRYPT_THEN_MAC_def
  EXTENDED_MASTER_SECRET_def SIGNATURE_ALGORITHMS_def SUPPORTED_VERSIONS_def PSK_KEY_EXCHANGE_MODES_def KEY_SHARE_def

definition skipped_extensions :: "u16 set" where
  "skipped_extensions = {EC_POINT_FORMATS, SESSION_TICKET, ALPN, ENCRYPT_THEN_MAC, EXTENDED_MASTER_SECRET,
     PSK_KEY_EXCHANGE_MODES}"

text \<open>The body of the loop: offsets are 16-bit and wrap around.  An extension of an unknown type is not
  skipped, so that the loop goes on inside of it.\<close>

definition unpack_extension :: "bytes \<Rightarrow> u16 \<Rightarrow> u16 \<Rightarrow> u16 \<Rightarrow> client_hello \<Rightarrow> (u16 \<times> client_hello) option" where
  "unpack_extension pf extension_type extension_length offset pch =
    (if extension_type \<in> skipped_extensions then Some (offset + extension_length, pch)
     else if extension_type = SUPPORTED_GROUPS then do {
       l \<leftarrow> rd16 pf (unat offset);
       let offset = offset + 2;
       Some (offset + l, pch\<lparr> ch_curves_list_length := l, ch_curves_list := Some (unat offset) \<rparr>)
     }
     else if extension_type = SIGNATURE_ALGORITHMS then do {
       l \<leftarrow> rd16 pf (unat offset);
       let offset = offset + 2;
       Some (offset + l, pch\<lparr> ch_signature_algorithm_list_length := l, ch_signature_algorithm_list := Some (unat offset) \<rparr>)
     }
     else if extension_type = SUPPORTED_VERSIONS then do {
       l \<leftarrow> rd8 pf (unat offset);
       let offset = offset + 1;
       Some (offset + ucast l, pch\<lparr> ch_versions_length := l, ch_versions := Some (unat offset) \<rparr>)
     }
     else if extension_type = KEY_SHARE then do {
       l \<leftarrow> rd16 pf (unat offset);
       let offset = offset + 2;
       curve \<leftarrow> rd16 pf (unat offset);
       let offset = offset + 2;
       k \<leftarrow> rd16 pf (unat offset);
       let offset = offset + 2;
       Some (offset + k, pch\<lparr> ch_key_share_length := l, ch_curve_type := curve, ch_pub_key_length := k,
         ch_client_pub_key := Some (unat offset) \<rparr>)
     }
     else Some (offset, pch))"

partial_function (option) extension_loop :: "bytes \<Rightarrow> u16 \<Rightarrow> u16 \<Rightarrow> client_hello \<Rightarrow> client_hello option" where
  "extension_loop pf offset ext_end pch =
    (if offset < ext_end then do {
       extension_type \<leftarrow> rd16 pf (unat offset);
       extension_length \<leftarrow> rd16 pf (unat (offset + 2));
       (offset, pch) \<leftarrow> unpack_extension pf extension_type extension_length (offset + 4) pch;
       extension_loop pf offset ext_end pch
     }
     else Some pch)"

definition unpack_extensions :: "u16 \<Rightarrow> bytes \<Rightarrow> u16 \<Rightarrow> u16 \<Rightarrow> client_hello \<Rightarrow> client_hello option" where
  "unpack_extensions extensions_length pf offset ext_end pch =
    (if extensions_length > 0 then extension_loop pf offset ext_end pch else Some pch)"

text \<open>The ClientHello up to its extensions.  The first component tells whether there are extensions, that is
  whether the key pair is requested next.  A session id of more than 32 bytes would be copied over the
  fields behind it.\<close>

definition unpack_client_hello :: "bytes \<Rightarrow> u16 \<Rightarrow> client_hello \<Rightarrow> (bool \<times> client_hello) option" where
  "unpack_client_hello pf len pch = do {
     let offset = HANDSHAKE_HEADER_SIZE;
     major \<leftarrow> rd8 pf offset;
     minor \<leftarrow> rd8 pf (offset + 1);
     let offset = offset + 2;
     random \<leftarrow> rd_seg pf offset 32;
     let offset = offset + 32;
     sid_len \<leftarrow> rd8 pf offset;
     let offset = offset + 1;
     sid \<leftarrow> (if sid_len > 32 then None else rd_seg pf offset (unat sid_len));
     let offset = offset + unat sid_len;
     cs_len \<leftarrow> rd16 pf offset;
     let offset = offset + 2;
     let cs = (if cs_len > 0 then Some offset else ch_cipher_suites pch);
     let offset = offset + unat cs_len;
     cm_len \<leftarrow> rd8 pf offset;
     let offset = offset + 1;
     let cm = (if cm_len > 0 then Some offset else ch_compression_methods pch);
     let offset = offset + unat cm_len;
     let pch = pch\<lparr> ch_version := (major, minor), ch_random := random, ch_session_id_length := sid_len,
       ch_session_id := blit (ch_session_id pch) 0 sid, ch_cipher_suite_length := cs_len, ch_cipher_suites := cs,
       ch_compression_method_length := cm_len, ch_compression_methods := cm \<rparr>;
     if offset < unat len then do {
       ext_len \<leftarrow> rd16 pf offset;
       let offset = offset + 2;
       pch \<leftarrow> unpack_extensions ext_len pf (of_nat offset) len (pch\<lparr> ch_extensions_length := ext_len \<rparr>);
       Some (True, pch)
     }
     else Some (False, pch)
   }"


section \<open>Server messages\<close>

definition rec_put :: "rec_area \<Rightarrow> nat \<Rightarrow> bytes \<Rightarrow> tls_record \<Rightarrow> tls_record option" where
  "rec_put a i s r = (if i + length s > length (rec_bytes a r) then None else Some (rec_write a i s r))"

text \<open>The bytes that \<^verbatim>\<open>pack_handshake\<close> writes for a ServerHello, and \<^verbatim>\<open>pack_application_data\<close> for the other
  messages.\<close>

definition server_hello_bytes :: "server_hello \<Rightarrow> bytes" where
  "server_hello_bytes psh =
     [fst (sh_version psh), snd (sh_version psh)] @ sh_random psh @ [sh_session_id_length psh] @ sh_session_id psh @
     [fst (sh_cipher_suite psh), snd (sh_cipher_suite psh), sh_compression_method psh] @
     be_bytes 2 (sh_extensions_length psh) @ sh_supported_versions psh @ sh_key_share psh"

text \<open>TLS 1.2 messages are not produced by the TLS 1.3 code.  For the types that the function rejects the record
  is deleted and its cleared session pointer is then followed.\<close>

definition pack_handshake :: "tls_record \<Rightarrow> nat \<Rightarrow> (int \<times> tls_record) option" where
  "pack_handshake r offset =
    (case rc_fragment r of
       Frag_handshake msg_type len (Body_server_hello psh) \<Rightarrow>
         if unat msg_type = SERVER_HELLO then do {
           let m = [msg_type] @ len @ server_hello_bytes psh;
           r \<leftarrow> rec_put (rc_decrypted r) offset m r;
           Some (int (offset + length m), r)
         }
         else None
     | _ \<Rightarrow> None)"

definition pack_change_cipher_spec :: "tls_record \<Rightarrow> nat \<Rightarrow> (int \<times> tls_record) option" where
  "pack_change_cipher_spec r offset =
    (let b = (case rc_fragment r of Frag_none \<Rightarrow> 0 | Frag_handshake t _ _ \<Rightarrow> t | Frag_alert l _ \<Rightarrow> l) in
     map_option (\<lambda>r. (0, r)) (rec_put (rc_decrypted r) offset [b] r))"

text \<open>Every message of \<^verbatim>\<open>pack_application_data\<close> ends in the content type, which the two lengths then
  include.\<close>

definition close_inner :: "tls_record \<Rightarrow> nat \<Rightarrow> bytes \<Rightarrow> (int \<times> tls_record) option" where
  "close_inner r offset m = do {
     r \<leftarrow> rec_put (rc_decrypted r) offset (m @ [HANDSHAKE]) r;
     let r = r\<lparr> rc_plain_length := rc_plain_length r + 1, rc_length := rc_length r + 1 \<rparr>;
     r \<leftarrow> rec_put (rc_decrypted r) 3 (be_bytes 2 (rc_plain_length r)) r;
     Some (int (offset + length m + 1), r)
   }"

text \<open>\<open>sig_len\<close> is the length of the signature in the session.  The loop over the certificates makes one turn for
  the server's only certificate; another turn would follow a pointer that is not set.\<close>

definition pack_application_data :: "nat \<Rightarrow> tls_record \<Rightarrow> nat \<Rightarrow> (int \<times> tls_record) option" where
  "pack_application_data sig_len r offset =
    (case rc_fragment r of
       Frag_handshake msg_type len body \<Rightarrow>
         (let h = [msg_type] @ len in
          if unat msg_type = ENCRYPTED_EXTENSIONS then
            (case body of Body_encrypted_extensions ext_len \<Rightarrow> close_inner r offset (h @ be_bytes 2 ext_len) | _ \<Rightarrow> None)
          else if unat msg_type = CERTIFICATE then
            (case body of
               Body_certificate ctx_len certs_len cert_len cert ext_len \<Rightarrow>
                 if unat (get_u32 certs_len) = 0 then close_inner r offset (h @ [ctx_len] @ certs_len)
                 else if unat (get_u32 certs_len) \<le> 5 + unat (get_u32 cert_len) \<and> unat (get_u32 cert_len) \<le> length cert
                 then close_inner r offset (h @ [ctx_len] @ certs_len @ cert_len @ take (unat (get_u32 cert_len)) cert @ le_bytes 2 ext_len)
                 else None
             | _ \<Rightarrow> None)
          else if unat msg_type = CERTIFICATE_VERIFY then
            (case body of
               Body_certificate_verify alg slen signature \<Rightarrow>
                 if sig_len \<le> length signature
                 then close_inner r offset (h @ [fst alg, snd alg] @ be_bytes 2 slen @ take sig_len signature)
                 else None
             | _ \<Rightarrow> None)
          else if unat msg_type = FINISHED then
            (case body of Body_finished vd \<Rightarrow> close_inner r offset (h @ take HASH_SIZE_SHA384 vd) | _ \<Rightarrow> None)
          else None)
     | _ \<Rightarrow> None)"

definition pack_record :: "nat \<Rightarrow> tls_record \<Rightarrow> (int \<times> tls_record) option" where
  "pack_record sig_len r =
    (if rc_state r \<noteq> TO_PACK_HEADER then None
     else do {
       let r = r\<lparr> rc_state := TO_APPEND_MAC \<rparr>;
       r \<leftarrow> rec_put (rc_decrypted r) 0 ([rc_plain_type r, fst (rc_plain_version r), snd (rc_plain_version r)] @
              be_bytes 2 (rc_plain_length r)) r;
       if rc_plain_type r = HANDSHAKE then pack_handshake r RECORD_HEADER_SIZE
       else if rc_plain_type r = CHANGE_CIPHER_SPEC then pack_change_cipher_spec r RECORD_HEADER_SIZE
       else if rc_plain_type r = ALERT then Some (- 1, r)
       else if rc_plain_type r = APPLICATION_DATA then pack_application_data sig_len r RECORD_HEADER_SIZE
       else None
     })"


section \<open>Records\<close>

definition init_record :: "u64 \<Rightarrow> bool \<Rightarrow> tls_record \<Rightarrow> tls_record" where
  "init_record seq_num received r = r\<lparr>
     rc_data := Area_buf, rc_decrypted := Area_mac_in, rc_current_len := 0, rc_length := 0, rc_seq_num := seq_num,
     rc_is_encrypted := False, rc_plain_type := 0, rc_plain_version := (0, 0), rc_plain_length := 0,
     rc_cipher_type := 0, rc_cipher_version := (0, 0), rc_cipher_length := 0, rc_fragment := Frag_none,
     rc_is_received := received, rc_state := (if received then TO_UNPACK_HEADER else TO_PACK_HEADER) \<rparr>"

definition unpack_header :: "tls_record \<Rightarrow> tls_record option" where
  "unpack_header r =
    (if rc_state r \<noteq> TO_UNPACK_HEADER then None
     else let data = rec_bytes (rc_data r) r; l = ntohs (ld16 data 3) in
       Some ((if data ! 0 \<in> {HANDSHAKE, CHANGE_CIPHER_SPEC, ALERT, APPLICATION_DATA}
              then r\<lparr> rc_cipher_type := data ! 0, rc_cipher_version := (data ! 1, data ! 2), rc_cipher_length := l,
                      rc_plain_type := data ! 0, rc_plain_version := (data ! 1, data ! 2), rc_plain_length := l \<rparr>
              else r\<lparr> rc_plain_type := HANDSHAKE, rc_plain_version := (0x02, 0x00),
                      rc_plain_length := of_nat (rc_length r - 2) \<rparr>)
             \<lparr> rc_state := TO_DECRYPT \<rparr>))"



section \<open>Lemmas\<close>

lemma set_u32_bytes: "set_u32 x = [ucast (drop_bit 16 x), ucast (drop_bit 8 x), ucast x]"
  by (simp add: set_u32_def Let_def le_bytes_def be_bytes_Suc numeral_eq_Suc)

lemma get_set_u32:
  assumes "unat x < 2 ^ 24"
  shows "get_u32 (set_u32 x) = x"
proof -
  have "unat (take_bit 24 x) = unat x" using assms by (simp add: unsigned_take_bit_eq take_bit_nat_eq_self)
  then have "take_bit 24 x = x" by (rule unsigned_word_eqI)
  moreover have "get_u32 (set_u32 x) = take_bit 24 x"
  proof (rule bit_word_eqI)
    fix n assume "n < LENGTH(32)"
    consider "n < 8" | "8 \<le> n" "n < 16" | "16 \<le> n" by linarith
    then show "bit (get_u32 (set_u32 x)) n = bit (take_bit 24 x) n"
      by cases (auto simp: bit_simps get_u32_def set_u32_bytes Let_def dest: bit_imp_le_length)
  qed
  ultimately show ?thesis by simp
qed

lemma rd16_app [simp]:
  "length pre = i \<Longrightarrow> rd16 (pre @ be_bytes 2 w @ post) i = Some w"
  by (simp add: rd16_def byte_simps seg_def)

text \<open>An extension list as RFC 8446, section 4.2, encodes it: type, length, data.\<close>

type_synonym extension = "u16 \<times> bytes"

definition ext_enc :: "extension \<Rightarrow> bytes" where
  "ext_enc e = be_bytes 2 (fst e) @ be_bytes 2 (of_nat (length (snd e)) :: u16) @ snd e"

lemma ext_enc_pair: "ext_enc (ty, body) = be_bytes 2 ty @ be_bytes 2 (of_nat (length body) :: u16) @ body"
  by (simp add: ext_enc_def)

text \<open>The data of the extensions that the code reads: a vector of two-byte codes, a vector of versions, and a key
  share of exactly one entry.\<close>

definition ext_known :: "extension \<Rightarrow> bool" where
  "ext_known e \<longleftrightarrow> (case e of (ty, body) \<Rightarrow>
     ty \<in> skipped_extensions \<or>
     (ty = SUPPORTED_GROUPS \<or> ty = SIGNATURE_ALGORITHMS) \<and> (\<exists>l. body = be_bytes 2 (of_nat (length l) :: u16) @ l) \<or>
     ty = SUPPORTED_VERSIONS \<and> (\<exists>l. length l < 256 \<and> body = [of_nat (length l)] @ l) \<or>
     ty = KEY_SHARE \<and> (\<exists>t c k. body = be_bytes 2 (t :: u16) @ be_bytes 2 (c :: u16) @ be_bytes 2 (of_nat (length k) :: u16) @ k))"

text \<open>What one turn of the loop does for such an extension whose data start at \<open>a\<close>.\<close>

definition ext_upd :: "u16 \<Rightarrow> nat \<Rightarrow> bytes \<Rightarrow> client_hello \<Rightarrow> client_hello" where
  "ext_upd ty a body pch =
    (if ty \<in> skipped_extensions then pch
     else if ty = SUPPORTED_GROUPS then
       pch\<lparr> ch_curves_list_length := of_nat (length body - 2), ch_curves_list := Some (a + 2) \<rparr>
     else if ty = SIGNATURE_ALGORITHMS then
       pch\<lparr> ch_signature_algorithm_list_length := of_nat (length body - 2), ch_signature_algorithm_list := Some (a + 2) \<rparr>
     else if ty = SUPPORTED_VERSIONS then
       pch\<lparr> ch_versions_length := of_nat (length body - 1), ch_versions := Some (a + 1) \<rparr>
     else pch\<lparr> ch_key_share_length := be_word (seg 0 2 body), ch_curve_type := be_word (seg 2 2 body),
            ch_pub_key_length := of_nat (length body - 6), ch_client_pub_key := Some (a + 6) \<rparr>)"

lemma unat_of_nat_u16: "k < 65536 \<Longrightarrow> unat (of_nat k :: u16) = k"
  by (simp add: unsigned_of_nat take_bit_nat_eq_self)

lemma not_skipped:
  "SUPPORTED_GROUPS \<notin> skipped_extensions" "SIGNATURE_ALGORITHMS \<notin> skipped_extensions"
  "SUPPORTED_VERSIONS \<notin> skipped_extensions" "KEY_SHARE \<notin> skipped_extensions"
  by (simp_all add: skipped_extensions_def extension_type_defs)

lemma ext_types_distinct:
  "SUPPORTED_GROUPS \<noteq> SIGNATURE_ALGORITHMS" "SUPPORTED_GROUPS \<noteq> SUPPORTED_VERSIONS" "SUPPORTED_GROUPS \<noteq> KEY_SHARE"
  "SIGNATURE_ALGORITHMS \<noteq> SUPPORTED_VERSIONS" "SIGNATURE_ALGORITHMS \<noteq> KEY_SHARE" "SUPPORTED_VERSIONS \<noteq> KEY_SHARE"
  by (simp_all add: extension_type_defs)

lemma rd16_at:
  assumes "seg a 2 pf = be_bytes 2 w" "a + 2 \<le> length pf"
  shows "rd16 pf a = Some w"
  using assms by (simp add: rd16_def byte_simps)

lemma seg_of_seg: "seg a (length body) pf = body \<Longrightarrow> i + k \<le> length body \<Longrightarrow> seg (a + i) k pf = seg i k body"
  using seg_seg[of i k "length body" a pf] by simp

lemma unpack_extension_known:
  assumes "ext_known (ty, body)" "seg a (length body) pf = body" "a + length body \<le> length pf" "length pf < 65536"
  shows "unpack_extension pf ty (of_nat (length body)) (of_nat a) pch =
    Some (of_nat (a + length body), ext_upd ty a body pch)"
proof -
  note at = seg_of_seg[OF assms(2)]
  have un: "i \<le> length body \<Longrightarrow> unat (of_nat (a + i) :: u16) = a + i" for i
    using assms(3,4) by (intro unat_of_nat_u16) simp
  have a0: "unat (of_nat a :: u16) = a" using un[of 0] by simp
  consider (skip) "ty \<in> skipped_extensions"
    | (codes) l where "ty = SUPPORTED_GROUPS \<or> ty = SIGNATURE_ALGORITHMS" "body = be_bytes 2 (of_nat (length l) :: u16) @ l"
    | (vers) l where "ty = SUPPORTED_VERSIONS" "length l < 256" "body = [of_nat (length l)] @ l"
    | (share) t c k where "ty = KEY_SHARE"
        "body = be_bytes 2 (t :: u16) @ be_bytes 2 (c :: u16) @ be_bytes 2 (of_nat (length k) :: u16) @ k"
    using assms(1) unfolding ext_known_def by auto
  then show ?thesis
  proof cases
    case skip
    then show ?thesis by (simp add: unpack_extension_def ext_upd_def)
  next
    case (codes l)
    have "rd16 pf a = Some (of_nat (length l))"
      using at[of 0 2] assms(3) codes(2) by (intro rd16_at) (simp_all add: seg_def)
    moreover have "unat (of_nat a + 2 :: u16) = a + 2" using un[of 2] by (simp add: codes(2) add.commute)
    ultimately show ?thesis
      using codes not_skipped ext_types_distinct a0
      by (auto simp: unpack_extension_def ext_upd_def Let_def add.assoc add.commute)
  next
    case (vers l)
    have "seg a 1 pf = [of_nat (length l)]" using at[of 0 1] vers(3) by (simp add: seg_def)
    then have "rd8 pf a = Some (of_nat (length l))"
      using assms(3) vers(3) nth_seg[of 0 1 a pf] by (simp add: rd8_def)
    moreover have "unat (of_nat a + 1 :: u16) = a + 1" using un[of 1] by (simp add: vers(3) add.commute)
    moreover have "(ucast (of_nat (length l) :: u8) :: u16) = of_nat (length l)"
      using vers(2) by (simp add: word_eq_iff_unsigned unsigned_of_nat unsigned_ucast_eq take_bit_nat_eq_self)
    ultimately show ?thesis
      using vers not_skipped ext_types_distinct a0
      by (auto simp: unpack_extension_def ext_upd_def Let_def add.assoc add.commute)
  next
    case (share t c k)
    have s: "seg 0 2 body = be_bytes 2 t" "seg 2 2 body = be_bytes 2 c" "seg 4 2 body = be_bytes 2 (of_nat (length k) :: u16)"
      by (simp_all add: share(2) seg_def)
    have "rd16 pf a = Some t" "rd16 pf (a + 2) = Some c" "rd16 pf (a + 4) = Some (of_nat (length k))"
      using at[of 0 2] at[of 2 2] at[of 4 2] assms(3) s by (auto intro!: rd16_at simp: share(2))
    moreover have "unat (of_nat a + 2 :: u16) = a + 2" "unat (of_nat a + 4 :: u16) = a + 4" "unat (of_nat a + 6 :: u16) = a + 6"
      using un[of 2] un[of 4] un[of 6] by (simp_all add: share(2) add.commute)
    ultimately show ?thesis
      using share not_skipped ext_types_distinct a0 s
      by (auto simp: unpack_extension_def ext_upd_def Let_def byte_simps add.assoc add.left_commute)
  qed
qed


fun ext_fold :: "nat \<Rightarrow> extension list \<Rightarrow> client_hello \<Rightarrow> client_hello" where
  "ext_fold a [] pch = pch"
| "ext_fold a (e # es) pch = ext_fold (a + 4 + length (snd e)) es (ext_upd (fst e) (a + 4) (snd e) pch)"

lemma extension_loop_known:
  assumes "\<And>e. e \<in> set es \<Longrightarrow> ext_known e"
    and "pf = pre @ concat (map ext_enc es) @ post" "length pf < 65536" "length pre = a"
    and "ext_end = of_nat (a + length (concat (map ext_enc es)))"
  shows "extension_loop pf (of_nat a) ext_end pch = Some (ext_fold a es pch)"
  using assms
proof (induction es arbitrary: a pre pch)
  case Nil
  then show ?case by (subst extension_loop.simps) simp
next
  case (Cons e es)
  obtain ty body where e: "e = (ty, body)" by fastforce
  let ?rest = "concat (map ext_enc es)"
  have pf: "pf = pre @ be_bytes 2 ty @ be_bytes 2 (of_nat (length body) :: u16) @ body @ ?rest @ post"
    using Cons.prems(2) by (simp add: e ext_enc_pair)
  have len: "a + 4 + length body + length ?rest \<le> length pf" using Cons.prems(4) by (simp add: pf)
  have lb: "length body < 65536" using len Cons.prems(3) by linarith
  have u: "unat (of_nat a :: u16) = a" "unat (of_nat a + 2 :: u16) = a + 2"
    using unat_of_nat_u16[of a] unat_of_nat_u16[of "a + 2"] len Cons.prems(3) by (simp_all add: add.commute)
  have t: "rd16 pf a = Some ty" unfolding pf by (rule rd16_app) (simp add: Cons.prems(4))
  have l: "rd16 pf (a + 2) = Some (of_nat (length body))"
    using rd16_app[of "pre @ be_bytes 2 ty" "a + 2" "of_nat (length body) :: u16" "body @ ?rest @ post"] Cons.prems(4)
    by (simp add: pf)
  have lt: "(of_nat a :: u16) < ext_end"
  proof -
    have "unat ext_end = a + length (concat (map ext_enc (e # es)))"
      unfolding Cons.prems(5) by (rule unat_of_nat_u16) (use len Cons.prems(3) in \<open>simp add: e ext_enc_pair\<close>)
    then show ?thesis using u(1) by (simp add: word_less_nat_alt e ext_enc_pair)
  qed
  have "seg (a + 4) (length body) pf = body" using Cons.prems(4) by (simp add: pf seg_def)
  then have step: "unpack_extension pf ty (of_nat (length body)) (of_nat (a + 4)) pch =
      Some (of_nat (a + 4 + length body), ext_upd ty (a + 4) body pch)"
    using Cons.prems(1)[of e] len Cons.prems(3) by (intro unpack_extension_known) (simp_all add: e)
  have ih: "extension_loop pf (of_nat (a + 4 + length body)) ext_end (ext_upd ty (a + 4) body pch) =
      Some (ext_fold (a + 4 + length body) es (ext_upd ty (a + 4) body pch))"
    by (rule Cons.IH[of "pre @ ext_enc e"])
      (use Cons.prems in \<open>simp_all add: e ext_enc_pair ac_simps\<close>)
  have n: "(of_nat a :: u16) + 4 = of_nat (a + 4)" by simp
  show ?case
    by (subst extension_loop.simps) (simp only: lt if_True u t l n step Option.bind.bind_lunit prod.case ih ext_fold.simps e fst_conv snd_conv)
qed

text \<open>The fields of an extension are set by its own type only.\<close>

lemma ext_fold_other:
  "(\<And>e. e \<in> set es \<Longrightarrow> ext_known e) \<Longrightarrow>
    (KEY_SHARE \<notin> fst ` set es \<longrightarrow>
      ch_client_pub_key (ext_fold a es pch) = ch_client_pub_key pch \<and> ch_pub_key_length (ext_fold a es pch) = ch_pub_key_length pch \<and>
      ch_curve_type (ext_fold a es pch) = ch_curve_type pch) \<and>
    (SUPPORTED_GROUPS \<notin> fst ` set es \<longrightarrow>
      ch_curves_list (ext_fold a es pch) = ch_curves_list pch \<and> ch_curves_list_length (ext_fold a es pch) = ch_curves_list_length pch) \<and>
    (SIGNATURE_ALGORITHMS \<notin> fst ` set es \<longrightarrow>
      ch_signature_algorithm_list (ext_fold a es pch) = ch_signature_algorithm_list pch \<and>
      ch_signature_algorithm_list_length (ext_fold a es pch) = ch_signature_algorithm_list_length pch)"
proof (induction es arbitrary: a pch)
  case (Cons e es)
  have k: "fst e \<in> skipped_extensions \<or> fst e = SUPPORTED_GROUPS \<or> fst e = SIGNATURE_ALGORITHMS \<or>
      fst e = SUPPORTED_VERSIONS \<or> fst e = KEY_SHARE"
    using Cons.prems[of e] by (cases e) (auto simp: ext_known_def)
  show ?case using Cons.IH[of "a + 4 + length (snd e)" "ext_upd (fst e) (a + 4) (snd e) pch"] Cons.prems k
    by (auto simp: ext_upd_def)
qed simp

text \<open>Where the data of an extension are, and which fields point there.\<close>

definition ext_found :: "u16 \<Rightarrow> nat \<Rightarrow> bytes \<Rightarrow> client_hello \<Rightarrow> bool" where
  "ext_found ty a body pch \<longleftrightarrow>
     (ty = KEY_SHARE \<longrightarrow> ch_client_pub_key pch = Some (a + 6) \<and> ch_pub_key_length pch = of_nat (length body - 6) \<and>
        ch_curve_type pch = be_word (seg 2 2 body)) \<and>
     (ty = SUPPORTED_GROUPS \<longrightarrow> ch_curves_list pch = Some (a + 2) \<and> ch_curves_list_length pch = of_nat (length body - 2)) \<and>
     (ty = SIGNATURE_ALGORITHMS \<longrightarrow> ch_signature_algorithm_list pch = Some (a + 2) \<and>
        ch_signature_algorithm_list_length pch = of_nat (length body - 2))"

lemma ext_fold_member:
  assumes "\<And>e. e \<in> set es \<Longrightarrow> ext_known e" "distinct (map fst es)" "(ty, body) \<in> set es"
    and "pf = pre @ concat (map ext_enc es) @ post" "length pre = a"
  shows "\<exists>b. seg b (length body) pf = body \<and> b + length body \<le> length pf \<and> ext_found ty b body (ext_fold a es pch)"
  using assms
proof (induction es arbitrary: a pre pch)
  case (Cons e es)
  show ?case
  proof (cases "e = (ty, body)")
    case True
    have "pf = pre @ be_bytes 2 ty @ be_bytes 2 (of_nat (length body) :: u16) @ body @ concat (map ext_enc es) @ post"
      using Cons.prems(4) by (simp add: True ext_enc_pair)
    then have "seg (a + 4) (length body) pf = body" "a + 4 + length body \<le> length pf"
      using Cons.prems(5) by (simp_all add: seg_def)
    moreover have "ty \<notin> fst ` set es" using Cons.prems(2) True by simp
    then have "ext_found ty (a + 4) body (ext_fold a (e # es) pch)"
      using ext_fold_other[of es "a + 4 + length body" "ext_upd ty (a + 4) body pch"] Cons.prems(1) True
        not_skipped ext_types_distinct
      by (auto simp: ext_found_def ext_upd_def)
    ultimately show ?thesis by blast
  next
    case False
    have "\<exists>b. seg b (length body) pf = body \<and> b + length body \<le> length pf \<and>
        ext_found ty b body (ext_fold (a + 4 + length (snd e)) es (ext_upd (fst e) (a + 4) (snd e) pch))"
      by (rule Cons.IH[of "pre @ ext_enc e"]) (use Cons.prems False in \<open>auto simp: ext_enc_def\<close>)
    then show ?thesis by simp
  qed
qed simp


section \<open>Properties\<close>


definition demo_share :: bytes where
  "demo_share = be_bytes 2 (36 :: u16) @ be_bytes 2 (0x1d :: u16) @ be_bytes 2 (of_nat (length (replicate 32 (9 :: u8))) :: u16) @ replicate 32 9"


lemma extension_loop_returns:
  assumes "extension_loop pf offset ext_end pch = Some r"
  shows "(\<exists>ty \<in> skipped_extensions. rd16 pf (unat offset) = Some ty) \<longrightarrow> rd16 pf (unat (offset + 2)) = Some 0xFFFC \<longrightarrow>
    \<not> offset < ext_end"
  using assms
proof (rule extension_loop.raw_induct[rotated])
  fix f pf offset ext_end pch r
  assume ih: "\<And>pf offset ext_end pch r. f pf offset ext_end pch = Some r \<Longrightarrow>
      (\<exists>ty \<in> skipped_extensions. rd16 pf (unat offset) = Some ty) \<longrightarrow> rd16 pf (unat (offset + 2)) = Some 0xFFFC \<longrightarrow>
      \<not> offset < ext_end"
    and run: "(if offset < ext_end then do {
        extension_type \<leftarrow> rd16 pf (unat offset);
        extension_length \<leftarrow> rd16 pf (unat (offset + 2));
        (offset, pch) \<leftarrow> unpack_extension pf extension_type extension_length (offset + 4) pch;
        f pf offset ext_end pch
      } else Some pch) = Some r"
  show "(\<exists>ty \<in> skipped_extensions. rd16 pf (unat offset) = Some ty) \<longrightarrow> rd16 pf (unat (offset + 2)) = Some 0xFFFC \<longrightarrow>
      \<not> offset < ext_end"
  proof (intro impI notI)
    assume t: "\<exists>ty \<in> skipped_extensions. rd16 pf (unat offset) = Some ty" and l: "rd16 pf (unat (offset + 2)) = Some 0xFFFC"
      and lt: "offset < ext_end"
    have "unpack_extension pf ty 0xFFFC (offset + 4) pch = Some (offset, pch)" if "ty \<in> skipped_extensions" for ty
      using that by (simp add: unpack_extension_def)
    then have "f pf offset ext_end pch = Some r" using run t l lt by auto
    from ih[OF this] t l lt show False by blast
  qed
qed




definition demo_sni :: bytes where
  "demo_sni = [0x00, 0x00, 0x00, 0x06, 0x00, 0x04, 0x00, 0x00, 0x01, 0x61] @
     [0x00, 0x33, 0x00, 0x0E, 0x00, 0x0C, 0x00, 0x1d, 0x00, 0x08, 0x41, 0x42, 0x43, 0x44, 0x45, 0x46, 0x47, 0x48]"

lemma extension_loop_done: "\<not> offset < ext_end \<Longrightarrow> extension_loop pf offset ext_end pch = Some pch"
  by (subst extension_loop.simps) simp


end
