(* ===== verification/Tls_Record.thy ===== *)
theory Tls_Record
  imports Tls_Codec
begin

text \<open>
  Records of the SmartNIC, \<^verbatim>\<open>src/smartnic/offload_ssl/src/ssl.c\<close> and \<^verbatim>\<open>src/ssl_crypto.c\<close>: taking records
  from the pool, the transcript, protection with AES-GCM and with HMAC, and the messages of the server,
  which wait in the send buffer of the session until the host has taken over the connection.

  AES-GCM and HMAC are OpenSSL's.  A result \<open>-1\<close> of the code is a value of the model; \<open>None\<close> is a failed
  assertion, a call of \<^verbatim>\<open>exit\<close> or an access outside a buffer.
\<close>


section \<open>Taking a record\<close>

definition upd_rec :: "rec_ptr \<Rightarrow> (tls_record \<Rightarrow> tls_record) \<Rightarrow> nic \<Rightarrow> nic" where
  "upd_rec r f n = n\<lparr> n_records := (n_records n)(r := f (n_records n r)) \<rparr>"

definition new_record :: "tcp_ptr \<Rightarrow> u64 \<Rightarrow> bool \<Rightarrow> nic \<Rightarrow> (rec_ptr \<times> nic) option" where
  "new_record p seq_num received n =
    (case n_record_pool n of
       [] \<Rightarrow> None
     | r # rest \<Rightarrow>
         let next_id = ss_next_record_id (nic_sess n p);
             n = n\<lparr> n_record_pool := rest, n_free_record_cnt := n_free_record_cnt n - 1,
               n_using_record_cnt := n_using_record_cnt n + 1 \<rparr>;
             n = upd_rec r (\<lambda>x. (init_record seq_num received x)\<lparr> rc_id := next_id \<rparr>) n
         in Some (r, upd_sess p (\<lambda>s. s\<lparr> ss_num_current_records := ss_num_current_records s + 1,
              ss_next_record_id := ss_next_record_id s + 1 \<rparr>) n))"

definition new_recv_record :: "tcp_ptr \<Rightarrow> nic \<Rightarrow> (rec_ptr \<times> nic) option" where
  "new_recv_record p n = new_record p 0 True n"

definition new_send_record :: "tcp_ptr \<Rightarrow> nic \<Rightarrow> (rec_ptr \<times> nic) option" where
  "new_send_record p n = new_record p (ss_send_seq_num (nic_sess n p)) False n"

definition frag_msg_type :: "fragment \<Rightarrow> nat" where
  "frag_msg_type f = (case f of Frag_none \<Rightarrow> 0 | Frag_handshake t _ _ \<Rightarrow> unat t | Frag_alert l _ \<Rightarrow> unat l)"

text \<open>The fragment starts behind the header of the record.  The content type at the end of an encrypted message
  is not part of the transcript.  A transcript that would exceed the buffer fails the assertion.\<close>

definition store_handshake :: "tcp_ptr \<Rightarrow> rec_ptr \<Rightarrow> nic \<Rightarrow> (int \<times> nic) option" where
  "store_handshake p r n =
    (let s = nic_sess n p; x = n_records n r in
     if frag_msg_type (rc_fragment x) \<le> ss_handshake_state s then Some (- 1, n)
     else if rc_plain_type x = APPLICATION_DATA \<and> rc_plain_length x = 0 then None
     else do {
       let len = (if rc_plain_type x = APPLICATION_DATA then unat (rc_plain_length x) - 1 else unat (rc_plain_length x));
       m \<leftarrow> rd_seg (rec_bytes (rc_decrypted x) x) RECORD_HEADER_SIZE len;
       let total = ss_handshake_msgs_len s + len;
       if total < MAX_HANDSHAKE_LENGTH then
         Some (int total, upd_sess p (\<lambda>s. s\<lparr> ss_handshake_msgs := blit (ss_handshake_msgs s) (ss_handshake_msgs_len s) m,
           ss_handshake_msgs_len := total \<rparr>) n)
       else None
     })"


section \<open>Protection with AES-GCM\<close>

text \<open>The nonce: the sequence number in network byte order is added to the last eight bytes of the vector.\<close>

definition gcm_nonce :: "bytes \<Rightarrow> u64 \<Rightarrow> bytes" where
  "gcm_nonce iv seq_num = seg 0 4 iv @ map2 (XOR) (seg 4 8 iv) (be_bytes 8 seq_num)"

text \<open>The array for the nonce has \<open>fixed_iv_length + record_iv_length\<close> bytes, of which twelve are written.\<close>

definition nonce_fits :: "security_params \<Rightarrow> bool" where
  "nonce_fits sp \<longleftrightarrow> unat (sp_fixed_iv_length sp) + unat (sp_record_iv_length sp) = 12"

text \<open>The work of \<^verbatim>\<open>encrypt_record\<close> on the record: header with the new length, text and tag.  Both functions use 32 bytes
  of the key.  The first component is the result of \<^verbatim>\<open>execute_aes_crypto\<close>, which refuses an empty text.\<close>

definition seal :: "openssl \<Rightarrow> bytes \<Rightarrow> bytes \<Rightarrow> tls_record \<Rightarrow> (int \<times> tls_record) option" where
  "seal lib key nonce x = do {
     let clen = rc_plain_length x + of_nat GCM_TAG_SIZE;
     let x = x\<lparr> rc_cipher_length := clen \<rparr>;
     x \<leftarrow> rec_put (rc_data x) 0 (seg 0 RECORD_HEADER_SIZE (rec_bytes (rc_decrypted x) x)) x;
     x \<leftarrow> rec_put (rc_data x) 3 (be_bytes 2 clen) x;
     let aad = seg 0 RECORD_HEADER_SIZE (rec_bytes (rc_data x) x);
     text \<leftarrow> rd_seg (rec_bytes (rc_decrypted x) x) RECORD_HEADER_SIZE (unat (rc_plain_length x));
     let x = x\<lparr> rc_length := unat clen + RECORD_HEADER_SIZE \<rparr>;
     let (c, tag) = ossl_gcm_enc lib (seg 0 32 key) nonce aad text;
     x \<leftarrow> rec_put (rc_data x) RECORD_HEADER_SIZE (c @ tag) x;
     Some (if text = [] then - 1 else 0, x)
   }"

definition handle_after_aes_gcm_encrypt :: "tcp_ptr \<Rightarrow> rec_ptr \<Rightarrow> nic \<Rightarrow> int \<times> nic" where
  "handle_after_aes_gcm_encrypt p r n =
    (let x = n_records n r in
     if rc_state x \<noteq> TO_ENCRYPT then (- 1, n)
     else (0, upd_sess p (\<lambda>s. s\<lparr> ss_server_write_IV_seq_num := rc_seq_num x + 1 \<rparr>)
            (upd_rec r (\<lambda>x. x\<lparr> rc_state := WRITE_READY \<rparr>) n)))"

text \<open>A record out of order leaves the operation allocated.\<close>

definition encrypt_record :: "openssl \<Rightarrow> tcp_ptr \<Rightarrow> rec_ptr \<Rightarrow> nic \<Rightarrow> (int \<times> nic) option" where
  "encrypt_record lib p r n = do {
     (op, n) \<leftarrow> new_ssl_crypto_op n;
     let s = nic_sess n p; let x = n_records n r; let t = ss_tls13_ctx s;
     if ss_server_write_IV_seq_num s \<noteq> rc_seq_num x then Some (- 1, n)
     else if \<not> nonce_fits (ss_write_sp s) then None
     else do {
       (ret, x) \<leftarrow> seal lib (tx_server_handshake_key t) (gcm_nonce (tx_server_handshake_iv t) (ss_send_seq_num s)) x;
       let n = upd_rec r (\<lambda>_. x) n;
       if ret < 0 then do { n \<leftarrow> delete_op op n; Some (- 1, n) }
       else do {
         let n = upd_sess p (\<lambda>s. s\<lparr> ss_send_seq_num := ss_send_seq_num s + 1 \<rparr>) n;
         let (ret, n) = handle_after_aes_gcm_encrypt p r n;
         n \<leftarrow> delete_op op n;
         Some (ret, n)
       }
     }
   }"

text \<open>The work of \<^verbatim>\<open>decrypt_record\<close>: the length is a 16-bit number and may wrap around; the text is written before the tag is
  checked.  An empty text is an error.\<close>

definition unseal :: "openssl \<Rightarrow> bytes \<Rightarrow> bytes \<Rightarrow> tls_record \<Rightarrow> (int \<times> tls_record) option" where
  "unseal lib key nonce x = do {
     let x = x\<lparr> rc_cipher_length := rc_cipher_length x - of_nat GCM_TAG_SIZE \<rparr>;
     let data = rec_bytes (rc_data x) x; let in_len = unat (rc_cipher_length x);
     let aad = seg 0 RECORD_HEADER_SIZE data;
     x \<leftarrow> rec_put (rc_decrypted x) 0 aad x;
     text \<leftarrow> rd_seg data RECORD_HEADER_SIZE in_len;
     tag \<leftarrow> rd_seg data (RECORD_HEADER_SIZE + in_len) GCM_TAG_SIZE;
     let (ok, out) = ossl_gcm_dec lib (seg 0 32 key) nonce aad text tag;
     x \<leftarrow> rec_put (rc_decrypted x) RECORD_HEADER_SIZE out x;
     if \<not> ok \<or> text = [] then Some (- 1, x)
     else do { x \<leftarrow> rec_put (rc_decrypted x) 3 (be_bytes 2 (rc_cipher_length x)) x; Some (0, x) }
   }"

definition handle_after_aes_gcm_decrypt :: "tcp_ptr \<Rightarrow> rec_ptr \<Rightarrow> nic \<Rightarrow> nic option" where
  "handle_after_aes_gcm_decrypt p r n =
    (let x = n_records n r in
     if rc_state x \<noteq> TO_DECRYPT then None
     else Some (upd_sess p (\<lambda>s. s\<lparr> ss_client_write_IV_seq_num := rc_seq_num x + 1 \<rparr>)
            (upd_rec r (\<lambda>x. x\<lparr> rc_state := TO_VERIFY_MAC \<rparr>) n)))"

definition decrypt_record :: "openssl \<Rightarrow> tcp_ptr \<Rightarrow> rec_ptr \<Rightarrow> nic \<Rightarrow> (int \<times> nic) option" where
  "decrypt_record lib p r n =
    (if rc_state (n_records n r) \<noteq> TO_DECRYPT then None
     else do {
       let s = nic_sess n p; let t = ss_tls13_ctx s;
       let n = upd_rec r (\<lambda>x. x\<lparr> rc_seq_num := ss_recv_seq_num s, rc_is_encrypted := True \<rparr>) n;
       (op, n) \<leftarrow> new_ssl_crypto_op n;
       if \<not> nonce_fits (ss_read_sp s) then None
       else do {
         (ret, x) \<leftarrow> unseal lib (tx_client_handshake_key t) (gcm_nonce (tx_client_handshake_iv t) (ss_recv_seq_num s))
           (n_records n r);
         let n = upd_rec r (\<lambda>_. x) n;
         if ret < 0 then do { n \<leftarrow> delete_op op n; n \<leftarrow> delete_record p r n; Some (- 1, n) }
         else do { n \<leftarrow> handle_after_aes_gcm_decrypt p r n; n \<leftarrow> delete_op op n; Some (0, n) }
       }
     })"


section \<open>Protection with HMAC\<close>

definition AEAD :: u32 where "AEAD = 3"
definition NO_CIPHER :: u32 where "NO_CIPHER = 0"

text \<open>The code of a record is computed over its sequence number, which is stored in front of the header.  The length of the
  code has to be the size of the key.\<close>

definition record_mac :: "openssl \<Rightarrow> bytes \<Rightarrow> u8 \<Rightarrow> nat \<Rightarrow> tls_record \<Rightarrow> bytes option" where
  "record_mac lib secret key_size body_len x = do {
     body \<leftarrow> rd_seg (rc_mac_in x) 0 body_len;
     let mac = ossl_hmac1 lib (seg 0 (unat key_size) secret) (be_bytes 8 (rc_seq_num x) @ body);
     if length mac \<noteq> unat key_size then None else Some mac
   }"

definition attach_mac :: "openssl \<Rightarrow> tcp_ptr \<Rightarrow> rec_ptr \<Rightarrow> nic \<Rightarrow> (int \<times> nic) option" where
  "attach_mac lib p r n = do {
     (op, n) \<leftarrow> new_ssl_crypto_op n;
     let s = nic_sess n p; let x = n_records n r; let key_size = sp_mac_key_size (ss_write_sp s);
     if rc_is_received x then None
     else do {
       mac \<leftarrow> record_mac lib (ss_server_write_MAC_secret s) key_size (unat (rc_plain_length x) + RECORD_HEADER_SIZE) x;
       if rc_state x \<noteq> TO_APPEND_MAC \<and> rc_state x \<noteq> TO_VERIFY_MAC then None
       else do {
         x \<leftarrow> rec_put (rc_decrypted x) (unat (rc_plain_length x) + RECORD_HEADER_SIZE) mac x;
         let x = x\<lparr> rc_cipher_length := rc_plain_length x + ucast key_size, rc_length := rc_length x + unat key_size \<rparr>;
         x \<leftarrow> rec_put (rc_decrypted x) 3 (be_bytes 2 (rc_cipher_length x)) x;
         n \<leftarrow> delete_op op (upd_rec r (\<lambda>_. x) n);
         Some (0, n)
       }
     }
   }"

text \<open>Verification takes the padding length from the last byte, and no padding when the byte before differs.  The code reaches from
  the end of the content; a record that is too short for it would be read in front of its buffer.\<close>

definition verify_mac :: "openssl \<Rightarrow> tcp_ptr \<Rightarrow> rec_ptr \<Rightarrow> nic \<Rightarrow> (int \<times> nic) option" where
  "verify_mac lib p r n = do {
     (op, n) \<leftarrow> new_ssl_crypto_op n;
     let s = nic_sess n p; let x = n_records n r; let key_size = sp_mac_key_size (ss_read_sp s);
     let clen = rc_cipher_length x; let last = 4 + unat clen;
     if \<not> rc_is_received x then None
     else do {
       b \<leftarrow> rd8 (rec_bytes (rc_decrypted x) x) last;
       b' \<leftarrow> rd8 (rec_bytes (rc_decrypted x) x) (last - 1);
       let pad_len = (if b \<noteq> b' \<or> unat b > unat clen then 0 else unat b);
       if unat clen < unat key_size + pad_len + 1 then None
       else do {
         let x = x\<lparr> rc_cipher_length := clen - of_nat (unat key_size + pad_len + 1) \<rparr>;
         x \<leftarrow> rec_put (rc_decrypted x) 3 (be_bytes 2 (rc_cipher_length x)) x;
         mac \<leftarrow> record_mac lib (ss_client_write_MAC_secret s) key_size (unat (rc_cipher_length x) + RECORD_HEADER_SIZE) x;
         recv_mac \<leftarrow> rd_seg (rec_bytes (rc_decrypted x) x) (last - pad_len - unat key_size) (unat key_size);
         let n = upd_rec r (\<lambda>_. x) n;
         if rc_state x \<noteq> TO_APPEND_MAC \<and> rc_state x \<noteq> TO_VERIFY_MAC then None
         else if mac \<noteq> recv_mac then do {
           n \<leftarrow> delete_record p r n;
           n \<leftarrow> abort_session p n;
           n \<leftarrow> delete_op op n;
           Some (- 1, n)
         }
         else do { n \<leftarrow> delete_op op n; Some (0, n) }
       }
     }
   }"


section \<open>Sending\<close>

text \<open>The caller never asks for immediate transmission (\<^verbatim>\<open>PKT_TYPE_NONE\<close>).\<close>

definition send_record :: "openssl \<Rightarrow> tcp_ptr \<Rightarrow> rec_ptr \<Rightarrow> u8 \<Rightarrow> nat \<Rightarrow> nic \<Rightarrow> (int \<times> nic) option" where
  "send_record lib p r record_type len n = do {
     let s = nic_sess n p;
     let n = upd_rec r (\<lambda>x. x\<lparr> rc_plain_length := of_nat len, rc_plain_type := record_type,
       rc_plain_version := ss_version s, rc_length := len + RECORD_HEADER_SIZE \<rparr>) n;
     (ret, x) \<leftarrow> pack_record (unat (tx_cert_signature_len (ss_tls13_ctx s))) (n_records n r);
     let n = upd_rec r (\<lambda>_. x) n;
     if ret < 0 then Some (- 1, n)
     else do {
       (_, n) \<leftarrow> (if rc_plain_type x \<in> {HANDSHAKE, APPLICATION_DATA} then store_handshake p r n else Some (0, n));
       (ret, n) \<leftarrow> (if sp_bulk_cipher_algorithm (ss_write_sp s) \<noteq> NO_CIPHER then do {
          (ret, n) \<leftarrow> (if sp_cipher_type (ss_pending_sp s) \<noteq> AEAD then attach_mac lib p r n else Some (0, n));
          if ret < 0 then Some (ret, n)
          else encrypt_record lib p r (upd_rec r (\<lambda>x. x\<lparr> rc_state := TO_ENCRYPT \<rparr>) n)
        }
        else Some (0, upd_rec r (\<lambda>x. x\<lparr> rc_data := rc_decrypted x, rc_state := WRITE_READY \<rparr>) n));
       if ret < 0 then Some (- 1, n)
       else do {
         let x = n_records n r; let off = ss_send_buffer_offset (nic_sess n p);
         m \<leftarrow> rd_seg (rec_bytes (rc_data x) x) 0 (rc_length x);
         if off < 0 \<or> nat off + rc_length x > MAX_RECORD_SIZE then None
         else do {
           let n = upd_sess p (\<lambda>s. s\<lparr> ss_send_buffer := blit (ss_send_buffer s) (nat off) m,
             ss_send_buffer_offset := off + int (rc_length x) \<rparr>) n;
           n \<leftarrow> delete_record p r n;
           Some (int (rc_length x), n)
         }
       }
     }
   }"

text \<open>\<open>body\<close> is what the caller has written into the record.\<close>

definition send_handshake_as :: "u8 \<Rightarrow> openssl \<Rightarrow> tcp_ptr \<Rightarrow> rec_ptr \<Rightarrow> nat \<Rightarrow> hs_body \<Rightarrow> nat \<Rightarrow> nic \<Rightarrow> (int \<times> nic) option" where
  "send_handshake_as record_type lib p r msg_type body len n =
     send_record lib p r record_type (len + 4)
       (upd_rec r (\<lambda>x. x\<lparr> rc_fragment := Frag_handshake (of_nat msg_type) (set_u32 (of_nat len)) body \<rparr>) n)"

definition send_handshake :: "openssl \<Rightarrow> tcp_ptr \<Rightarrow> rec_ptr \<Rightarrow> nat \<Rightarrow> hs_body \<Rightarrow> nat \<Rightarrow> nic \<Rightarrow> (int \<times> nic) option" where
  "send_handshake = send_handshake_as HANDSHAKE"

definition send_handshake_tls13 :: "openssl \<Rightarrow> tcp_ptr \<Rightarrow> rec_ptr \<Rightarrow> nat \<Rightarrow> hs_body \<Rightarrow> nat \<Rightarrow> nic \<Rightarrow> (int \<times> nic) option" where
  "send_handshake_tls13 = send_handshake_as APPLICATION_DATA"

text \<open>The messages of the server end the program when they cannot be sent.\<close>

definition must_send :: "(int \<times> nic) option \<Rightarrow> nic option" where
  "must_send r = do { (ret, n) \<leftarrow> r; if ret < 0 then None else Some n }"

text \<open>The array for the public key is not initialised: a shorter operand leaves bytes of it undefined.\<close>

definition server_hello_of :: "ssl_session \<Rightarrow> bytes \<Rightarrow> server_hello" where
  "server_hello_of s pub_key = (let sp = ss_pending_sp s in
     \<lparr> sh_version = ss_version s, sh_random = sp_server_random sp, sh_session_id_length = 32,
       sh_session_id = ss_id s, sh_cipher_suite = sp_cipher sp, sh_compression_method = 0,
       sh_extensions_length = 46, sh_supported_versions = be_bytes 2 SUPPORTED_VERSIONS @ [0x00, 0x02, 0x03, 0x04],
       sh_key_share = be_bytes 2 KEY_SHARE @ [0x00, 0x24, 0x00, 0x1d, 0x00, 0x20] @ pub_key \<rparr>)"

definition send_server_hello :: "openssl \<Rightarrow> tcp_ptr \<Rightarrow> nic \<Rightarrow> nic option" where
  "send_server_hello lib p n = do {
     (r, n) \<leftarrow> new_send_record p n;
     let s = nic_sess n p;
     if po_actual_len (ss_ecdhe_pub_key s) < X25519_KEY_LEN then None
     else do {
       k \<leftarrow> operand_to_string (ss_ecdhe_pub_key s) (replicate X25519_KEY_LEN 0) X25519_KEY_LEN;
       k \<leftarrow> byte_swap_copy (replicate X25519_KEY_LEN 0) k X25519_KEY_LEN;
       must_send (send_handshake lib p r SERVER_HELLO (Body_server_hello (server_hello_of s k)) 118 n)
     }
   }"

definition send_encrypted_extensions :: "openssl \<Rightarrow> tcp_ptr \<Rightarrow> nic \<Rightarrow> nic option" where
  "send_encrypted_extensions lib p n = do {
     (r, n) \<leftarrow> new_send_record p n;
     must_send (send_handshake_tls13 lib p r ENCRYPTED_EXTENSIONS (Body_encrypted_extensions 0) 2 n)
   }"

definition send_certificate :: "openssl \<Rightarrow> bytes \<Rightarrow> tcp_ptr \<Rightarrow> nic \<Rightarrow> nic option" where
  "send_certificate lib cert p n = do {
     (r, n) \<leftarrow> new_send_record p n;
     let len = length cert;
     must_send (send_handshake_tls13 lib p r CERTIFICATE
       (Body_certificate 0 (set_u32 (of_nat (len + 5))) (set_u32 (of_nat len)) cert 0) (len + 9) n)
   }"

definition send_certificate_verify :: "openssl \<Rightarrow> tcp_ptr \<Rightarrow> nic \<Rightarrow> nic option" where
  "send_certificate_verify lib p n = do {
     (r, n) \<leftarrow> new_send_record p n;
     let s = nic_sess n p; let t = ss_tls13_ctx s;
     must_send (send_handshake_tls13 lib p r CERTIFICATE_VERIFY
       (Body_certificate_verify (sp_signature_algorithm (ss_write_sp s)) (ucast (tx_cert_signature_len t)) (tx_cert_signature t))
       (4 + unat (tx_cert_signature_len t)) n)
   }"

definition send_server_finished :: "openssl \<Rightarrow> tcp_ptr \<Rightarrow> nic \<Rightarrow> nic option" where
  "send_server_finished lib p n = do {
     (r, n) \<leftarrow> new_send_record p n;
     let s = nic_sess n p;
     vd \<leftarrow> finished_data lib (replicate 48 0) (seg 0 (ss_handshake_msgs_len s) (ss_handshake_msgs s)) (tx_server_secret (ss_tls13_ctx s));
     must_send (send_handshake_tls13 lib p r FINISHED (Body_finished vd) HASH_SIZE_SHA384 n)
   }"

text \<open>The records that are sent are kept for a retransmission, in an array of 1024 bytes.\<close>

definition send_pending_records :: "tcp_ptr \<Rightarrow> nic \<Rightarrow> nic option" where
  "send_pending_records p n = do {
     let s = nic_sess n p; let off = ss_send_buffer_offset s;
     n \<leftarrow> send_tcp_packet p (ss_send_buffer s) (word_of_int off) TCP_FLAG_ACK n;
     if off < 0 \<or> nat off > length (ss_server_records s) then None
     else Some (upd_sess p (\<lambda>s. s\<lparr> ss_server_records := blit (ss_server_records s) 0 (seg 0 (nat off) (ss_send_buffer s)),
       ss_server_records_len := off, ss_send_buffer := replicate MAX_RECORD_SIZE 0, ss_send_buffer_offset := 0 \<rparr>) n)
   }"

end
