(* ===== verification/Tls_Handshake.thy ===== *)
theory Tls_Handshake
  imports Tls_Record
begin

text \<open>
  The TLS 1.3 handshake of the SmartNIC, \<^verbatim>\<open>src/smartnic/offload_ssl/src/ssl.c\<close>: records are cut out of the
  payload of segments, decoded and handled; the three operations of the public key accelerator are requested
  through the ring of the worker, handed over and collected by core 0, and taken up by the worker again; the
  messages of the server are written when their input is there.

  A worker is single-threaded; the steps of core 0 on a worker's operations are functions of the worker's state too,
  and may come between any two steps of the worker.
\<close>


section \<open>Rules for the hardware\<close>

text \<open>With \<^verbatim>\<open>REMOVE_HWS\<close> no rule is installed; the flags of the connection follow the same protocol.\<close>

definition apply_hws :: "tcp_ptr \<Rightarrow> nic \<Rightarrow> nic" where
  "apply_hws p n =
    (let c = n_conns n p in
     if ss_state (tc_ssl_session c) = STATE_ACTIVE \<and> tc_recv_mig_fin c \<and> \<not> tc_hws_inserted c
     then upd_tcp p (\<lambda>c. c\<lparr> tc_hws_inserted := True, tc_hws_applied := True \<rparr>) n
     else n)"

definition remove_hws :: "tcp_ptr \<Rightarrow> nic \<Rightarrow> nic option" where
  "remove_hws p n =
    (let c = n_conns n p in
     if tc_hws_applied c \<and> tc_hws_ready_to_del c
     then remove_session p (upd_tcp p (\<lambda>c. c\<lparr> tc_hws_deleted := True \<rparr>) n)
     else Some n)"


section \<open>Requests to the accelerator\<close>

definition submit_pka_request :: "op_ptr \<Rightarrow> nic \<Rightarrow> (int \<times> nic) option" where
  "submit_pka_request op n = do {
     let (ret, ring) = sj_ring_enqueue (n_submit_ring n) (Some op);
     if ret < 0 then do { n \<leftarrow> delete_op op n; Some (- 1, n) }
     else Some (0, n\<lparr> n_submit_ring := ring \<rparr>)
   }"

text \<open>The end of the three functions that follow.\<close>

definition request_pka :: "tcp_ptr \<Rightarrow> op_ptr \<Rightarrow> nic \<Rightarrow> (int \<times> nic) option" where
  "request_pka p op n = do {
     (ret, n) \<leftarrow> submit_pka_request op n;
     if ret < 0 then Some (- 1, n)
     else Some (0, upd_sess p (\<lambda>s. s\<lparr> ss_waiting_crypto := True, ss_pending_pka_op := Some op \<rparr>)
            (upd_op op (\<lambda>x. x\<lparr> op_pka_flag := True \<rparr>) n))
   }"

definition generate_ecdhe_key_pair :: "tcp_ptr \<Rightarrow> rec_ptr \<Rightarrow> nic \<Rightarrow> (int \<times> nic) option" where
  "generate_ecdhe_key_pair p r n = do {
     (op, n) \<leftarrow> new_ssl_crypto_op n;
     request_pka p op (upd_op op (\<lambda>x. x\<lparr> op_sess := Some p, op_data := Some r,
       op_opcode := TLS_OPCODE_ECDHE_KEY_GENERATION \<rparr>) n)
   }"

definition rec_fragment :: "tls_record \<Rightarrow> bytes" where
  "rec_fragment x = drop RECORD_HEADER_SIZE (rec_bytes (rc_decrypted x) x)"

definition record_hello :: "tls_record \<Rightarrow> client_hello option" where
  "record_hello x = (case rc_fragment x of Frag_handshake _ _ (Body_client_hello pch) \<Rightarrow> Some pch | _ \<Rightarrow> None)"

text \<open>The key of the client is read through the pointer that \<^verbatim>\<open>unpack_extensions\<close> has set, if it has set one.\<close>

definition client_key :: "tls_record \<Rightarrow> client_hello \<Rightarrow> bytes option" where
  "client_key x pch = do { at \<leftarrow> ch_client_pub_key pch; rd_seg (rec_fragment x) at X25519_KEY_LEN }"

definition calculate_shared_secret :: "tcp_ptr \<Rightarrow> rec_ptr \<Rightarrow> nic \<Rightarrow> (int \<times> nic) option" where
  "calculate_shared_secret p r n = do {
     pch \<leftarrow> record_hello (n_records n r);
     (op, n) \<leftarrow> new_ssl_crypto_op n;
     key \<leftarrow> client_key (n_records n r) pch;
     operand \<leftarrow> string_to_operand key (ss_shared_secret_operand (nic_sess n p)) X25519_KEY_LEN True;
     let n = upd_sess p (\<lambda>s. s\<lparr> ss_shared_secret_operand := operand \<rparr>) n;
     request_pka p op (upd_op op (\<lambda>x. x\<lparr> op_sess := Some p, op_data := None,
       op_opcode := TLS_OPCODE_ECDHE_SHARED_SECRET_CALC \<rparr>) n)
   }"

text \<open>The input of the signature, RFC 8446, section 4.4.3.  The nonce of the signature is the same hash.\<close>

definition certificate_hash :: "openssl \<Rightarrow> ssl_session \<Rightarrow> bytes" where
  "certificate_hash lib s = replicate 64 0x20 @ str ''TLS 1.3, server CertificateVerify'' @ [0x00] @
     ossl_sha384 lib (seg 0 (ss_handshake_msgs_len s) (ss_handshake_msgs s))"

definition signature_certificate :: "openssl \<Rightarrow> tcp_ptr \<Rightarrow> nic \<Rightarrow> (int \<times> nic) option" where
  "signature_certificate lib p n = do {
     let transcript_hash = ossl_sha256 lib (certificate_hash lib (nic_sess n p));
     (op, n) \<leftarrow> new_ssl_crypto_op n;
     h \<leftarrow> string_to_operand transcript_hash (ss_ecdsa_transcript_hash (nic_sess n p)) 32 False;
     k \<leftarrow> string_to_operand transcript_hash (ss_ecdsa_k (nic_sess n p)) 32 False;
     let n = upd_sess p (\<lambda>s. s\<lparr> ss_ecdsa_transcript_hash := h\<lparr> po_big_endian := False \<rparr>, ss_ecdsa_k := k \<rparr>) n;
     request_pka p op (upd_op op (\<lambda>x. x\<lparr> op_sess := Some p, op_data := None,
       op_opcode := TLS_OPCODE_ECDSA_SIGNATURE \<rparr>) n)
   }"


section \<open>Decoding of records\<close>

definition no_return_types :: "nat set" where
  "no_return_types = {HELLO_REQUEST, SERVER_HELLO, CERTIFICATE, 12, 13, 14, CERTIFICATE_VERIFY, 16, FINISHED}"

text \<open>A message of one of these types, a ClientHello of another record version and one without extensions reach the
  end of the function without a return statement, although its result is used: that is \<open>None\<close>.\<close>

definition unpack_handshake :: "tcp_ptr \<Rightarrow> rec_ptr \<Rightarrow> nic \<Rightarrow> (int \<times> nic) option" where
  "unpack_handshake p r n = do {
     let x = n_records n r; let pf = rec_fragment x;
     msg_type \<leftarrow> rd8 pf 0;
     hl \<leftarrow> rd_seg pf 1 3;
     if unat msg_type = CLIENT_HELLO then
       if rc_plain_version x = (0x03, 0x01) then do {
         (more, pch) \<leftarrow> unpack_client_hello pf (rc_plain_length x) client_hello_zero;
         let n = upd_rec r (\<lambda>x. x\<lparr> rc_fragment := Frag_handshake msg_type hl (Body_client_hello pch) \<rparr>) n;
         if more then generate_ecdhe_key_pair p r (upd_sess p (\<lambda>s. s\<lparr> ss_id := ch_session_id pch \<rparr>) n)
         else None
       }
       else None
     else if unat msg_type \<in> no_return_types then None
     else Some (- 1, upd_rec r (\<lambda>x. x\<lparr> rc_fragment := Frag_handshake msg_type hl Body_none \<rparr>) n)
   }"

definition unpack_change_cipher_spec :: int where
  "unpack_change_cipher_spec = 0"

definition unpack_alert :: "rec_ptr \<Rightarrow> nic \<Rightarrow> (int \<times> nic) option" where
  "unpack_alert r n = do {
     let x = n_records n r;
     level \<leftarrow> rd8 (rec_fragment x) 0;
     description \<leftarrow> rd8 (rec_fragment x) 1;
     Some (0, upd_rec r (\<lambda>x. x\<lparr> rc_fragment := Frag_alert level description \<rparr>) n)
   }"

text \<open>The content type is the last byte of the fragment; in an empty one it is the byte before.\<close>

definition inner_type :: "tls_record \<Rightarrow> u8 option" where
  "inner_type x = rd8 (rec_bytes (rc_decrypted x) x) (4 + unat (rc_plain_length x))"

definition unpack_application_data :: "rec_ptr \<Rightarrow> nic \<Rightarrow> (int \<times> nic) option" where
  "unpack_application_data r n = do {
     let x = n_records n r; let pf = rec_fragment x;
     msg_type \<leftarrow> inner_type x;
     hl \<leftarrow> rd_seg pf 1 3;
     if msg_type = HANDSHAKE then do {
       vd \<leftarrow> rd_seg pf HANDSHAKE_HEADER_SIZE 48;
       Some (0, upd_rec r (\<lambda>x. x\<lparr> rc_fragment := Frag_handshake 0 hl (Body_finished vd) \<rparr>) n)
     }
     else Some (- 1, upd_rec r (\<lambda>x. x\<lparr> rc_fragment := Frag_handshake 0 hl Body_none \<rparr>) n)
   }"

definition unpack_record :: "tcp_ptr \<Rightarrow> rec_ptr \<Rightarrow> nic \<Rightarrow> (int \<times> nic) option" where
  "unpack_record p r n =
    (let x = n_records n r in
     if rc_state x \<noteq> TO_UNPACK_CONTENT then None
     else if fst (rc_plain_version x) \<noteq> 0x03 then Some (- 1, n)
     else do {
       let n = (if rc_decrypted x \<noteq> rc_data x then upd_rec r (\<lambda>x. x\<lparr> rc_plain_length := rc_cipher_length x \<rparr>) n else n);
       (ret, n) \<leftarrow>
         (if rc_plain_type x = HANDSHAKE then unpack_handshake p r n
          else if rc_plain_type x = CHANGE_CIPHER_SPEC then Some (unpack_change_cipher_spec, n)
          else if rc_plain_type x = ALERT then unpack_alert r n
          else if rc_plain_type x = APPLICATION_DATA then unpack_application_data r n
          else None);
       Some (ret, upd_rec r (\<lambda>x. x\<lparr> rc_state := READ_READY \<rparr>) n)
     })"


section \<open>Handling of records\<close>

definition AES :: u32 where "AES = 6"
definition PRF_SHA384 :: u32 where "PRF_SHA384 = 2"

text \<open>The parameters for a ClientHello; \<open>now\<close> is the time.  Without a common cipher suite the function prints a message, and the handshake
  goes on with parameters that say \<^verbatim>\<open>NO_CIPHER\<close>.\<close>

definition hello_params :: "tls_record \<Rightarrow> client_hello \<Rightarrow> u64 \<Rightarrow> u32 \<Rightarrow> security_params \<Rightarrow> security_params option" where
  "hello_params x pch seed now sp = do {
     let pf = rec_fragment x;
     cipher \<leftarrow> select_cipher (ch_cipher_suite_length pch) (ch_cipher_suites pch) pf;
     curve \<leftarrow> select_supported_group (ch_curves_list_length pch) (ch_curves_list pch) pf;
     sig \<leftarrow> select_signature_algorithm (ch_signature_algorithm_list_length pch) (ch_signature_algorithm_list pch) pf;
     key \<leftarrow> client_key x pch;
     let sp = sp\<lparr> sp_cipher := cipher, sp_curve := curve, sp_signature_algorithm := sig, sp_client_pub_key := key \<rparr>;
     Some (if cipher = TLS_AES_256_GCM_SHA384
       then sp\<lparr> sp_prf_algorithm := PRF_SHA384, sp_bulk_cipher_algorithm := AES, sp_cipher_type := AEAD, sp_enc_key_size := 32,
              sp_fixed_iv_length := 12, sp_client_random := ch_random pch,
              sp_server_random := le_bytes 4 now @ init_random seed 28 \<rparr>
       else sp)
   }"

definition handle_client_hello :: "openssl \<Rightarrow> tcp_ptr \<Rightarrow> rec_ptr \<Rightarrow> nic \<Rightarrow> nic option" where
  "handle_client_hello lib p r n = do {
     let n = upd_sess p (\<lambda>s. s\<lparr> ss_state := STATE_HANDSHAKE, ss_handshake_state := CLIENT_HELLO \<rparr>) n;
     let x = n_records n r; let s = nic_sess n p;
     pch \<leftarrow> record_hello x;
     sp \<leftarrow> hello_params x pch (ss_rand_seed s) (n_epoch n (n_epochs n)) (ss_pending_sp s);
     let n = (if sp_cipher sp = TLS_AES_256_GCM_SHA384 then n\<lparr> n_epochs := n_epochs n + 1 \<rparr> else n);
     let n = upd_sess p (\<lambda>s. s\<lparr> ss_pending_sp := sp, ss_version := ch_version pch \<rparr>) n;
     n \<leftarrow> send_server_hello lib p n;
     let n = upd_sess p (\<lambda>s. s\<lparr> ss_handshake_state := SERVER_HELLO \<rparr>) n;
     (_, n) \<leftarrow> calculate_shared_secret p r n;
     Some (upd_sess p (\<lambda>s. s\<lparr> ss_write_sp := ss_pending_sp s, ss_send_seq_num := 0 \<rparr>) n)
   }"

text \<open>For a message of another type the record is deleted and its cleared session pointer followed.\<close>

definition handle_handshake :: "openssl \<Rightarrow> tcp_ptr \<Rightarrow> rec_ptr \<Rightarrow> nic \<Rightarrow> (int \<times> nic) option" where
  "handle_handshake lib p r n = do {
     (_, n) \<leftarrow> store_handshake p r n;
     if frag_msg_type (rc_fragment (n_records n r)) = CLIENT_HELLO then do {
       n \<leftarrow> (if ss_handshake_state (nic_sess n p) \<ge> CLIENT_HELLO then Some n else handle_client_hello lib p r n);
       n \<leftarrow> delete_record p r n;
       Some (0, n)
     }
     else None
   }"

definition handle_change_cipher_spec :: "tcp_ptr \<Rightarrow> rec_ptr \<Rightarrow> nic \<Rightarrow> (int \<times> nic) option" where
  "handle_change_cipher_spec p r n = do {
     let st = ss_handshake_state (nic_sess n p);
     let n = (if st \<noteq> FINISHED \<and> st \<ge> CLIENT_CIPHER_SPEC then n
       else upd_sess p (\<lambda>s. s\<lparr> ss_handshake_state := CLIENT_CIPHER_SPEC, ss_recv_seq_num := 0,
              ss_client_write_IV_seq_num := 0, ss_read_sp := ss_pending_sp s \<rparr>) n);
     n \<leftarrow> delete_record p r n;
     Some (0, n)
   }"

definition handle_alert :: "tcp_ptr \<Rightarrow> rec_ptr \<Rightarrow> nic \<Rightarrow> (int \<times> nic) option" where
  "handle_alert p r n =
    (case rc_fragment (n_records n r) of
       Frag_alert level description \<Rightarrow> do {
         n \<leftarrow> delete_record p r n;
         n \<leftarrow> (if level = 2 \<or> description = 0 then abort_session p n else Some n);
         Some (0, n)
       }
     | _ \<Rightarrow> None)"

text \<open>The state of the session changes before the verify data are compared.\<close>

definition handle_client_finished :: "bytes \<Rightarrow> tcp_ptr \<Rightarrow> rec_ptr \<Rightarrow> nic \<Rightarrow> (int \<times> nic) option" where
  "handle_client_finished vd p r n = do {
     let n = upd_tcp p (\<lambda>c. c\<lparr> tc_onload := True \<rparr>)
       (upd_sess p (\<lambda>s. s\<lparr> ss_handshake_state := FINISHED, ss_state := STATE_ACTIVE \<rparr>) n);
     if tx_calculated_vd (ss_tls13_ctx (nic_sess n p)) \<noteq> vd then do {
       n \<leftarrow> remove_hws p n;
       n \<leftarrow> abort_session p n;
       Some (- 1, n)
     }
     else do {
       n \<leftarrow> send_tcp_packet p [] 0 TCP_FLAG_ACK n;
       n \<leftarrow> delete_record p r n;
       Some (0, n)
     }
   }"

definition handle_application_data :: "tcp_ptr \<Rightarrow> rec_ptr \<Rightarrow> nic \<Rightarrow> (int \<times> nic) option" where
  "handle_application_data p r n = do {
     let x = n_records n r;
     msg_type \<leftarrow> inner_type x;
     if msg_type = HANDSHAKE \<and> ss_handshake_state (nic_sess n p) < FINISHED then
       (case rc_fragment x of Frag_handshake _ _ (Body_finished vd) \<Rightarrow> handle_client_finished vd p r n | _ \<Rightarrow> None)
     else do {
       n \<leftarrow> delete_record p r n;
       Some (if msg_type = HANDSHAKE \<or> msg_type = APPLICATION_DATA then 0 else - 1, n)
     }
   }"

definition handle_read_record :: "openssl \<Rightarrow> tcp_ptr \<Rightarrow> rec_ptr \<Rightarrow> nic \<Rightarrow> (int \<times> nic) option" where
  "handle_read_record lib p r n =
    (let x = n_records n r; ty = rc_plain_type x in
     if rc_state x \<noteq> READ_READY then None
     else if ty = HANDSHAKE then handle_handshake lib p r n
     else if ty = CHANGE_CIPHER_SPEC then handle_change_cipher_spec p r n
     else if ty = ALERT then handle_alert p r n
     else if ty = APPLICATION_DATA then handle_application_data p r n
     else Some (- 1, n))"

text \<open>A handshake record in a later state is taken for a retransmitted ClientHello.\<close>

definition resend_for_hello :: "nic_cfg \<Rightarrow> tcp_ptr \<Rightarrow> nic \<Rightarrow> nic option" where
  "resend_for_hello cfg p n = do {
     let c = n_conns n p; let s = tc_ssl_session c; let st = ss_handshake_state s; let signed = tx_cert_signatured (ss_tls13_ctx s);
     n \<leftarrow> (if st = CERTIFICATE_VERIFY \<and> signed then do {
        (_, n) \<leftarrow> send_key_meta (nc_threads cfg) (unat (tc_portid c) + 1) p n;
        Some (upd_sess p (\<lambda>s. s\<lparr> ss_num_of_retransmitted_meta_pkt := ss_num_of_retransmitted_meta_pkt s + 1 \<rparr>) n)
      } else Some n);
     n \<leftarrow> (if st = FINISHED \<and> signed
      then send_tcp_packet p (ss_server_records s) (word_of_int (ss_server_records_len s)) TCP_FLAG_ACK n
      else Some n);
     Some (upd_sess p (\<lambda>s. s\<lparr> ss_num_of_retransmitted_ch := ss_num_of_retransmitted_ch s + 1 \<rparr>) n)
   }"

text \<open>When the decryption fails the record is deleted twice.\<close>

definition open_record :: "openssl \<Rightarrow> tcp_ptr \<Rightarrow> rec_ptr \<Rightarrow> nic \<Rightarrow> (int \<times> nic) option" where
  "open_record lib p r n =
    (let s = nic_sess n p in
     if sp_bulk_cipher_algorithm (ss_read_sp s) \<noteq> NO_CIPHER then do {
       (ret, n) \<leftarrow> (if ss_state s \<noteq> STATE_ACTIVE then decrypt_record lib p r n else Some (0, n));
       if ret < 0 then do { n \<leftarrow> delete_record p r n; Some (- 1, n) }
       else if sp_cipher_type (ss_read_sp s) \<noteq> AEAD then do {
         (ret, n) \<leftarrow> verify_mac lib p r n;
         if ret < 0 then do { n \<leftarrow> delete_record p r n; Some (- 1, n) } else Some (0, n)
       }
       else Some (0, n)
     }
     else Some (0, upd_rec r (\<lambda>x. x\<lparr> rc_decrypted := rc_data x \<rparr>) n))"

definition process_read_record :: "nic_cfg \<Rightarrow> tcp_ptr \<Rightarrow> rec_ptr \<Rightarrow> nic \<Rightarrow> (int \<times> nic) option" where
  "process_read_record cfg p r n =
    (let s = nic_sess n p; x = n_records n r in
     if ss_handshake_state s \<ge> CLIENT_HELLO \<and> rec_bytes (rc_data x) x ! 0 = HANDSHAKE then do {
       n \<leftarrow> resend_for_hello cfg p n;
       n \<leftarrow> delete_record p r n;
       Some (0, n)
     }
     else do {
       x \<leftarrow> unpack_header x;
       let n = upd_rec r (\<lambda>_. x) n;
       (ret, n) \<leftarrow> open_record (nc_lib cfg) p r n;
       if ret < 0 then Some (- 1, n)
       else do {
         (ret, n) \<leftarrow> unpack_record p r (upd_rec r (\<lambda>x. x\<lparr> rc_state := TO_UNPACK_CONTENT \<rparr>) n);
         let x = n_records n r;
         if ret < 0 then Some (- 1, n)
         else if rc_plain_type x = HANDSHAKE \<and> frag_msg_type (rc_fragment x) = CLIENT_HELLO then Some (0, n)
         else handle_read_record (nc_lib cfg) p r n
       }
     })"


section \<open>From segments to records\<close>

definition push_read_record :: "tcp_ptr \<Rightarrow> rec_ptr \<Rightarrow> nic \<Rightarrow> nic option" where
  "push_read_record p r n =
    (if r \<in> set (ss_recv_q (nic_sess n p)) then None
     else Some (upd_sess p (\<lambda>s. s\<lparr> ss_recv_q := ss_recv_q s @ [r], ss_recv_q_cnt := ss_recv_q_cnt s + 1 \<rparr>) n))"

text \<open>The record that is being read, or a new one when at least a header is there.  Fewer bytes end the loop and are dropped.\<close>

definition current_record :: "tcp_ptr \<Rightarrow> bytes \<Rightarrow> nic \<Rightarrow> (rec_ptr option \<times> nic) option" where
  "current_record p pkt n =
    (case ss_current_read_record (nic_sess n p) of
       Some r \<Rightarrow> Some (Some r, n)
     | None \<Rightarrow>
         if length pkt < RECORD_HEADER_SIZE then Some (None, n)
         else do {
           (r, n) \<leftarrow> new_recv_record p n;
           let record_len = unat (ntohs (ld16 pkt 3));
           if record_len < MAX_RECORD_SIZE then
             Some (Some r, upd_rec r (\<lambda>x. x\<lparr> rc_length := record_len + RECORD_HEADER_SIZE \<rparr>)
               (upd_sess p (\<lambda>s. s\<lparr> ss_current_read_record := Some r \<rparr>) n))
           else None
         })"

definition record_complete :: "nic_cfg \<Rightarrow> tcp_ptr \<Rightarrow> rec_ptr \<Rightarrow> nic \<Rightarrow> nic option" where
  "record_complete cfg p r n = do {
     n \<leftarrow> (if ss_waiting_crypto (nic_sess n p) then push_read_record p r n
           else do { (_, n) \<leftarrow> process_read_record cfg p r n; Some n });
     Some (upd_sess p (\<lambda>s. s\<lparr> ss_current_read_record := None \<rparr>) n)
   }"

text \<open>The loop of \<^verbatim>\<open>process_new_record\<close> on the bytes that are left.  A turn that copies nothing would repeat forever.
  The result is \<open>True\<close> when the function returns a length and \<open>False\<close> when it returns \<open>-1\<close> for an incomplete record.\<close>

function process_new_record :: "nic_cfg \<Rightarrow> tcp_ptr \<Rightarrow> bytes \<Rightarrow> nic \<Rightarrow> (bool \<times> nic) option" where
  "process_new_record cfg p pkt n =
    (if pkt = [] then Some (ss_current_read_record (nic_sess n p) = None, n)
     else case current_record p pkt n of
       None \<Rightarrow> None
     | Some (None, n) \<Rightarrow> Some (True, n)
     | Some (Some r, n) \<Rightarrow>
         let x = n_records n r; copy_len = min (rc_length x - rc_current_len x) (length pkt) in
         if copy_len = 0 then None
         else case rec_put (rc_data x) (rc_current_len x) (take copy_len pkt) x of
           None \<Rightarrow> None
         | Some x \<Rightarrow>
             let x = x\<lparr> rc_current_len := rc_current_len x + copy_len \<rparr>; n = upd_rec r (\<lambda>_. x) n in
             if rc_current_len x = rc_length x then
               (case record_complete cfg p r n of
                  None \<Rightarrow> None
                | Some n \<Rightarrow> process_new_record cfg p (drop copy_len pkt) n)
             else process_new_record cfg p (drop copy_len pkt) n)"
  by pat_completeness auto
termination
  by (relation "measure (\<lambda>(_, _, pkt, _). length pkt)") auto

declare process_new_record.simps [simp del]

definition process_ssl_packet :: "nic_cfg \<Rightarrow> tcp_ptr \<Rightarrow> bytes \<Rightarrow> nic \<Rightarrow> (bool \<times> nic) option" where
  "process_ssl_packet cfg p payload n = (if payload = [] then Some (False, n) else process_new_record cfg p payload n)"

partial_function (option) process_session_read :: "nic_cfg \<Rightarrow> tcp_ptr \<Rightarrow> nic \<Rightarrow> nic option" where
  "process_session_read cfg p n =
    (let s = nic_sess n p in
     if ss_recv_q_cnt s < 0 then None
     else if ss_recv_q_cnt s > 0 \<and> \<not> ss_waiting_crypto s then
       case ss_recv_q s of
         [] \<Rightarrow> None
       | target # rest \<Rightarrow> do {
           (_, n) \<leftarrow> process_read_record cfg p target
             (upd_sess p (\<lambda>s. s\<lparr> ss_recv_q := rest, ss_recv_q_cnt := ss_recv_q_cnt s - 1 \<rparr>) n);
           process_session_read cfg p n
         }
     else Some n)"


section \<open>Results of the accelerator\<close>

definition handle_after_ecdhe_key_gen :: "tcp_ptr \<Rightarrow> nic \<Rightarrow> (int \<times> nic) option" where
  "handle_after_ecdhe_key_gen p n = do {
     let s = nic_sess n p;
     k \<leftarrow> copy_operand (ss_pka_results s ! 0) (ss_ecdhe_pub_key s);
     Some (0, upd_sess p (\<lambda>s. s\<lparr> ss_ecdhe_pub_key := k \<rparr>) n)
   }"

definition handle_after_ecdhe_shared_secret_calc :: "openssl \<Rightarrow> tcp_ptr \<Rightarrow> nic \<Rightarrow> (int \<times> nic) option" where
  "handle_after_ecdhe_shared_secret_calc lib p n = do {
     let n = upd_sess p (\<lambda>s. s\<lparr> ss_pending_pka_op := None \<rparr>) n;
     let s = nic_sess n p; let res = ss_pka_results s ! 0;
     if po_actual_len res < X25519_KEY_LEN then None
     else do {
       be \<leftarrow> operand_to_string res (replicate X25519_KEY_LEN 0) X25519_KEY_LEN;
       shared_secret \<leftarrow> byte_swap_copy (replicate X25519_KEY_LEN 0) be X25519_KEY_LEN;
       (ret, t) \<leftarrow> (if sp_cipher (ss_pending_sp s) = TLS_AES_256_GCM_SHA384
          then handshake_keys lib (seg 0 (ss_handshake_msgs_len s) (ss_handshake_msgs s)) shared_secret (ss_tls13_ctx s)
          else Some (0, ss_tls13_ctx s));
       let n = upd_sess p (\<lambda>s. s\<lparr> ss_tls13_ctx := t \<rparr>) n;
       if ret < 0 then Some (- 1, n)
       else Some (0, upd_sess p (\<lambda>s. s\<lparr> ss_tls13_ctx := (ss_tls13_ctx s)\<lparr> tx_handshake_key_calculated := True \<rparr> \<rparr>) n)
     }
   }"

text \<open>\<open>operand_string\<close> are the bytes that \<^verbatim>\<open>operand_to_string\<close> writes into the array behind the leading zero byte, which
  has room for 127.  Leading zeros are removed, and the zero byte is used when the first byte has its high bit set.\<close>

definition remove_leading_zeros :: "bytes \<Rightarrow> bytes" where
  "remove_leading_zeros b = dropWhile (\<lambda>x. x = 0) b"

definition operand_string :: "pka_operand \<Rightarrow> bytes option" where
  "operand_string op = do {
     let len = po_actual_len op;
     if len = 0 then None
     else map_option (take len) (operand_to_string op (replicate 127 0) len)
   }"

definition der_integer :: "bytes \<Rightarrow> bytes" where
  "der_integer b =
    (let b = remove_leading_zeros b;
         b = (if b \<noteq> [] \<and> b ! 0 AND 0x80 \<noteq> 0 then 0x00 # b else b)
     in [0x02, of_nat (length b)] @ b)"

definition der_signature :: "bytes \<Rightarrow> bytes \<Rightarrow> bytes" where
  "der_signature r s =
    (let c = der_integer r @ der_integer s in [0x30, of_nat (length c)] @ c)"

definition handle_after_ecdsa_signature :: "tcp_ptr \<Rightarrow> nic \<Rightarrow> (int \<times> nic) option" where
  "handle_after_ecdsa_signature p n = do {
     let n = upd_sess p (\<lambda>s. s\<lparr> ss_pending_pka_op_1 := None \<rparr>) n;
     let s = nic_sess n p;
     r_buf \<leftarrow> operand_string (ss_pka_results s ! 0);
     s_buf \<leftarrow> operand_string (ss_pka_results s ! 1);
     let sig = der_signature r_buf s_buf;
     if length sig > length (tx_cert_signature (ss_tls13_ctx s)) then None
     else Some (0, upd_sess p (\<lambda>s. s\<lparr> ss_tls13_ctx := (ss_tls13_ctx s)\<lparr>
       tx_cert_signature := blit (tx_cert_signature (ss_tls13_ctx s)) 0 sig,
       tx_cert_signature_len := of_nat (length sig), tx_cert_signatured := True \<rparr> \<rparr>) n)
   }"

text \<open>What the worker does with a completed operation depends on the state of the handshake alone.\<close>

definition crypto_done :: "openssl \<Rightarrow> tcp_ptr \<Rightarrow> rec_ptr option \<Rightarrow> nic \<Rightarrow> (int \<times> nic) option" where
  "crypto_done lib p data n =
    (let st = ss_handshake_state (nic_sess n p) in
     if st = HELLO_REQUEST then do {
       (ret, n) \<leftarrow> handle_after_ecdhe_key_gen p n;
       (case data of None \<Rightarrow> None | Some r \<Rightarrow> handle_read_record lib p r n)
     }
     else if st = SERVER_HELLO then handle_after_ecdhe_shared_secret_calc lib p n
     else if st = CERTIFICATE then handle_after_ecdsa_signature p n
     else None)"

definition get_processed_crypto :: "openssl \<Rightarrow> tcp_ptr \<Rightarrow> nic \<Rightarrow> nic option" where
  "get_processed_crypto lib p n =
    (if \<not> ss_completed_crypto (nic_sess n p) then Some n
     else do {
       op \<leftarrow> ss_pka_op (nic_sess n p);
       (ret, n) \<leftarrow> crypto_done lib p (op_data (n_ops n op)) (upd_sess p (\<lambda>s. s\<lparr> ss_pending_pka_op := None \<rparr>) n);
       if ret < 0 then Some n
       else delete_op op (upd_sess p (\<lambda>s. s\<lparr> ss_waiting_crypto := False, ss_completed_crypto := False \<rparr>) n)
     })"


section \<open>Core 0\<close>

definition MAX_OUTSTANDING_PKA_REQ :: u32 where "MAX_OUTSTANDING_PKA_REQ = 64"

text \<open>\<open>rng\<close> are the random bytes that the accelerator gives for the private key of an operation.  The operations
  handed to the accelerator are the first component of the result.\<close>

definition execute_pka :: "nic_cfg \<Rightarrow> bytes \<Rightarrow> op_ptr \<Rightarrow> nic \<Rightarrow> nic option" where
  "execute_pka cfg rnd op n =
    (case op_opcode (n_ops n op) of
       TLS_OPCODE_NONE \<Rightarrow> None
     | TLS_OPCODE_ECDHE_KEY_GENERATION \<Rightarrow> do {
         p \<leftarrow> op_sess (n_ops n op);
         k \<leftarrow> rand_and_clamp rnd (nc_big_endian cfg) (ss_ecdhe_priv_key (nic_sess n p)) (nc_base_pt_order cfg);
         Some (upd_sess p (\<lambda>s. s\<lparr> ss_ecdhe_priv_key := k \<rparr>) n)
       }
     | TLS_OPCODE_ECDHE_SHARED_SECRET_CALC \<Rightarrow> Some n
     | TLS_OPCODE_ECDSA_SIGNATURE \<Rightarrow> Some n)"

function handle_submitted_pka :: "nic_cfg \<Rightarrow> (op_ptr \<Rightarrow> bytes) \<Rightarrow> nic \<Rightarrow> (op_ptr list \<times> nic) option" where
  "handle_submitted_pka cfg rng n =
    (if n_cur_crypto_cnt n < MAX_OUTSTANDING_PKA_REQ then
       case sj_ring_dequeue (n_submit_ring n) of
         (ret, obj, ring) \<Rightarrow>
           if ret < 0 then Some ([], n)
           else (case obj of
             Some (Some op) \<Rightarrow>
               (case execute_pka cfg (rng op) op (n\<lparr> n_submit_ring := ring \<rparr>) of
                  None \<Rightarrow> None
                | Some n' \<Rightarrow>
                    (case op_sess (n_ops n' op) of
                       None \<Rightarrow> None
                     | Some p \<Rightarrow>
                         map_option (\<lambda>(ops, n). (op # ops, n))
                           (handle_submitted_pka cfg rng
                             ((upd_sess p (\<lambda>s. s\<lparr> ss_pending_pka_op := Some op \<rparr>)
                               (upd_op op (\<lambda>x. x\<lparr> op_pka_flag := True \<rparr>) n'))
                              \<lparr> n_cur_crypto_cnt := n_cur_crypto_cnt n + 1 \<rparr>))))
           | _ \<Rightarrow> None)
     else Some ([], n))"
  by pat_completeness auto
termination
  by (relation "measure (\<lambda>(_, _, n). 64 - unat (n_cur_crypto_cnt n))")
    (auto simp: MAX_OUTSTANDING_PKA_REQ_def word_less_nat_alt unat_word_ariths)

declare handle_submitted_pka.simps [simp del]

text \<open>One result of the accelerator for an operation of this worker.\<close>

definition copy_result :: "pka_operand \<Rightarrow> pka_operand \<Rightarrow> pka_operand option" where
  "copy_result res dst =
    (if po_buf_len res > length (po_buf res) \<or> po_buf_len res > length (po_buf dst) then None
     else Some (dst\<lparr> po_buf := blit (po_buf dst) 0 (take (po_buf_len res) (po_buf res)),
            po_buf_len := po_buf_len res, po_actual_len := po_actual_len res \<rparr>))"

fun copy_results :: "pka_operand list \<Rightarrow> pka_operand list \<Rightarrow> pka_operand list option" where
  "copy_results [] dsts = Some dsts"
| "copy_results (res # rest) [] = None"
| "copy_results (res # rest) (dst # dsts) = do {
     d \<leftarrow> copy_result res dst;
     ds \<leftarrow> copy_results rest dsts;
     Some (d # ds)
   }"

definition handle_completed_pka :: "op_ptr \<Rightarrow> pka_operand list \<Rightarrow> nic \<Rightarrow> nic option" where
  "handle_completed_pka op results n = do {
     p \<leftarrow> op_sess (n_ops n op);
     let n = upd_sess p (\<lambda>s. s\<lparr> ss_pka_op := Some op \<rparr>) n;
     if \<not> op_pka_flag (n_ops n op) then Some n
     else if ss_handshake_state (nic_sess n p) = HELLO_REQUEST \<and> op_data (n_ops n op) = None then None
     else do {
       rs \<leftarrow> copy_results results (ss_pka_results (nic_sess n p));
       let n = upd_sess p (\<lambda>s. s\<lparr> ss_pka_results := rs, ss_completed_crypto := True \<rparr>) n;
       Some (n\<lparr> n_cur_crypto_cnt := n_cur_crypto_cnt n - 1, n_completed_crypto_cnt := n_completed_crypto_cnt n + 1 \<rparr>)
     }
   }"


section \<open>Messages of the server\<close>

definition handle_app_keys_calculation :: "openssl \<Rightarrow> tcp_ptr \<Rightarrow> nic \<Rightarrow> nic option" where
  "handle_app_keys_calculation lib p n = do {
     let s = nic_sess n p;
     (_, t) \<leftarrow> (if sp_cipher (ss_pending_sp s) = TLS_AES_256_GCM_SHA384
        then app_keys lib (seg 0 (ss_handshake_msgs_len s) (ss_handshake_msgs s)) (ss_tls13_ctx s)
        else Some (0, ss_tls13_ctx s));
     Some (upd_sess p (\<lambda>s. s\<lparr> ss_tls13_ctx := t \<rparr>) n)
   }"

definition calculate_verify_data :: "openssl \<Rightarrow> tcp_ptr \<Rightarrow> nic \<Rightarrow> nic option" where
  "calculate_verify_data lib p n = do {
     let s = nic_sess n p;
     t \<leftarrow> handle_verify_data_calculation lib (seg 0 (ss_handshake_msgs_len s) (ss_handshake_msgs s)) (ss_tls13_ctx s);
     Some (upd_sess p (\<lambda>s. s\<lparr> ss_tls13_ctx := t \<rparr>) n)
   }"

definition set_hs :: "tcp_ptr \<Rightarrow> nat \<Rightarrow> nic \<Rightarrow> nic" where
  "set_hs p st n = upd_sess p (\<lambda>s. s\<lparr> ss_handshake_state := st \<rparr>) n"

definition send_remain_server_records :: "nic_cfg \<Rightarrow> tcp_ptr \<Rightarrow> nic \<Rightarrow> nic option" where
  "send_remain_server_records cfg p n =
    (let lib = nc_lib cfg; c = n_conns n p; s = tc_ssl_session c; st = ss_handshake_state s; t = ss_tls13_ctx s in
     if st = SERVER_HELLO \<and> tx_handshake_key_calculated t then do {
       n \<leftarrow> send_encrypted_extensions lib p n;
       n \<leftarrow> send_certificate lib (nc_cert cfg) p (set_hs p ENCRYPTED_EXTENSIONS n);
       (_, n) \<leftarrow> signature_certificate lib p (set_hs p CERTIFICATE n);
       Some n
     }
     else if st = CERTIFICATE \<and> tx_cert_signatured t then do {
       n \<leftarrow> send_certificate_verify lib p n;
       n \<leftarrow> send_server_finished lib p (set_hs p CERTIFICATE_VERIFY n);
       n \<leftarrow> handle_app_keys_calculation lib p n;
       n \<leftarrow> calculate_verify_data lib p n;
       (_, n) \<leftarrow> send_key_meta (nc_threads cfg) (unat (tc_portid c) + 1) p n;
       Some n
     }
     else if st = CERTIFICATE_VERIFY \<and> tc_recv_mig_fin c then do {
       n \<leftarrow> send_pending_records p n;
       Some (set_hs p FINISHED n)
     }
     else Some n)"

end
