(* ===== verification/Nic_Tcp.thy ===== *)
theory Nic_Tcp
  imports Tls_Handshake
begin

text \<open>
  Received packets and the main loop of a worker of the SmartNIC, \<^verbatim>\<open>src/smartnic/offload_ssl/src/tcp.c\<close>.

  A frame is the bytes from the Ethernet header on.  Headers are read at fixed offsets: addresses at 26 and 30, ports at 34
  and 36, sequence numbers at 38 and 42, data offset at 46.  A frame that is shorter than its headers, or than the
  length in its IP header, would be read past its end: \<open>None\<close>.
\<close>


section \<open>Packets of the network\<close>

definition hdr_len :: "bytes \<Rightarrow> nat" where
  "hdr_len pkt = unat (drop_bit 2 (pkt ! 46 AND 0xf0))"

definition pkt_payload_len :: "bytes \<Rightarrow> u16" where
  "pkt_payload_len pkt = ntohs (ld16 pkt 16) - of_nat (IP_HEADER_LEN + hdr_len pkt)"

definition search_packet :: "bytes \<Rightarrow> nic \<Rightarrow> tcp_ptr option option" where
  "search_packet pkt n = search_tcp_connection (ld32 pkt 26) (ld16 pkt 34) (ld32 pkt 30) (ld16 pkt 36) n"

text \<open>A packet of a connection that the host owns waits in an array of 1024 bytes for the rule of the hardware.  Its length is a
  16-bit number.\<close>

definition save_app_data :: "tcp_ptr \<Rightarrow> bytes \<Rightarrow> u16 \<Rightarrow> nic \<Rightarrow> nic option" where
  "save_app_data p pkt payload_len n = do {
     let len = unat (of_nat (34 + hdr_len pkt) + payload_len);
     frame \<leftarrow> rd_seg pkt 0 len;
     if len > MAX_APP_DATA_SIZE then None
     else Some (upd_tcp p (\<lambda>c. c\<lparr> tc_pending_app_data := blit (tc_pending_app_data c) 0 frame,
            tc_pending_app_data_len := len \<rparr>) n)
   }"

definition touch :: "tcp_ptr \<Rightarrow> nic \<Rightarrow> nic" where
  "touch p n = upd_tcp p (\<lambda>c. c\<lparr> tc_last_interaction := n_clock n (n_clocks n) \<rparr>) (n\<lparr> n_clocks := n_clocks n + 1 \<rparr>)"

definition process_normal_seq_case :: "nic_cfg \<Rightarrow> tcp_ptr \<Rightarrow> u32 \<Rightarrow> u32 \<Rightarrow> bytes \<Rightarrow> nic \<Rightarrow> nic option" where
  "process_normal_seq_case cfg p seq_no ack_no payload n = do {
     let n = upd_tcp p (\<lambda>c. c\<lparr> tc_last_recv_ack := ack_no, tc_last_recv_seq := seq_no,
       tc_last_recv_len := of_nat (length payload), tc_state := TCP_SESSION_RECEIVED \<rparr>) n;
     (done, n) \<leftarrow> process_ssl_packet cfg p payload (touch p n);
     if done then Some n else send_tcp_packet p [] 0 TCP_FLAG_ACK n
   }"

definition process_over_seq_case :: "tcp_ptr \<Rightarrow> nic \<Rightarrow> nic option" where
  "process_over_seq_case p n = send_tcp_packet p [] 0 TCP_FLAG_ACK n"

definition process_handshake_packet :: "nic_cfg \<Rightarrow> bytes \<Rightarrow> nic \<Rightarrow> nic option" where
  "process_handshake_packet cfg pkt n = do {
     let payload_len = pkt_payload_len pkt;
     let seq_no = ntohl (ld32 pkt 38); let ack_no = ntohl (ld32 pkt 42);
     result \<leftarrow> search_packet pkt n;
     (case result of
        None \<Rightarrow> Some n
      | Some p \<Rightarrow>
          if tc_onload (n_conns n p) then save_app_data p pkt payload_len n
          else (case validate_sequence (n_conns n p) seq_no ack_no payload_len of
            Some TCP_SEQ_OK \<Rightarrow> do {
              payload \<leftarrow> rd_seg pkt (34 + hdr_len pkt) (unat payload_len);
              process_normal_seq_case cfg p seq_no ack_no payload n
            }
          | Some TCP_SEQ_UNDER \<Rightarrow> Some n
          | Some TCP_SEQ_OVER \<Rightarrow> process_over_seq_case p n
          | None \<Rightarrow> Some n))
   }"

text \<open>The options of a SYN are copied; a data offset of less than five words gives a negative length.\<close>

definition save_new_syn :: "tcp_ptr \<Rightarrow> bytes \<Rightarrow> u16 \<Rightarrow> nic \<Rightarrow> nic option" where
  "save_new_syn p pkt payload_len n =
    (if hdr_len pkt < TCP_HEADER_LEN then None
     else do {
       let option_len = hdr_len pkt - TCP_HEADER_LEN;
       options \<leftarrow> rd_seg pkt 54 option_len;
       Some (upd_tcp p (\<lambda>c. c\<lparr> tc_pending_syn := (tc_pending_syn c)\<lparr>
         ps_ethh := seg 0 14 pkt, ps_iph := seg 14 20 pkt, ps_tcph := seg 34 20 pkt,
         ps_tcp_options := blit (ps_tcp_options (tc_pending_syn c)) 0 options,
         ps_tcp_option_len := of_nat option_len, ps_payload_len := payload_len \<rparr> \<rparr>) n)
     })"

definition insert_packet :: "openssl \<Rightarrow> u16 \<Rightarrow> bytes \<Rightarrow> u16 \<Rightarrow> nic \<Rightarrow> (tcp_ptr \<times> nic) option" where
  "insert_packet lib port pkt payload_len n =
     insert_tcp_connection lib port (seg 6 6 pkt) (ld32 pkt 26) (ld16 pkt 34) (seg 0 6 pkt) (ld32 pkt 30) (ld16 pkt 36)
       (ntohl (ld32 pkt 38)) (ntohs (ld16 pkt 48)) payload_len n"

text \<open>The second branch answers a new SYN of a known flow with the cookie of the connection that it has just removed.\<close>

definition process_syn_packet :: "openssl \<Rightarrow> u16 \<Rightarrow> bytes \<Rightarrow> nic \<Rightarrow> nic option" where
  "process_syn_packet lib port pkt n = do {
     let payload_len = pkt_payload_len pkt;
     result \<leftarrow> search_packet pkt n;
     (case result of
        Some p \<Rightarrow>
          (case validate_syn_packet (n_conns n p) (ntohl (ld32 pkt 38)) (ntohl (ld32 pkt 42)) of
             TCP_SYN_RETRANS \<Rightarrow> send_synack_packet (unat port) pkt (tc_cookie (n_conns n p)) n
           | TCP_SYN_NEW \<Rightarrow> do {
               n \<leftarrow> save_new_syn p pkt payload_len n;
               n \<leftarrow> remove_session p n;
               n \<leftarrow> send_synack_packet (unat port) pkt (tc_cookie (n_conns n p)) n;
               (_, n) \<leftarrow> insert_packet lib port pkt payload_len n;
               Some n
             })
      | None \<Rightarrow> do {
          (p, n) \<leftarrow> insert_packet lib port pkt payload_len n;
          send_synack_packet (unat port) pkt (tc_cookie (n_conns n p)) n
        })
   }"

definition process_ack_packet :: "bytes \<Rightarrow> nic \<Rightarrow> nic option" where
  "process_ack_packet pkt n = do {
     let payload_len = pkt_payload_len pkt;
     result \<leftarrow> search_packet pkt n;
     (case result of
        None \<Rightarrow> Some n
      | Some p \<Rightarrow>
          if ntohl (ld32 pkt 42) = tc_cookie (n_conns n p) + 1 \<and> payload_len = 0 then Some (touch p n)
          else if tc_onload (n_conns n p) then save_app_data p pkt payload_len n
          else Some n)
   }"

text \<open>FIN and RST of a connection that the host owns are forwarded; otherwise only a FIN without connection is answered.\<close>

definition process_fin_packet :: "u16 \<Rightarrow> bytes \<Rightarrow> nic \<Rightarrow> nic option" where
  "process_fin_packet port pkt n = do {
     target \<leftarrow> search_packet pkt n;
     (case target of
        Some p \<Rightarrow> if tc_onload (n_conns n p) then put_frame (unat port + 1) pkt n else Some n
      | None \<Rightarrow> send_raw_reset (unat port) (seg 0 6 pkt) (seg 6 6 pkt) (ld32 pkt 30) (ld32 pkt 26) (ld16 pkt 36) (ld16 pkt 34)
          (ntohl (ld32 pkt 42)) (ntohl (ld32 pkt 38) + ucast (pkt_payload_len pkt)) n)
   }"

definition process_rst_packet :: "u16 \<Rightarrow> bytes \<Rightarrow> nic \<Rightarrow> nic option" where
  "process_rst_packet port pkt n = do {
     target \<leftarrow> search_packet pkt n;
     (case target of
        Some p \<Rightarrow> if tc_onload (n_conns n p) then put_frame (unat port + 1) pkt n else Some n
      | None \<Rightarrow> Some n)
   }"

definition process_packet :: "nic_cfg \<Rightarrow> u16 \<Rightarrow> bytes \<Rightarrow> nic \<Rightarrow> nic option" where
  "process_packet cfg port pkt n =
    (if length pkt < TOTAL_HEADER_LEN then None
     else let ty = validate_packet_type (unat port) pkt (pkt_payload_len pkt) in
       case ty of
         None \<Rightarrow> Some n
       | Some SSL_HANDSHAKE \<Rightarrow> process_handshake_packet cfg pkt n
       | Some TCP_SYN \<Rightarrow> process_syn_packet (nc_lib cfg) port pkt n
       | Some TCP_ACK \<Rightarrow> process_ack_packet pkt n
       | Some HOST_MIG_FIN \<Rightarrow> map_option snd (process_host_packet (unat port) pkt ty n)
       | Some HOST_CLOSE \<Rightarrow> map_option snd (process_host_packet (unat port) pkt ty n)
       | Some TCP_FIN \<Rightarrow> process_fin_packet port pkt n
       | Some TCP_RST \<Rightarrow> process_rst_packet port pkt n
       | Some TCP_SYNACK \<Rightarrow> Some n)"


section \<open>Main loop\<close>

definition forward_app_data :: "tcp_ptr \<Rightarrow> nic \<Rightarrow> nic option" where
  "forward_app_data p n =
    (let c = n_conns n p in
     if tc_hws_applied c \<and> tc_pending_app_data_len c > 0 then do {
       frame \<leftarrow> rd_seg (tc_pending_app_data c) 0 (tc_pending_app_data_len c);
       n \<leftarrow> put_frame (unat (tc_portid c) + 1) frame n;
       Some (upd_tcp p (\<lambda>c. c\<lparr> tc_pending_app_data_len := 0 \<rparr>) n)
     }
     else Some n)"

definition serve_connection :: "nic_cfg \<Rightarrow> tcp_ptr \<Rightarrow> nic \<Rightarrow> nic option" where
  "serve_connection cfg p n = do {
     n \<leftarrow> process_session_read cfg p n;
     n \<leftarrow> get_processed_crypto (nc_lib cfg) p n;
     n \<leftarrow> remove_hws p (apply_hws p n);
     n \<leftarrow> forward_app_data p n;
     send_remain_server_records cfg p n
   }"

fun fold_steps :: "('a \<Rightarrow> nic \<Rightarrow> nic option) \<Rightarrow> 'a list \<Rightarrow> nic \<Rightarrow> nic option" where
  "fold_steps f [] n = Some n"
| "fold_steps f (x # xs) n = do { n \<leftarrow> f x n; fold_steps f xs n }"

text \<open>\<^verbatim>\<open>get_rptr\<close> gives no packet when the device has marked its checksum as wrong.\<close>

definition get_rptr :: "bool \<times> bytes \<Rightarrow> bytes option" where
  "get_rptr m = (if fst m then None else Some (snd m))"

definition receive :: "nic_cfg \<Rightarrow> u16 \<Rightarrow> bool \<times> bytes \<Rightarrow> nic \<Rightarrow> nic option" where
  "receive cfg port m n = (case get_rptr m of None \<Rightarrow> Some n | Some pkt \<Rightarrow> process_packet cfg port pkt n)"

text \<open>One turn of the loop for one port; \<open>ms\<close> are the received packets.  A step on a connection removes no other connection from the
  table, so that the loop over the bins visits the connections that are there at its start.  Nothing waits in the ring of \<^verbatim>\<open>handle_waiting_hws_del_conns\<close>.\<close>

definition serve_port :: "nic_cfg \<Rightarrow> u16 \<Rightarrow> (bool \<times> bytes) list \<Rightarrow> nic \<Rightarrow> nic option" where
  "serve_port cfg port ms n = do {
     n \<leftarrow> fold_steps (receive cfg port) ms n;
     n \<leftarrow> fold_steps (serve_connection cfg) (concat (ht_table (n_active n))) n;
     Some (snd (send_pkts (unat port) n))
   }"

end
