(* ===== verification/Nic_Inv.thy ===== *)
theory Nic_Inv
  imports Nic_Tcp
begin

text \<open>
  Invariants of a worker of the SmartNIC: the table of connections with the free queue, and the sizes of the
  buffers that the code declares.
\<close>


section \<open>Buffers\<close>

text \<open>Every array of a record, a session and a connection keeps its declared size.\<close>

definition rec_sz :: "tls_record \<Rightarrow> bool" where
  "rec_sz x \<longleftrightarrow> length (rc_buf x) = MAX_RECORD_SIZE - 8 \<and> length (rc_mac_in x) = MAX_RECORD_SIZE - 8"

definition sess_sz :: "ssl_session \<Rightarrow> bool" where
  "sess_sz s \<longleftrightarrow> length (ss_send_buffer s) = MAX_RECORD_SIZE \<and> length (ss_handshake_msgs s) = MAX_HANDSHAKE_LENGTH \<and>
     length (ss_server_records s) = 1024 \<and> length (tx_cert_signature (ss_tls13_ctx s)) = 128"

definition conn_sz :: "tcp_conn \<Rightarrow> bool" where
  "conn_sz c \<longleftrightarrow> sess_sz (tc_ssl_session c) \<and> length (tc_pending_app_data c) = MAX_APP_DATA_SIZE"

definition bufs_wf :: "nic \<Rightarrow> bool" where
  "bufs_wf n \<longleftrightarrow> (\<forall>r. rec_sz (n_records n r)) \<and> (\<forall>p. conn_sz (n_conns n p))"

lemma bufs_wfD [dest]:
  assumes "bufs_wf n"
  shows "rec_sz (n_records n r)" "conn_sz (n_conns n p)" "sess_sz (nic_sess n p)"
  using assms by (auto simp: bufs_wf_def conn_sz_def)

lemma bufs_wf_upd_tcp [intro]: "bufs_wf n \<Longrightarrow> conn_sz (f (n_conns n p)) \<Longrightarrow> bufs_wf (upd_tcp p f n)"
  by (simp add: bufs_wf_def upd_tcp_def)

lemma bufs_wf_upd_sess [intro]: "bufs_wf n \<Longrightarrow> sess_sz (f (nic_sess n p)) \<Longrightarrow> bufs_wf (upd_sess p f n)"
  by (auto simp: bufs_wf_def upd_sess_def upd_tcp_def conn_sz_def)

lemma bufs_wf_upd_rec [intro]: "bufs_wf n \<Longrightarrow> rec_sz (f (n_records n r)) \<Longrightarrow> bufs_wf (upd_rec r f n)"
  by (auto simp: bufs_wf_def upd_rec_def)

lemma bufs_wf_fields [simp]:
  "bufs_wf (n\<lparr> n_record_pool := x2 \<rparr>) = bufs_wf n"
  "bufs_wf (n\<lparr> n_free_record_cnt := x3 \<rparr>) = bufs_wf n"
  "bufs_wf (n\<lparr> n_using_record_cnt := x4 \<rparr>) = bufs_wf n"
  "bufs_wf (n\<lparr> n_ops := x5 \<rparr>) = bufs_wf n"
  "bufs_wf (n\<lparr> n_op_pool := x6 \<rparr>) = bufs_wf n"
  "bufs_wf (n\<lparr> n_free_op_cnt := x7 \<rparr>) = bufs_wf n"
  "bufs_wf (n\<lparr> n_using_op_cnt := x8 \<rparr>) = bufs_wf n"
  "bufs_wf (n\<lparr> n_submit_ring := x9 \<rparr>) = bufs_wf n"
  "bufs_wf (n\<lparr> n_cur_crypto_cnt := x10 \<rparr>) = bufs_wf n"
  "bufs_wf (n\<lparr> n_rands := x11 \<rparr>) = bufs_wf n"
  "bufs_wf (n\<lparr> n_clocks := x12 \<rparr>) = bufs_wf n"
  "bufs_wf (n\<lparr> n_epochs := x13 \<rparr>) = bufs_wf n"
  "bufs_wf (n\<lparr> n_bursts := x14 \<rparr>) = bufs_wf n"
  "bufs_wf (n\<lparr> n_wire := x15 \<rparr>) = bufs_wf n"
  "bufs_wf (n\<lparr> n_wmbufs := x16 \<rparr>) = bufs_wf n"
  "bufs_wf (n\<lparr> n_completed_crypto_cnt := x17 \<rparr>) = bufs_wf n"
  "bufs_wf (n\<lparr> n_active := x18 \<rparr>) = bufs_wf n"
  "bufs_wf (n\<lparr> n_active_cnt := x19 \<rparr>) = bufs_wf n"
  "bufs_wf (n\<lparr> n_free_q := x20 \<rparr>) = bufs_wf n"
  "bufs_wf (n\<lparr> n_free_cnt := x21 \<rparr>) = bufs_wf n"
  "bufs_wf (upd_op op f n) = bufs_wf n"
  by (simp_all add: bufs_wf_def upd_op_def)


section \<open>Steps of the TLS layer\<close>

text \<open>A quiet step touches neither the TCP part of a connection nor the queues, and keeps the sizes.\<close>

definition quiet :: "nic \<Rightarrow> nic \<Rightarrow> bool" where
  "quiet n n' \<longleftrightarrow> same_tcp n n' \<and> (bufs_wf n \<longrightarrow> bufs_wf n')"

lemma quiet_refl [simp]: "quiet n n"
  by (simp add: quiet_def)

lemma quiet_trans: "quiet a b \<Longrightarrow> quiet b c \<Longrightarrow> quiet a c"
  by (auto simp: quiet_def intro: same_tcp_trans)

lemma same_tcp_upd_rec [simp]: "same_tcp n (upd_rec r f m) = same_tcp n m"
  by (simp add: upd_rec_def)

lemma same_tcp_completed [simp]: "same_tcp n (m\<lparr> n_completed_crypto_cnt := x \<rparr>) = same_tcp n m"
  by (simp add: same_tcp_def)

lemma quiet_fields [simp]:
  "quiet n (m\<lparr> n_record_pool := x2 \<rparr>) = quiet n m"
  "quiet n (m\<lparr> n_free_record_cnt := x3 \<rparr>) = quiet n m"
  "quiet n (m\<lparr> n_using_record_cnt := x4 \<rparr>) = quiet n m"
  "quiet n (m\<lparr> n_op_pool := x6 \<rparr>) = quiet n m"
  "quiet n (m\<lparr> n_free_op_cnt := x7 \<rparr>) = quiet n m"
  "quiet n (m\<lparr> n_using_op_cnt := x8 \<rparr>) = quiet n m"
  "quiet n (m\<lparr> n_submit_ring := x9 \<rparr>) = quiet n m"
  "quiet n (m\<lparr> n_cur_crypto_cnt := x10 \<rparr>) = quiet n m"
  "quiet n (m\<lparr> n_rands := x11 \<rparr>) = quiet n m"
  "quiet n (m\<lparr> n_epochs := x13 \<rparr>) = quiet n m"
  "quiet n (m\<lparr> n_completed_crypto_cnt := x17 \<rparr>) = quiet n m"
  "quiet n (m\<lparr> n_ops := x5 \<rparr>) = quiet n m"
  "quiet n (upd_op op f m) = quiet n m"
  by (simp_all add: quiet_def)

named_theorems quiet_elims
named_theorems size_elims

text \<open>Session and record updates that leave the arrays alone, or that write inside of their bounds.\<close>

lemma quiet_upd_sess: "quiet n m \<Longrightarrow> (sess_sz (nic_sess m p) \<Longrightarrow> sess_sz (f (nic_sess m p))) \<Longrightarrow> quiet n (upd_sess p f m)"
  by (auto simp: quiet_def)

lemma quiet_upd_rec: "quiet n m \<Longrightarrow> (rec_sz (n_records m r) \<Longrightarrow> rec_sz (f (n_records m r))) \<Longrightarrow> quiet n (upd_rec r f m)"
  by (auto simp: quiet_def)

lemma rec_put_sz: "rec_put a i s x = Some x' \<Longrightarrow> rec_sz x \<Longrightarrow> rec_sz x'"
  by (auto simp: rec_put_def rec_write_def rec_bytes_def rec_sz_def split: if_splits rec_area.splits)

lemma rec_sz_update [simp]:
  "rec_sz (x\<lparr> rc_id := a1 \<rparr>) = rec_sz x" "rec_sz (x\<lparr> rc_state := a2 \<rparr>) = rec_sz x"
  "rec_sz (x\<lparr> rc_length := a3 \<rparr>) = rec_sz x" "rec_sz (x\<lparr> rc_current_len := a4 \<rparr>) = rec_sz x"
  "rec_sz (x\<lparr> rc_data := a5 \<rparr>) = rec_sz x" "rec_sz (x\<lparr> rc_decrypted := a6 \<rparr>) = rec_sz x"
  "rec_sz (x\<lparr> rc_is_received := a7 \<rparr>) = rec_sz x" "rec_sz (x\<lparr> rc_is_encrypted := a8 \<rparr>) = rec_sz x"
  "rec_sz (x\<lparr> rc_seq_num := a9 \<rparr>) = rec_sz x" "rec_sz (x\<lparr> rc_plain_type := a10 \<rparr>) = rec_sz x"
  "rec_sz (x\<lparr> rc_plain_version := a11 \<rparr>) = rec_sz x" "rec_sz (x\<lparr> rc_plain_length := a12 \<rparr>) = rec_sz x"
  "rec_sz (x\<lparr> rc_cipher_type := a13 \<rparr>) = rec_sz x" "rec_sz (x\<lparr> rc_cipher_version := a14 \<rparr>) = rec_sz x"
  "rec_sz (x\<lparr> rc_cipher_length := a15 \<rparr>) = rec_sz x" "rec_sz (x\<lparr> rc_fragment := a16 \<rparr>) = rec_sz x"
  by (simp_all add: rec_sz_def)

lemma rec_sz_zero [simp]: "rec_sz record_zero"
  by (simp add: rec_sz_def record_zero_def)

lemma init_record_sz [simp]: "rec_sz (init_record s b x) = rec_sz x"
  by (simp add: init_record_def)

lemma put_record_quiet: "put_record r n = Some n' \<Longrightarrow> quiet n n'"
  by (auto simp: put_record_def quiet_def bufs_wf_def split: if_splits)

lemma delete_record_quiet: "delete_record p r n = Some n' \<Longrightarrow> quiet n n'"
  by (auto simp: delete_record_def sess_sz_def split: bind_splits dest!: put_record_quiet intro!: quiet_upd_sess)

lemma delete_op_quiet: "delete_op op n = Some n' \<Longrightarrow> quiet n n'"
  by (auto simp: delete_op_def split: if_splits)

lemma new_ssl_crypto_op_quiet: "new_ssl_crypto_op n = Some (op, n') \<Longrightarrow> quiet n n'"
  by (auto simp: new_ssl_crypto_op_def split: list.splits)

lemma new_record_quiet: "new_record p sq rcv n = Some (r, n') \<Longrightarrow> quiet n n'"
  by (auto simp: new_record_def Let_def sess_sz_def split: list.splits intro!: quiet_upd_sess quiet_upd_rec)

lemma store_handshake_quiet: "store_handshake p r n = Some (ret, n') \<Longrightarrow> quiet n n'"
  by (auto simp: store_handshake_def Let_def sess_sz_def rd_seg_def split: if_splits bind_splits intro!: quiet_upd_sess)

lemma seal_sz: "seal lib key nonce x = Some (ret, x') \<Longrightarrow> rec_sz x \<Longrightarrow> rec_sz x'"
  by (auto simp: seal_def Let_def split: bind_splits prod.splits dest!: rec_put_sz)

lemma unseal_sz: "unseal lib key nonce x = Some (ret, x') \<Longrightarrow> rec_sz x \<Longrightarrow> rec_sz x'"
  by (auto simp: unseal_def Let_def split: bind_splits prod.splits if_splits dest!: rec_put_sz)

text \<open>The rules go back from the state behind a step to the state in front of it.\<close>

declare rec_put_sz [size_elims] seal_sz [size_elims] unseal_sz [size_elims]

lemma delete_record_q [quiet_elims]: "delete_record p r m = Some n' \<Longrightarrow> quiet n m \<Longrightarrow> quiet n n'"
  by (blast intro: quiet_trans delete_record_quiet)

lemma delete_op_q [quiet_elims]: "delete_op op m = Some n' \<Longrightarrow> quiet n m \<Longrightarrow> quiet n n'"
  by (blast intro: quiet_trans delete_op_quiet)

lemma new_op_q [quiet_elims]: "new_ssl_crypto_op m = Some (op, n') \<Longrightarrow> quiet n m \<Longrightarrow> quiet n n'"
  by (blast intro: quiet_trans new_ssl_crypto_op_quiet)

lemma new_record_q [quiet_elims]: "new_record p sq rcv m = Some (r, n') \<Longrightarrow> quiet n m \<Longrightarrow> quiet n n'"
  by (blast intro: quiet_trans new_record_quiet)

lemma store_handshake_q [quiet_elims]: "store_handshake p r m = Some (ret, n') \<Longrightarrow> quiet n m \<Longrightarrow> quiet n n'"
  by (blast intro: quiet_trans store_handshake_quiet)

lemma handle_after_encrypt_q [quiet_elims]: "handle_after_aes_gcm_encrypt p r m = (ret, n') \<Longrightarrow> quiet n m \<Longrightarrow> quiet n n'"
  by (auto simp: handle_after_aes_gcm_encrypt_def Let_def sess_sz_def split: if_splits intro!: quiet_upd_sess quiet_upd_rec)

lemma handle_after_decrypt_q [quiet_elims]: "handle_after_aes_gcm_decrypt p r m = Some n' \<Longrightarrow> quiet n m \<Longrightarrow> quiet n n'"
  by (auto simp: handle_after_aes_gcm_decrypt_def Let_def sess_sz_def split: if_splits intro!: quiet_upd_sess quiet_upd_rec)

lemma encrypt_record_q [quiet_elims]: "encrypt_record lib p r m = Some (ret, n') \<Longrightarrow> quiet n m \<Longrightarrow> quiet n n'"
  by (auto simp: encrypt_record_def Let_def sess_sz_def split: bind_splits if_splits prod.splits
    elim!: quiet_elims size_elims intro!: quiet_upd_sess quiet_upd_rec)

lemma decrypt_record_q [quiet_elims]: "decrypt_record lib p r m = Some (ret, n') \<Longrightarrow> quiet n m \<Longrightarrow> quiet n n'"
  by (auto simp: decrypt_record_def Let_def sess_sz_def split: bind_splits if_splits prod.splits
    elim!: quiet_elims size_elims intro!: quiet_upd_sess quiet_upd_rec)

lemma attach_mac_q [quiet_elims]: "attach_mac lib p r m = Some (ret, n') \<Longrightarrow> quiet n m \<Longrightarrow> quiet n n'"
  by (auto simp: attach_mac_def Let_def sess_sz_def split: bind_splits if_splits prod.splits
    elim!: quiet_elims size_elims intro!: quiet_upd_sess quiet_upd_rec)

lemma pack_handshake_sz [size_elims]: "pack_handshake x off = Some (ret, x') \<Longrightarrow> rec_sz x \<Longrightarrow> rec_sz x'"
  by (auto simp: pack_handshake_def Let_def split: fragment.splits hs_body.splits if_splits bind_splits elim!: quiet_elims size_elims)

lemma close_inner_sz [size_elims]: "close_inner x off m = Some (ret, x') \<Longrightarrow> rec_sz x \<Longrightarrow> rec_sz x'"
  by (auto simp: close_inner_def Let_def split: bind_splits elim!: quiet_elims size_elims)

lemma pack_application_data_sz [size_elims]: "pack_application_data k x off = Some (ret, x') \<Longrightarrow> rec_sz x \<Longrightarrow> rec_sz x'"
  by (auto simp: pack_application_data_def Let_def split: fragment.splits hs_body.splits if_splits elim!: quiet_elims size_elims)

lemma pack_change_cipher_spec_sz [size_elims]: "pack_change_cipher_spec x off = Some (ret, x') \<Longrightarrow> rec_sz x \<Longrightarrow> rec_sz x'"
  by (auto simp: pack_change_cipher_spec_def Let_def elim!: quiet_elims size_elims)

lemma pack_record_sz [size_elims]: "pack_record k x = Some (ret, x') \<Longrightarrow> rec_sz x \<Longrightarrow> rec_sz x'"
  by (auto simp: pack_record_def Let_def split: bind_splits if_splits elim!: quiet_elims size_elims)

lemma send_record_q [quiet_elims]: "send_record lib p r ty len m = Some (ret, n') \<Longrightarrow> quiet n m \<Longrightarrow> quiet n n'"
  by (auto simp: send_record_def Let_def sess_sz_def rd_seg_def split: bind_splits if_splits prod.splits
    elim!: quiet_elims size_elims intro!: quiet_upd_sess quiet_upd_rec)

lemma must_send_q [quiet_elims]: "must_send (send_handshake_as ty lib p r t body len m) = Some n' \<Longrightarrow> quiet n m \<Longrightarrow> quiet n n'"
  by (auto simp: must_send_def send_handshake_as_def split: bind_splits if_splits prod.splits
    elim!: quiet_elims size_elims intro!: quiet_upd_rec)

lemmas send_defs = send_handshake_def send_handshake_tls13_def new_send_record_def new_recv_record_def Let_def

lemma send_server_hello_q [quiet_elims]: "send_server_hello lib p m = Some n' \<Longrightarrow> quiet n m \<Longrightarrow> quiet n n'"
  by (auto simp: send_server_hello_def send_defs split: bind_splits if_splits elim!: quiet_elims size_elims)

lemma send_encrypted_extensions_q [quiet_elims]: "send_encrypted_extensions lib p m = Some n' \<Longrightarrow> quiet n m \<Longrightarrow> quiet n n'"
  by (auto simp: send_encrypted_extensions_def send_defs split: bind_splits if_splits elim!: quiet_elims size_elims)

lemma send_certificate_q [quiet_elims]: "send_certificate lib cert p m = Some n' \<Longrightarrow> quiet n m \<Longrightarrow> quiet n n'"
  by (auto simp: send_certificate_def send_defs split: bind_splits if_splits elim!: quiet_elims size_elims)

lemma send_certificate_verify_q [quiet_elims]: "send_certificate_verify lib p m = Some n' \<Longrightarrow> quiet n m \<Longrightarrow> quiet n n'"
  by (auto simp: send_certificate_verify_def send_defs split: bind_splits if_splits elim!: quiet_elims size_elims)

lemma send_server_finished_q [quiet_elims]: "send_server_finished lib p m = Some n' \<Longrightarrow> quiet n m \<Longrightarrow> quiet n n'"
  by (auto simp: send_server_finished_def send_defs split: bind_splits if_splits elim!: quiet_elims size_elims)

lemma submit_pka_request_q [quiet_elims]: "submit_pka_request op m = Some (ret, n') \<Longrightarrow> quiet n m \<Longrightarrow> quiet n n'"
  by (auto simp: submit_pka_request_def Let_def split: bind_splits if_splits prod.splits elim!: quiet_elims size_elims)

lemma request_pka_q [quiet_elims]: "request_pka p op m = Some (ret, n') \<Longrightarrow> quiet n m \<Longrightarrow> quiet n n'"
  by (auto simp: request_pka_def Let_def sess_sz_def split: bind_splits if_splits elim!: quiet_elims size_elims intro!: quiet_upd_sess)

lemma generate_ecdhe_key_pair_q [quiet_elims]: "generate_ecdhe_key_pair p r m = Some (ret, n') \<Longrightarrow> quiet n m \<Longrightarrow> quiet n n'"
  by (auto simp: generate_ecdhe_key_pair_def split: bind_splits elim!: quiet_elims size_elims)

lemma calculate_shared_secret_q [quiet_elims]: "calculate_shared_secret p r m = Some (ret, n') \<Longrightarrow> quiet n m \<Longrightarrow> quiet n n'"
  by (auto simp: calculate_shared_secret_def Let_def sess_sz_def split: bind_splits elim!: quiet_elims size_elims intro!: quiet_upd_sess)

lemma signature_certificate_q [quiet_elims]: "signature_certificate lib p m = Some (ret, n') \<Longrightarrow> quiet n m \<Longrightarrow> quiet n n'"
  by (auto simp: signature_certificate_def Let_def sess_sz_def split: bind_splits elim!: quiet_elims size_elims intro!: quiet_upd_sess)

lemma unpack_handshake_q [quiet_elims]: "unpack_handshake p r m = Some (ret, n') \<Longrightarrow> quiet n m \<Longrightarrow> quiet n n'"
  by (auto simp: unpack_handshake_def Let_def sess_sz_def split: bind_splits if_splits prod.splits
    elim!: quiet_elims size_elims intro!: quiet_upd_sess quiet_upd_rec)

lemma unpack_alert_q [quiet_elims]: "unpack_alert r m = Some (ret, n') \<Longrightarrow> quiet n m \<Longrightarrow> quiet n n'"
  by (auto simp: unpack_alert_def Let_def split: bind_splits elim!: quiet_elims size_elims intro!: quiet_upd_rec)

lemma unpack_application_data_q [quiet_elims]: "unpack_application_data r m = Some (ret, n') \<Longrightarrow> quiet n m \<Longrightarrow> quiet n n'"
  by (auto simp: unpack_application_data_def Let_def split: bind_splits if_splits elim!: quiet_elims size_elims intro!: quiet_upd_rec)

lemma unpack_record_q [quiet_elims]: "unpack_record p r m = Some (ret, n') \<Longrightarrow> quiet n m \<Longrightarrow> quiet n n'"
  by (auto simp: unpack_record_def Let_def split: bind_splits if_splits elim!: quiet_elims size_elims intro!: quiet_upd_rec)

lemma handle_client_hello_q [quiet_elims]: "handle_client_hello lib p r m = Some n' \<Longrightarrow> quiet n m \<Longrightarrow> quiet n n'"
  by (auto simp: handle_client_hello_def Let_def sess_sz_def split: bind_splits if_splits
    elim!: quiet_elims size_elims intro!: quiet_upd_sess quiet_upd_rec)

lemma handle_handshake_q [quiet_elims]: "handle_handshake lib p r m = Some (ret, n') \<Longrightarrow> quiet n m \<Longrightarrow> quiet n n'"
  by (auto simp: handle_handshake_def split: bind_splits if_splits elim!: quiet_elims size_elims)

lemma handle_change_cipher_spec_q [quiet_elims]: "handle_change_cipher_spec p r m = Some (ret, n') \<Longrightarrow> quiet n m \<Longrightarrow> quiet n n'"
  by (auto simp: handle_change_cipher_spec_def Let_def sess_sz_def split: bind_splits if_splits
    elim!: quiet_elims size_elims intro!: quiet_upd_sess)

text \<open>The key schedule writes its own fields of the context only.\<close>

lemma derive_steps_keep:
  assumes "derive_steps fs t = Some (r, t')" "\<And>f u r' u'. f \<in> set fs \<Longrightarrow> f u = Some (r', u') \<Longrightarrow> g u' = g u"
  shows "g t' = g t"
  using assms by (induction fs arbitrary: t) (fastforce split: option.splits if_splits prod.splits)+

lemma handshake_keys_sig: "handshake_keys lib msgs ss t = Some (r, t') \<Longrightarrow> tx_cert_signature t' = tx_cert_signature t"
  by (auto simp: handshake_keys_def Let_def split: prod.splits if_splits option.splits
    elim!: derive_steps_keep[where g = tx_cert_signature])

lemma app_keys_sig: "app_keys lib msgs t = Some (r, t') \<Longrightarrow> tx_cert_signature t' = tx_cert_signature t"
  by (auto simp: app_keys_def Let_def split: prod.splits if_splits option.splits
    elim!: derive_steps_keep[where g = tx_cert_signature])

lemma handle_after_ecdhe_key_gen_q [quiet_elims]: "handle_after_ecdhe_key_gen p m = Some (ret, n') \<Longrightarrow> quiet n m \<Longrightarrow> quiet n n'"
  by (auto simp: handle_after_ecdhe_key_gen_def Let_def sess_sz_def split: bind_splits elim!: quiet_elims size_elims intro!: quiet_upd_sess)

lemma handle_after_ecdhe_shared_secret_calc_q [quiet_elims]:
  "handle_after_ecdhe_shared_secret_calc lib p m = Some (ret, n') \<Longrightarrow> quiet n m \<Longrightarrow> quiet n n'"
  by (auto simp: handle_after_ecdhe_shared_secret_calc_def Let_def sess_sz_def upd_sess_def upd_tcp_def split: bind_splits if_splits
    elim!: quiet_elims size_elims intro!: quiet_upd_sess[unfolded upd_sess_def upd_tcp_def] dest!: handshake_keys_sig)

lemma handle_after_ecdsa_signature_q [quiet_elims]:
  "handle_after_ecdsa_signature p m = Some (ret, n') \<Longrightarrow> quiet n m \<Longrightarrow> quiet n n'"
  by (auto simp: handle_after_ecdsa_signature_def Let_def sess_sz_def split: bind_splits if_splits elim!: quiet_elims size_elims intro!: quiet_upd_sess)

lemma handle_app_keys_calculation_q [quiet_elims]: "handle_app_keys_calculation lib p m = Some n' \<Longrightarrow> quiet n m \<Longrightarrow> quiet n n'"
  by (auto simp: handle_app_keys_calculation_def Let_def sess_sz_def split: bind_splits if_splits
    elim!: quiet_elims size_elims intro!: quiet_upd_sess dest!: app_keys_sig)

lemma calculate_verify_data_q [quiet_elims]: "calculate_verify_data lib p m = Some n' \<Longrightarrow> quiet n m \<Longrightarrow> quiet n n'"
  by (auto simp: calculate_verify_data_def handle_verify_data_calculation_def Let_def sess_sz_def split: bind_splits if_splits
    elim!: quiet_elims size_elims intro!: quiet_upd_sess)

lemma execute_pka_q [quiet_elims]: "execute_pka cfg rnd op m = Some n' \<Longrightarrow> quiet n m \<Longrightarrow> quiet n n'"
  by (auto simp: execute_pka_def sess_sz_def split: crypto_opcode.splits bind_splits elim!: quiet_elims size_elims intro!: quiet_upd_sess)

lemma handle_completed_pka_q [quiet_elims]: "handle_completed_pka op res m = Some n' \<Longrightarrow> quiet n m \<Longrightarrow> quiet n n'"
  by (auto simp: handle_completed_pka_def Let_def sess_sz_def split: bind_splits if_splits elim!: quiet_elims size_elims intro!: quiet_upd_sess)

lemma push_read_record_q [quiet_elims]: "push_read_record p r m = Some n' \<Longrightarrow> quiet n m \<Longrightarrow> quiet n n'"
  by (auto simp: push_read_record_def sess_sz_def split: if_splits intro!: quiet_upd_sess)

lemma current_record_q [quiet_elims]: "current_record p pkt m = Some (x, n') \<Longrightarrow> quiet n m \<Longrightarrow> quiet n n'"
  by (auto simp: current_record_def send_defs sess_sz_def split: option.splits bind_splits if_splits
    elim!: quiet_elims size_elims intro!: quiet_upd_sess quiet_upd_rec)

lemma handle_submitted_pka_quiet: "handle_submitted_pka cfg rng n = Some (ops, n') \<Longrightarrow> quiet n n'"
proof (induction cfg rng n arbitrary: ops n' rule: handle_submitted_pka.induct)
  case (1 cfg rng n)
  show ?case
  proof (cases "n_cur_crypto_cnt n < MAX_OUTSTANDING_PKA_REQ")
    case False with "1.prems" show ?thesis by (subst (asm) handle_submitted_pka.simps) auto
  next
    case True
    obtain ret obj ring where d: "sj_ring_dequeue (n_submit_ring n) = (ret, obj, ring)" by (cases "sj_ring_dequeue (n_submit_ring n)")
    show ?thesis
    proof (cases "ret < 0")
      case neg: True with True d "1.prems" show ?thesis by (subst (asm) handle_submitted_pka.simps) auto
    next
      case pos: False
      with True d "1.prems" obtain op m p ops' where
        m: "obj = Some (Some op)" "execute_pka cfg (rng op) op (n\<lparr> n_submit_ring := ring \<rparr>) = Some m" "op_sess (n_ops m op) = Some p"
        and r: "handle_submitted_pka cfg rng ((upd_sess p (\<lambda>s. s\<lparr> ss_pending_pka_op := Some op \<rparr>)
          (upd_op op (\<lambda>x. x\<lparr> op_pka_flag := True \<rparr>) m))\<lparr> n_cur_crypto_cnt := n_cur_crypto_cnt n + 1 \<rparr>) = Some (ops', n')"
        by (subst (asm) handle_submitted_pka.simps) (auto split: option.splits)
      let ?k = "(upd_sess p (\<lambda>s. s\<lparr> ss_pending_pka_op := Some op \<rparr>)
          (upd_op op (\<lambda>x. x\<lparr> op_pka_flag := True \<rparr>) m))\<lparr> n_cur_crypto_cnt := n_cur_crypto_cnt n + 1 \<rparr>"
      have "quiet ?k n'" by (rule "1.IH"[OF True _ _ pos m(1) refl m(2,3) r]) (use d in auto)
      moreover have "quiet n ?k" using m(2) by (auto simp: sess_sz_def elim!: quiet_elims size_elims intro!: quiet_upd_sess)
      ultimately show ?thesis by (blast intro: quiet_trans)
    qed
  qed
qed



section \<open>Steps on a connection\<close>

abbreviation act :: "nic \<Rightarrow> tcp_ptr set" where
  "act n \<equiv> ht_members (n_active n)"

text \<open>A step on the connection \<open>p\<close> that keeps it in the table.\<close>

definition kept :: "tcp_ptr \<Rightarrow> nic \<Rightarrow> nic \<Rightarrow> bool" where
  "kept p n n' \<longleftrightarrow> (bufs_wf n \<longrightarrow> bufs_wf n') \<and> n_active n' = n_active n \<and>
     (conns_inv n \<and> p \<in> act n \<longrightarrow> conns_inv n')"

named_theorems kept_elims

lemma kept_refl [simp]: "kept p n n"
  by (simp add: kept_def)

lemma quiet_kept: "quiet m n' \<Longrightarrow> kept p n m \<Longrightarrow> kept p n n'"
  using conns_inv_same[of m n'] same_tcpD(1)[of m n'] by (auto simp: kept_def quiet_def)

lemmas kept_quiet [kept_elims] = quiet_elims[OF _ quiet_refl, THEN quiet_kept]

lemma kept_upd_sess: "kept p n m \<Longrightarrow> (sess_sz (nic_sess m q) \<Longrightarrow> sess_sz (f (nic_sess m q))) \<Longrightarrow> kept p n (upd_sess q f m)"
  by (rule quiet_kept[OF quiet_upd_sess]) auto

lemma kept_upd_rec: "kept p n m \<Longrightarrow> (rec_sz (n_records m r) \<Longrightarrow> rec_sz (f (n_records m r))) \<Longrightarrow> kept p n (upd_rec r f m)"
  by (rule quiet_kept[OF quiet_upd_rec]) auto

lemma kept_upd_tcp:
  assumes "kept p n m" "\<And>c. conn_sz c \<Longrightarrow> conn_sz (f c)" "\<And>c. tcp_flow (f c) = tcp_flow c"
    and "\<And>c. (tc_state (f c) = TCP_SESSION_IDLE) = (tc_state c = TCP_SESSION_IDLE)"
  shows "kept p n (upd_tcp q f m)"
  using assms(1) conns_inv_upd_tcp[of m f q] assms(2-4) bufs_wf_upd_tcp[of m f q]
  by (auto simp: kept_def) (auto simp: upd_tcp_def)

lemma kept_fields [simp]:
  "kept p n (m\<lparr> n_cur_crypto_cnt := x10 \<rparr>) = kept p n m"
  "kept p n (m\<lparr> n_clocks := x12 \<rparr>) = kept p n m"
  "kept p n (m\<lparr> n_rands := x11 \<rparr>) = kept p n m"
  by (simp_all add: kept_def conns_inv_def)

lemma put_frame_bufs: "put_frame port f n = Some n' \<Longrightarrow> bufs_wf n \<Longrightarrow> bufs_wf n'"
  by (drule put_frame_effect) (auto simp: bufs_wf_def)

lemma put_frame_q [quiet_elims]: "put_frame port f m = Some n' \<Longrightarrow> quiet n m \<Longrightarrow> quiet n n'"
  using put_frame_same put_frame_bufs by (auto simp: quiet_def intro: same_tcp_trans)

lemma put_frame_k [kept_elims]: "put_frame port f m = Some n' \<Longrightarrow> kept p n m \<Longrightarrow> kept p n n'"
  by (rule quiet_kept[OF put_frame_q[OF _ quiet_refl]])

lemma send_segments_bufs: "send_segments p pl fl l a n = Some n' \<Longrightarrow> bufs_wf n \<Longrightarrow> bufs_wf n'"
proof (induction p pl fl l a n rule: send_segments.induct)
  case (1 p pl fl l a n)
  let ?b = "min l (MAX_PKT_SIZE - IP_HEADER_LEN - TCP_HEADER_LEN)"
  from "1.prems"(1) obtain m where m: "put_frame (unat (tc_portid (n_conns n p))) (seg_frame (n_conns n p) (seg a ?b pl) fl a) n = Some m"
    by (subst (asm) send_segments.simps) (auto simp: Let_def split: option.splits)
  have w: "bufs_wf (upd_tcp p (seg_sent ?b a) m)"
    using put_frame_bufs[OF m "1.prems"(2)] bufs_wfD(2)[of m p]
    by (intro bufs_wf_upd_tcp) (simp_all add: conn_sz_def seg_sent_def)
  show ?case using "1.prems"(1) m w "1.IH"[OF refl refl m refl]
    by (subst (asm) send_segments.simps) (auto simp: Let_def split: if_splits)
qed

lemma send_tcp_packet_bufs: "send_tcp_packet p pl len fl n = Some n' \<Longrightarrow> bufs_wf n \<Longrightarrow> bufs_wf n'"
  by (auto simp: send_tcp_packet_def send_segments_bufs split: if_splits)

lemma send_segments_sess: "send_segments p pl fl l a n = Some n' \<Longrightarrow> nic_sess n' q = nic_sess n q"
proof (induction p pl fl l a n rule: send_segments.induct)
  case (1 p pl fl l a n)
  let ?b = "min l (MAX_PKT_SIZE - IP_HEADER_LEN - TCP_HEADER_LEN)"
  from "1.prems" obtain m where m: "put_frame (unat (tc_portid (n_conns n p))) (seg_frame (n_conns n p) (seg a ?b pl) fl a) n = Some m"
    by (subst (asm) send_segments.simps) (auto simp: Let_def split: option.splits)
  have w: "nic_sess (upd_tcp p (seg_sent ?b a) m) q = nic_sess n q"
    using put_frame_effect[OF m] by (auto simp: upd_tcp_def)
  show ?case using "1.prems" m w "1.IH"[OF refl refl m refl]
    by (subst (asm) send_segments.simps) (auto simp: Let_def split: if_splits)
qed

lemma send_tcp_packet_sess: "send_tcp_packet p pl len fl n = Some n' \<Longrightarrow> nic_sess n' q = nic_sess n q"
  by (auto simp: send_tcp_packet_def send_segments_sess split: if_splits)

lemma send_segments_queues: "send_segments p pl fl l a n = Some n' \<Longrightarrow> n_free_q n' = n_free_q n \<and> n_active n' = n_active n"
proof (induction p pl fl l a n rule: send_segments.induct)
  case (1 p pl fl l a n)
  let ?b = "min l (MAX_PKT_SIZE - IP_HEADER_LEN - TCP_HEADER_LEN)"
  from "1.prems" obtain m where m: "put_frame (unat (tc_portid (n_conns n p))) (seg_frame (n_conns n p) (seg a ?b pl) fl a) n = Some m"
    by (subst (asm) send_segments.simps) (auto simp: Let_def split: option.splits)
  have w: "n_free_q (upd_tcp p (seg_sent ?b a) m) = n_free_q n" "n_active (upd_tcp p (seg_sent ?b a) m) = n_active n"
    using same_tcpD[OF put_frame_same[OF m]] by (simp_all add: upd_tcp_def)
  show ?case using "1.prems" m w "1.IH"[OF refl refl m refl]
    by (subst (asm) send_segments.simps) (auto simp: Let_def split: if_splits)
qed

lemma send_tcp_packet_queues:
  "send_tcp_packet p pl len fl n = Some n' \<Longrightarrow> n_free_q n' = n_free_q n"
  "send_tcp_packet p pl len fl n = Some n' \<Longrightarrow> n_active n' = n_active n"
  by (auto simp: send_tcp_packet_def send_segments_queues split: if_splits)

lemma send_tcp_packet_k [kept_elims]: "send_tcp_packet p pl len fl m = Some n' \<Longrightarrow> kept p n m \<Longrightarrow> kept p n n'"
  using send_tcp_packet_inv(1)[of p pl len fl m n'] send_tcp_packet_bufs[of p pl len fl m n'] member_busy[of m p]
    send_tcp_packet_queues(2)[of p pl len fl m n']
  by (auto simp: kept_def)

lemma send_key_meta_q [quiet_elims]: "send_key_meta th port p m = Some (ret, n') \<Longrightarrow> quiet n m \<Longrightarrow> quiet n n'"
  by (auto simp: send_key_meta_def Let_def sess_sz_def split: if_splits bind_splits elim!: quiet_elims size_elims intro!: quiet_upd_sess)

lemmas send_key_meta_k [kept_elims] = send_key_meta_q[OF _ quiet_refl, THEN quiet_kept]

lemma resend_for_hello_k [kept_elims]: "resend_for_hello cfg p m = Some n' \<Longrightarrow> kept p n m \<Longrightarrow> kept p n n'"
  by (auto simp: resend_for_hello_def Let_def sess_sz_def split: if_splits bind_splits elim!: kept_elims size_elims intro!: kept_upd_sess)

lemma send_pending_records_k [kept_elims]:
  assumes "send_pending_records p m = Some n'" "kept p n m"
  shows "kept p n n'"
proof -
  let ?s = "nic_sess m p"
  obtain k where k: "send_tcp_packet p (ss_send_buffer ?s) (word_of_int (ss_send_buffer_offset ?s)) TCP_FLAG_ACK m = Some k"
    using assms(1) by (auto simp: send_pending_records_def Let_def split: bind_splits)
  define f :: "ssl_session \<Rightarrow> ssl_session" where "f = (\<lambda>s. s\<lparr> ss_server_records := blit (ss_server_records s) 0 (seg 0 (nat (ss_send_buffer_offset ?s)) (ss_send_buffer s)),
       ss_server_records_len := ss_send_buffer_offset ?s, ss_send_buffer := replicate MAX_RECORD_SIZE 0, ss_send_buffer_offset := 0 \<rparr>)"
  have n': "n' = upd_sess p f k" and len: "nat (ss_send_buffer_offset ?s) \<le> length (ss_server_records ?s)"
    using assms(1) k by (auto simp: send_pending_records_def Let_def f_def split: if_splits)
  have "sess_sz (f ?s)" if "sess_sz ?s" using that len by (simp add: f_def sess_sz_def)
  then show ?thesis unfolding n'
    using send_tcp_packet_k[OF k assms(2)] send_tcp_packet_sess[OF k, of p] by (intro kept_upd_sess) simp_all
qed

lemma apply_hws_k: "kept p n m \<Longrightarrow> kept p n (apply_hws p m)"
  by (auto simp: apply_hws_def Let_def conn_sz_def tcp_flow_def intro!: kept_upd_tcp)

lemma set_hs_k [simp]: "kept p n (set_hs q st m) = kept p n m"
proof -
  have "bufs_wf (set_hs q st m) = bufs_wf m"
    by (auto simp: set_hs_def bufs_wf_def upd_sess_def upd_tcp_def conn_sz_def sess_sz_def split: if_splits)
  then have "quiet (set_hs q st m) m" "quiet m (set_hs q st m)" by (simp_all add: quiet_def set_hs_def)
  then show ?thesis by (blast intro: quiet_kept)
qed

lemma send_remain_server_records_k [kept_elims]:
  assumes "send_remain_server_records cfg p m = Some n'" "kept p n m"
  shows "kept p n n'"
proof -
  let ?s = "nic_sess m p" and ?lib = "nc_lib cfg"
  consider "ss_handshake_state ?s = SERVER_HELLO \<and> tx_handshake_key_calculated (ss_tls13_ctx ?s)"
    | "ss_handshake_state ?s = CERTIFICATE \<and> tx_cert_signatured (ss_tls13_ctx ?s)"
    | "ss_handshake_state ?s = CERTIFICATE_VERIFY \<and> tc_recv_mig_fin (n_conns m p)"
    | "n' = m" using assms(1) unfolding send_remain_server_records_def Let_def by (auto split: if_splits)
  then show ?thesis
  proof cases
    case 1 with assms(1) obtain a b ret where "send_encrypted_extensions ?lib p m = Some a"
      "send_certificate ?lib (nc_cert cfg) p (set_hs p ENCRYPTED_EXTENSIONS a) = Some b"
      "signature_certificate ?lib p (set_hs p CERTIFICATE b) = Some (ret, n')"
      by (auto simp: send_remain_server_records_def Let_def split: bind_splits)
    with assms(2) show ?thesis by (auto elim!: kept_elims)
  next
    case 2 with assms(1) obtain a b c d ret where "send_certificate_verify ?lib p m = Some a"
      "send_server_finished ?lib p (set_hs p CERTIFICATE_VERIFY a) = Some b"
      "handle_app_keys_calculation ?lib p b = Some c" "calculate_verify_data ?lib p c = Some d"
      "send_key_meta (nc_threads cfg) (unat (tc_portid (n_conns m p)) + 1) p d = Some (ret, n')"
      by (auto simp: send_remain_server_records_def Let_def handshake_type_defs split: bind_splits)
    with assms(2) show ?thesis by (auto elim!: kept_elims)
  next
    case 3 with assms(1) obtain a where "send_pending_records p m = Some a" "n' = set_hs p FINISHED a"
      by (auto simp: send_remain_server_records_def Let_def handshake_type_defs split: bind_splits)
    with assms(2) show ?thesis by (auto elim!: kept_elims)
  qed (use assms(2) in simp)
qed



section \<open>Removal\<close>

text \<open>The fields of a session that a later step of the main loop looks at, when the connection has been removed.\<close>

definition cleared :: "tcp_ptr \<Rightarrow> nic \<Rightarrow> bool" where
  "cleared p n \<longleftrightarrow> (let c = n_conns n p; s = tc_ssl_session c in
     ss_handshake_state s = HELLO_REQUEST \<and> ss_state s = STATE_INIT \<and> \<not> ss_completed_crypto s \<and> ss_recv_q_cnt s = 0 \<and>
     \<not> tc_hws_applied c)"

definition hs_part :: "ssl_session \<Rightarrow> nat \<times> ssl_session_state \<times> bool" where
  "hs_part s = (ss_handshake_state s, ss_state s, ss_completed_crypto s)"

lemma nic_sess_upd [simp]: "nic_sess (upd_sess q f n) p = (if p = q then f (nic_sess n q) else nic_sess n p)"
  by (simp add: upd_sess_def upd_tcp_def)

lemma hs_part_update [simp]:
  "hs_part (s\<lparr> ss_num_current_records := a1 \<rparr>) = hs_part s" "hs_part (s\<lparr> ss_pending_pka_op := a2 \<rparr>) = hs_part s"
  "hs_part (s\<lparr> ss_pending_pka_op_1 := a3 \<rparr>) = hs_part s"
  by (simp_all add: hs_part_def)

lemma put_record_conns: "put_record r n = Some n' \<Longrightarrow> n_conns n' = n_conns n"
  by (auto simp: put_record_def split: if_splits)

lemma put_records_conns: "put_records rs n = Some n' \<Longrightarrow> n_conns n' = n_conns n"
  by (induction rs arbitrary: n) (auto split: bind_splits dest!: put_record_conns)

lemma put_records_quiet: "put_records rs n = Some n' \<Longrightarrow> quiet n n'"
  by (induction rs arbitrary: n) (auto split: bind_splits intro: quiet_trans put_record_quiet)

lemma delete_record_hs: "delete_record q r n = Some n' \<Longrightarrow> hs_part (nic_sess n' p) = hs_part (nic_sess n p)"
  by (auto simp: delete_record_def put_record_conns split: bind_splits)

lemma delete_op_conns: "delete_op op n = Some n' \<Longrightarrow> n_conns n' = n_conns n"
  by (auto simp: delete_op_def split: if_splits)

lemma upd_op_conns [simp]: "n_conns (upd_op op f n) = n_conns n"
  by (simp add: upd_op_def)

text \<open>The two halves of \<^verbatim>\<open>remove_pending_pka_op\<close> are alike.\<close>

lemma remove_pending_hs:
  assumes "remove_pending_pka_op p n = Some n'"
  shows "quiet n n'" "hs_part (nic_sess n' p) = hs_part (nic_sess n p)"
proof -
  obtain m where m: "(case ss_pending_pka_op (nic_sess n p) of
        None \<Rightarrow> Some n
      | Some op \<Rightarrow> do {
          n \<leftarrow> Some (upd_op op (\<lambda>x. x\<lparr> op_pka_flag := False \<rparr>) n);
          n \<leftarrow> (case op_data (n_ops n op) of None \<Rightarrow> Some n | Some r \<Rightarrow> delete_record p r n);
          n \<leftarrow> delete_op op n;
          n \<leftarrow> Some (upd_sess p (\<lambda>s. s\<lparr> ss_pending_pka_op := None \<rparr>) n);
          Some (n\<lparr> n_cur_crypto_cnt := n_cur_crypto_cnt n - 1 \<rparr>)
        }) = Some m"
    and r: "(case ss_pending_pka_op_1 (nic_sess m p) of
        None \<Rightarrow> Some m
      | Some op \<Rightarrow> do {
          n \<leftarrow> Some (upd_op op (\<lambda>x. x\<lparr> op_pka_flag := False \<rparr>) m);
          n \<leftarrow> delete_op op n;
          n \<leftarrow> Some (upd_sess p (\<lambda>s. s\<lparr> ss_pending_pka_op_1 := None \<rparr>) n);
          Some (n\<lparr> n_cur_crypto_cnt := n_cur_crypto_cnt n - 1 \<rparr>)
        }) = Some n'"
    using assms unfolding remove_pending_pka_op_def by (auto split: bind_splits)
  have "quiet n m" using m
    by (auto simp: sess_sz_def split: option.splits bind_splits elim!: quiet_elims size_elims intro!: quiet_upd_sess)
  moreover have "quiet m n'" using r
    by (auto simp: sess_sz_def split: option.splits bind_splits elim!: quiet_elims size_elims intro!: quiet_upd_sess)
  ultimately show "quiet n n'" by (rule quiet_trans)
  have "hs_part (nic_sess m p) = hs_part (nic_sess n p)" using m
    by (auto simp: delete_op_conns split: option.splits bind_splits dest!: delete_record_hs[of _ _ _ _ p])
  moreover have "hs_part (nic_sess n' p) = hs_part (nic_sess m p)" using r
    by (auto simp: delete_op_conns split: option.splits bind_splits)
  ultimately show "hs_part (nic_sess n' p) = hs_part (nic_sess n p)" by simp
qed

lemma clear_ssl_session_hs:
  assumes "clear_ssl_session p n = Some n'"
  shows "quiet n n'" "hs_part (nic_sess n' p) = (HELLO_REQUEST, STATE_INIT, False)" "ss_recv_q_cnt (nic_sess n' p) = 0"
proof -
  define f :: "ssl_session \<Rightarrow> ssl_session" where "f = (\<lambda>s. s\<lparr>
        ss_state := STATE_INIT, ss_handshake_state := HELLO_REQUEST, ss_current_read_record := None,
        ss_version := (0, 0), ss_recv_seq_num := 0, ss_send_seq_num := 0, ss_handshake_msgs_len := 0,
        ss_client_write_MAC_secret := replicate 128 0, ss_server_write_MAC_secret := replicate 128 0,
        ss_client_write_IV_seq_num := 0, ss_server_write_IV_seq_num := 0, ss_tls13_ctx := tls13_ctx_zero,
        ss_meta_hdr := clear_meta_hdr (ss_meta_hdr s), ss_rand_seed := ucast (n_rand n (n_rands n)),
        ss_send_buffer := replicate MAX_RECORD_SIZE 0, ss_send_buffer_offset := 0,
        ss_read_sp := sp_zero, ss_write_sp := sp_zero, ss_pending_sp := sp_zero,
        ss_pka_results := clear_results (ss_pka_results s),
        ss_waiting_crypto := False, ss_completed_crypto := False \<rparr>)"
  have f: "hs_part (f s) = (HELLO_REQUEST, STATE_INIT, False)" "sess_sz s \<Longrightarrow> sess_sz (f s)" for s
    by (simp_all add: f_def hs_part_def sess_sz_def tls13_ctx_zero_def Let_def)
  from assms obtain n1 n2 where
    n1: "remove_pending_pka_op p (upd_sess p f (n\<lparr> n_rands := n_rands n + 1 \<rparr>)) = Some n1"
    and n2: "put_records (ss_recv_q (nic_sess n1 p)) n1 = Some n2"
    and n': "n' = upd_sess p (\<lambda>s. s\<lparr>
        ss_recv_q := [], ss_num_current_records := 0, ss_recv_q_cnt := 0, ss_waiting_crypto := False,
        ss_tls13_ctx := tls13_ctx_zero, ss_id := init_random (ss_rand_seed s) 32,
        ss_num_of_retransmitted_ch := 0, ss_num_of_retransmitted_meta_pkt := 0 \<rparr>) n2"
    unfolding clear_ssl_session_def f_def[symmetric] by (auto split: bind_splits)
  have "quiet n (upd_sess p f (n\<lparr> n_rands := n_rands n + 1 \<rparr>))" using f(2) by (auto intro: quiet_upd_sess)
  then have "quiet n n2" using remove_pending_hs(1)[OF n1] put_records_quiet[OF n2] by (blast intro: quiet_trans)
  then show "quiet n n'" unfolding n' by (rule quiet_upd_sess) (simp add: sess_sz_def tls13_ctx_zero_def Let_def)
  have "hs_part (nic_sess n2 p) = hs_part (f (nic_sess n p))"
    using remove_pending_hs(2)[OF n1] put_records_conns[OF n2] by simp
  then show "hs_part (nic_sess n' p) = (HELLO_REQUEST, STATE_INIT, False)"
    using f(1) by (simp add: n' hs_part_def)
  show "ss_recv_q_cnt (nic_sess n' p) = 0" by (simp add: n')
qed

lemma ht_remove_members: "ht_members (ht_remove key t p) \<subseteq> ht_members t"
proof
  fix q assume "q \<in> ht_members (ht_remove key t p)"
  then obtain b where b: "b \<in> set ((ht_table t)[unat (calculate_hash (key p)) := remove1 p (ht_table t ! unat (calculate_hash (key p)))])"
    and q: "q \<in> set b" by (auto simp: ht_members_def ht_remove_def Let_def bucket_remove_def)
  from b obtain i where i: "i < length (ht_table t)"
    "b = (ht_table t)[unat (calculate_hash (key p)) := remove1 p (ht_table t ! unat (calculate_hash (key p)))] ! i"
    by (auto simp: in_set_conv_nth)
  have "set b \<subseteq> set (ht_table t ! i)" using i set_remove1_subset[of p "ht_table t ! i"]
    by (cases "unat (calculate_hash (key p)) = i") auto
  then show "q \<in> ht_members t" using q i(1) by (auto simp: ht_members_def intro!: bexI[of _ "ht_table t ! i"])
qed

lemma remove_session_cleared:
  assumes "remove_session p n = Some n'"
  shows "cleared p n'" "p \<in> set (n_free_q n')" "p \<notin> set (n_free_q n)" "bufs_wf n \<Longrightarrow> bufs_wf n'"
    "act n' \<subseteq> act n"
proof -
  let ?n0 = "n\<lparr> n_active := ht_remove (nic_key n) (n_active n) p, n_active_cnt := n_active_cnt n - 1 \<rparr>"
  from assms obtain m where m: "clear_ssl_session p ?n0 = Some m" and f: "p \<notin> set (n_free_q m)"
    and n': "n' = (upd_tcp p clear_tcp_connection m)\<lparr> n_free_q := n_free_q m @ [p], n_free_cnt := n_free_cnt m + 1 \<rparr>"
    unfolding remove_session_def by (auto simp: upd_tcp_def split: if_splits bind_splits)
  note c = clear_ssl_session_hs[OF m]
  have q: "same_tcp ?n0 m" using c(1) by (simp add: quiet_def)
  show "cleared p n'" using c(2,3)
    by (simp add: cleared_def n' Let_def upd_tcp_def clear_tcp_connection_def hs_part_def)
  show "p \<in> set (n_free_q n')" by (simp add: n')
  show "p \<notin> set (n_free_q n)" using f same_tcpD(3)[OF q] by simp
  show "bufs_wf n'" if "bufs_wf n"
  proof -
    have "bufs_wf m" using c(1) that by (simp add: quiet_def)
    then show ?thesis unfolding n' using bufs_wfD(2)[of m p] bufs_wf_upd_tcp[of m clear_tcp_connection p]
      by (simp add: conn_sz_def clear_tcp_connection_def)
  qed
  have "ht_members (ht_remove (nic_key n) (n_active n) p) \<subseteq> act n" by (rule ht_remove_members)
  then show "act n' \<subseteq> act n" using same_tcpD(1)[OF q] by (simp add: n' upd_tcp_def)
qed

text \<open>A step on \<open>p\<close> that keeps the connection or removes it.\<close>

definition serves :: "tcp_ptr \<Rightarrow> nic \<Rightarrow> nic \<Rightarrow> bool" where
  "serves p n n' \<longleftrightarrow> (bufs_wf n \<longrightarrow> bufs_wf n') \<and> act n' \<subseteq> act n \<and>
     (conns_inv n \<and> p \<in> act n \<longrightarrow> conns_inv n' \<and> (act n' = act n \<or> act n' = act n - {p} \<and> cleared p n'))"

lemma remove_session_serves: "remove_session p n = Some n' \<Longrightarrow> serves p n n'"
  using remove_session_run[of n p n'] remove_session_cleared[of p n n'] by (auto simp: serves_def)

lemma abort_session_serves: "abort_session p n = Some n' \<Longrightarrow> serves p n n'"
proof -
  assume "abort_session p n = Some n'"
  then obtain m where m: "send_tcp_packet p [] 0 (TCP_FLAG_RST OR TCP_FLAG_ACK) n = Some m" "remove_session p m = Some n'"
    by (auto simp: abort_session_def split: bind_splits)
  have "kept p n m" using m(1) by (auto elim: kept_elims)
  then show ?thesis using remove_session_serves[OF m(2)] send_tcp_packet_queues[OF m(1)]
    by (auto simp: serves_def kept_def)
qed

lemma abort_session_freed: "p \<in> set (n_free_q n) \<Longrightarrow> abort_session p n = None"
  using remove_session_cleared(3)[of p] send_tcp_packet_queues(1)[of p]
  by (fastforce simp: abort_session_def split: bind_splits)

lemma kept_serves: "kept p n m \<Longrightarrow> serves p m n' \<Longrightarrow> serves p n n'"
  by (auto simp: kept_def serves_def)

lemma kept_serves_refl: "kept p n n' \<Longrightarrow> serves p n n'"
  by (auto simp: kept_def serves_def)

lemma serves_quiet:
  assumes "serves p n m" "quiet m n'" "cleared p m \<Longrightarrow> cleared p n'"
  shows "serves p n n'"
proof -
  from assms(2) have s: "same_tcp m n'" "bufs_wf m \<longrightarrow> bufs_wf n'" by (simp_all add: quiet_def)
  show ?thesis using assms(1,3) s(2) same_tcpD(1)[OF s(1)] conns_inv_same[OF s(1)] by (auto simp: serves_def)
qed

named_theorems serves_elims

lemma abort_session_s [serves_elims]: "abort_session p m = Some n' \<Longrightarrow> kept p n m \<Longrightarrow> serves p n n'"
  by (rule kept_serves[OF _ abort_session_serves])

lemma remove_hws_s [serves_elims]:
  assumes "remove_hws p m = Some n'" "kept p n m"
  shows "serves p n n'"
proof (cases "tc_hws_applied (n_conns m p) \<and> tc_hws_ready_to_del (n_conns m p)")
  case True
  have "kept p n (upd_tcp p (\<lambda>c. c\<lparr> tc_hws_deleted := True \<rparr>) m)"
    by (rule kept_upd_tcp[OF assms(2)]) (simp_all add: conn_sz_def tcp_flow_def)
  then show ?thesis using True assms(1) by (auto simp: remove_hws_def Let_def intro: kept_serves remove_session_serves)
next
  case False with assms show ?thesis by (auto simp: remove_hws_def Let_def intro: kept_serves_refl)
qed

lemma cleared_upd_sess: "cleared p m \<Longrightarrow> hs_part (f (nic_sess m p)) = hs_part (nic_sess m p) \<Longrightarrow>
    ss_recv_q_cnt (f (nic_sess m p)) = ss_recv_q_cnt (nic_sess m p) \<Longrightarrow> cleared p (upd_sess q f m)"
  by (auto simp: cleared_def Let_def hs_part_def upd_sess_def upd_tcp_def)

lemma cleared_conns: "n_conns n' = n_conns n \<Longrightarrow> cleared p n' = cleared p n"
  by (simp add: cleared_def)

lemma delete_op_s [serves_elims]: "delete_op op m = Some n' \<Longrightarrow> serves p n m \<Longrightarrow> serves p n n'"
  using cleared_conns[OF delete_op_conns] by (blast intro: serves_quiet delete_op_quiet)

lemma delete_record_s [serves_elims]: "delete_record q r m = Some n' \<Longrightarrow> serves p n m \<Longrightarrow> serves p n n'"
proof (erule serves_quiet)
  assume d: "delete_record q r m = Some n'"
  show "quiet m n'" by (rule delete_record_quiet[OF d])
  assume "cleared p m"
  with d show "cleared p n'"
    by (auto simp: delete_record_def cleared_conns[OF put_record_conns] split: bind_splits intro!: cleared_upd_sess)
qed

lemma serves_upd_rec: "kept p n m \<Longrightarrow> (rec_sz (n_records m r) \<Longrightarrow> rec_sz (f (n_records m r))) \<Longrightarrow> serves p n (upd_rec r f m)"
  by (rule kept_serves_refl[OF kept_upd_rec])

lemma verify_mac_s [serves_elims]: "verify_mac lib p r m = Some (ret, n') \<Longrightarrow> kept p n m \<Longrightarrow> serves p n n'"
  by (auto simp: verify_mac_def Let_def split: bind_splits if_splits
    elim!: serves_elims kept_elims size_elims intro!: kept_upd_rec serves_upd_rec)

lemma handle_alert_s [serves_elims]: "handle_alert p r m = Some (ret, n') \<Longrightarrow> kept p n m \<Longrightarrow> serves p n n'"
  by (auto simp: handle_alert_def split: bind_splits if_splits fragment.splits elim!: serves_elims kept_elims intro: kept_serves_refl)

lemma handle_client_finished_s [serves_elims]:
  assumes "handle_client_finished vd p r m = Some (ret, n')" "kept p n m"
  shows "serves p n n'"
proof -
  define k where "k = upd_tcp p (\<lambda>c. c\<lparr> tc_onload := True \<rparr>)
       (upd_sess p (\<lambda>s. s\<lparr> ss_handshake_state := FINISHED, ss_state := STATE_ACTIVE \<rparr>) m)"
  have k: "kept p n k" using assms(2)
    by (auto simp: k_def sess_sz_def conn_sz_def tcp_flow_def intro!: kept_upd_tcp kept_upd_sess)
  show ?thesis
  proof (cases "tx_calculated_vd (ss_tls13_ctx (nic_sess k p)) = vd")
    case True
    with assms(1) k show ?thesis
      by (auto simp: handle_client_finished_def Let_def k_def[symmetric] split: bind_splits if_splits
        elim!: kept_elims intro!: kept_serves_refl)
  next
    case False
    then obtain a where a: "remove_hws p k = Some a" "abort_session p a = Some n'"
      using assms(1) by (auto simp: handle_client_finished_def Let_def k_def[symmetric] split: bind_splits if_splits)
    have "a = k" using a remove_session_cleared(2) abort_session_freed
      by (fastforce simp: remove_hws_def Let_def split: if_splits)
    then show ?thesis using a(2) k by (auto elim!: serves_elims)
  qed
qed

lemma handle_application_data_s [serves_elims]: "handle_application_data p r m = Some (ret, n') \<Longrightarrow> kept p n m \<Longrightarrow> serves p n n'"
  by (auto simp: handle_application_data_def Let_def split: bind_splits if_splits fragment.splits hs_body.splits
    elim!: serves_elims kept_elims intro: kept_serves_refl)

lemma handle_read_record_s [serves_elims]: "handle_read_record lib p r m = Some (ret, n') \<Longrightarrow> kept p n m \<Longrightarrow> serves p n n'"
  by (auto simp: handle_read_record_def Let_def split: if_splits elim!: serves_elims)
    (auto elim!: kept_elims intro!: kept_serves_refl)

lemma unpack_header_sz [size_elims]: "unpack_header x = Some x' \<Longrightarrow> rec_sz x \<Longrightarrow> rec_sz x'"
  by (auto simp: unpack_header_def Let_def split: if_splits)

lemma verify_mac_k: "verify_mac lib p r m = Some (ret, n') \<Longrightarrow> \<not> ret < 0 \<Longrightarrow> kept p n m \<Longrightarrow> kept p n n'"
  by (auto simp: verify_mac_def Let_def split: bind_splits if_splits elim!: kept_elims size_elims intro!: kept_upd_rec)

text \<open>When decoding goes on, the connection is still there.\<close>

lemma open_record_s:
  assumes "open_record lib p r m = Some (ret, n')" "kept p n m"
  shows "serves p n n'" "ret \<ge> 0 \<Longrightarrow> kept p n n'"
proof -
  from assms show "serves p n n'"
    by (auto simp: open_record_def Let_def split: if_splits bind_splits
      elim!: serves_elims kept_elims intro: kept_serves_refl intro!: serves_upd_rec)
  from assms show "kept p n n'" if "ret \<ge> 0" using that
    by (auto simp: open_record_def Let_def split: if_splits bind_splits
      elim!: kept_elims verify_mac_k intro!: kept_upd_rec)
qed

lemma process_read_record_s [serves_elims]:
  assumes "process_read_record cfg p r m = Some (ret, n')" "kept p n m"
  shows "serves p n n'"
proof (cases "ss_handshake_state (nic_sess m p) \<ge> CLIENT_HELLO \<and> rec_bytes (rc_data (n_records m r)) (n_records m r) ! 0 = HANDSHAKE")
  case True with assms show ?thesis
    by (auto simp: process_read_record_def Let_def split: bind_splits elim!: kept_elims intro!: kept_serves_refl)
next
  case False
  then obtain x ret1 a where x: "unpack_header (n_records m r) = Some x"
    and a: "open_record (nc_lib cfg) p r (upd_rec r (\<lambda>_. x) m) = Some (ret1, a)"
    using assms(1) by (auto simp: process_read_record_def Let_def split: bind_splits)
  have k: "kept p n (upd_rec r (\<lambda>_. x) m)" using assms(2) unpack_header_sz[OF x] by (auto intro: kept_upd_rec)
  note o = open_record_s[OF a k]
  show ?thesis
  proof (cases "ret1 < 0")
    case True with False x a assms(1) o show ?thesis by (auto simp: process_read_record_def Let_def)
  next
    case False
    then have "kept p n (upd_rec r (\<lambda>x. x\<lparr> rc_state := TO_UNPACK_CONTENT \<rparr>) a)" using o(2) by (auto intro: kept_upd_rec)
    moreover obtain ret2 b where "unpack_record p r (upd_rec r (\<lambda>x. x\<lparr> rc_state := TO_UNPACK_CONTENT \<rparr>) a) = Some (ret2, b)"
      "n' = b \<or> (\<exists>ret3. handle_read_record (nc_lib cfg) p r b = Some (ret3, n'))"
      using False \<open>\<not> (CLIENT_HELLO \<le> _ \<and> _)\<close> x a assms(1) by (auto simp: process_read_record_def Let_def split: bind_splits if_splits)
    ultimately show ?thesis by (auto elim!: serves_elims kept_elims intro: kept_serves_refl)
  qed
qed

lemma record_complete_s [serves_elims]: "record_complete cfg p r m = Some n' \<Longrightarrow> kept p n m \<Longrightarrow> serves p n n'"
proof -
  assume a: "record_complete cfg p r m = Some n'" "kept p n m"
  then obtain k where k: "push_read_record p r m = Some k \<or> (\<exists>ret. process_read_record cfg p r m = Some (ret, k))"
    and n': "n' = upd_sess p (\<lambda>s. s\<lparr> ss_current_read_record := None \<rparr>) k"
    by (auto simp: record_complete_def split: bind_splits if_splits)
  have "kept p n k" if "push_read_record p r m = Some k" using that a(2) by (auto elim!: kept_elims)
  then have "serves p n k" using k a(2) by (auto intro: kept_serves_refl elim!: serves_elims)
  with n' show ?thesis
    by (auto simp: sess_sz_def hs_part_def elim!: serves_quiet intro!: quiet_upd_sess cleared_upd_sess)
qed

text \<open>A state in which the connection \<open>p\<close> of the table \<open>A\<close> is served, or has been removed.\<close>

definition served :: "tcp_ptr \<Rightarrow> tcp_ptr set \<Rightarrow> nic \<Rightarrow> bool" where
  "served p A n \<longleftrightarrow> p \<in> A \<and> bufs_wf n \<and> conns_inv n \<and> (act n = A \<or> act n = A - {p} \<and> cleared p n)"

lemma serves_served:
  assumes "serves p n n'" "bufs_wf n" "conns_inv n" "p \<in> act n"
  shows "served p (act n) n'"
  using assms by (auto simp: serves_def served_def)

lemma served_step:
  assumes "served p A n" "p \<in> act n \<Longrightarrow> serves p n n'" "cleared p n \<Longrightarrow> n' = n"
  shows "served p A n'"
  using assms serves_served[of p n n'] unfolding served_def by (metis DiffD2 insertI1)

lemma process_session_read_served:
  assumes "process_session_read cfg p n = Some n'"
  shows "served p A n \<longrightarrow> served p A n'"
proof (rule process_session_read.raw_induct[rotated, OF assms])
  fix f cfg p n n'
  assume IH: "\<And>cfg p n n'. f cfg p n = Some n' \<Longrightarrow> served p A n \<longrightarrow> served p A n'"
    and run: "(let s = nic_sess n p in
     if ss_recv_q_cnt s < 0 then None
     else if ss_recv_q_cnt s > 0 \<and> \<not> ss_waiting_crypto s then
       case ss_recv_q s of
         [] \<Rightarrow> None
       | target # rest \<Rightarrow> do {
           (_, n) \<leftarrow> process_read_record cfg p target
             (upd_sess p (\<lambda>s. s\<lparr> ss_recv_q := rest, ss_recv_q_cnt := ss_recv_q_cnt s - 1 \<rparr>) n);
           f cfg p n
         }
     else Some n) = Some n'"
  show "served p A n \<longrightarrow> served p A n'"
  proof
    assume s: "served p A n"
    let ?s = "nic_sess n p"
    show "served p A n'"
    proof (cases "ss_recv_q_cnt ?s > 0 \<and> \<not> ss_waiting_crypto ?s")
      case False then show ?thesis using s run by (auto simp: Let_def split: if_splits)
    next
      case True
      then obtain target rest ret m where
        m: "process_read_record cfg p target (upd_sess p (\<lambda>s. s\<lparr> ss_recv_q := rest, ss_recv_q_cnt := ss_recv_q_cnt s - 1 \<rparr>) n) = Some (ret, m)"
        and f: "f cfg p m = Some n'" using run by (auto simp: Let_def split: list.splits bind_splits if_splits)
      have "serves p n m" using m by (auto simp: sess_sz_def elim!: serves_elims intro!: kept_upd_sess)
      then have "served p A m" using s True by (intro served_step[OF s]) (auto simp: cleared_def Let_def)
      with IH[OF f] show ?thesis by simp
    qed
  qed
qed

lemma crypto_done_s [serves_elims]:
  assumes "crypto_done lib p data m = Some (ret, n')" "kept p n m"
  shows "serves p n n'"
proof (cases "ss_handshake_state (nic_sess m p) = HELLO_REQUEST")
  case True with assms show ?thesis
    by (auto simp: crypto_done_def Let_def split: bind_splits option.splits elim!: serves_elims kept_elims)
next
  case False with assms show ?thesis
    by (auto simp: crypto_done_def Let_def split: if_splits intro!: kept_serves_refl elim!: kept_elims)
qed

lemma get_processed_crypto_s:
  assumes "get_processed_crypto lib p m = Some n'" "kept p n m"
  shows "serves p n n'"
proof (cases "ss_completed_crypto (nic_sess m p)")
  case False with assms show ?thesis by (auto simp: get_processed_crypto_def intro: kept_serves_refl)
next
  case True
  let ?m = "upd_sess p (\<lambda>s. s\<lparr> ss_pending_pka_op := None \<rparr>) m"
  let ?g = "\<lambda>k. upd_sess p (\<lambda>s. s\<lparr> ss_waiting_crypto := False, ss_completed_crypto := False \<rparr>) k"
  from True assms(1) obtain op ret k where k: "crypto_done lib p (op_data (n_ops m op)) ?m = Some (ret, k)"
    and n': "n' = k \<or> delete_op op (?g k) = Some n'"
    by (auto simp: get_processed_crypto_def split: bind_splits if_splits)
  have "kept p n ?m" using assms(2) by (auto simp: sess_sz_def intro: kept_upd_sess)
  with k have "serves p n k" by (auto elim!: serves_elims)
  moreover from this have "serves p n (?g k)"
    by (rule serves_quiet) (auto simp: sess_sz_def cleared_def Let_def upd_sess_def upd_tcp_def
      intro!: quiet_upd_sess[unfolded upd_sess_def upd_tcp_def])
  ultimately show ?thesis using n' by (auto elim: serves_elims)
qed

lemma forward_app_data_k: "forward_app_data p m = Some n' \<Longrightarrow> kept p n m \<Longrightarrow> kept p n n'"
  by (auto simp: forward_app_data_def Let_def conn_sz_def tcp_flow_def split: if_splits bind_splits
    elim!: kept_elims intro!: kept_upd_tcp)

text \<open>What the main loop does for a connection.\<close>

lemma serve_connection_served:
  assumes "serve_connection cfg p n = Some n'" "served p A n"
  shows "served p A n'"
proof -
  from assms(1) obtain a b c d where a: "process_session_read cfg p n = Some a"
    and b: "get_processed_crypto (nc_lib cfg) p a = Some b" and c: "remove_hws p (apply_hws p b) = Some c"
    and d: "forward_app_data p c = Some d" and e: "send_remain_server_records cfg p d = Some n'"
    by (auto simp: serve_connection_def split: bind_splits)
  have A: "served p A a" using process_session_read_served[OF a] assms(2) by blast
  have B: "served p A b" by (rule served_step[OF A get_processed_crypto_s[OF b kept_refl]])
    (use b in \<open>auto simp: get_processed_crypto_def cleared_def Let_def\<close>)
  have C: "served p A c" by (rule served_step[OF B remove_hws_s[OF c apply_hws_k[OF kept_refl]]])
    (use c in \<open>auto simp: remove_hws_def apply_hws_def cleared_def Let_def\<close>)
  have D: "served p A d" by (rule served_step[OF C kept_serves_refl[OF forward_app_data_k[OF d kept_refl]]])
    (use d in \<open>auto simp: forward_app_data_def cleared_def Let_def\<close>)
  show ?thesis by (rule served_step[OF D kept_serves_refl[OF send_remain_server_records_k[OF e kept_refl]]])
    (use e in \<open>auto simp: send_remain_server_records_def cleared_def Let_def handshake_type_defs\<close>)
qed


section \<open>Packets\<close>

lemma touch_k: "kept p n m \<Longrightarrow> kept p n (touch q m)"
  unfolding touch_def by (rule kept_upd_tcp) (simp_all add: conn_sz_def tcp_flow_def)

lemma kept_bufs: "kept p n n' \<Longrightarrow> bufs_wf n \<Longrightarrow> bufs_wf n'"
  by (simp add: kept_def)

text \<open>The loop over the records of a segment.  A connection that is in the table afterwards has been there all the time.\<close>

lemma process_new_record_step:
  assumes "pkt \<noteq> []" "current_record p pkt n = Some (Some r, a)" "k = min (rc_length (n_records a r) - rc_current_len (n_records a r)) (length pkt)"
    and "k \<noteq> 0" "rec_put (rc_data (n_records a r)) (rc_current_len (n_records a r)) (take k pkt) (n_records a r) = Some y"
    and "z = y\<lparr> rc_current_len := rc_current_len y + k \<rparr>" "b = upd_rec r (\<lambda>_. z) a"
  shows "process_new_record cfg p pkt n =
    (if rc_current_len z = rc_length z then
       (case record_complete cfg p r b of None \<Rightarrow> None | Some e \<Rightarrow> process_new_record cfg p (drop k pkt) e)
     else process_new_record cfg p (drop k pkt) b)"
  by (subst process_new_record.simps) (simp add: assms(1,2,4) assms(3)[symmetric] assms(5) assms(6)[symmetric] assms(7)[symmetric] Let_def split: option.split)

lemma process_new_record_run:
  assumes "process_new_record cfg p pkt n = Some (d, n')"
  shows "(bufs_wf n \<longrightarrow> bufs_wf n') \<and> act n' \<subseteq> act n \<and> (conns_inv n \<and> p \<in> act n' \<longrightarrow> conns_inv n' \<and> act n' = act n)"
  using assms
proof (induction cfg p pkt n arbitrary: d n' rule: process_new_record.induct)
  case (1 cfg p pkt n)
  show ?case
  proof (cases "pkt = []")
    case True with "1.prems" show ?thesis by (subst (asm) process_new_record.simps) auto
  next
    case pkt: False
    then obtain c a where a: "current_record p pkt n = Some (c, a)"
      using "1.prems" by (subst (asm) process_new_record.simps) (auto split: option.splits)
    then have qa: "kept p n a" by (auto elim!: kept_elims)
    show ?thesis
    proof (cases c)
      case None with pkt a "1.prems" qa show ?thesis
        by (subst (asm) process_new_record.simps) (auto simp: kept_def)
    next
      case (Some r)
      let ?x = "n_records a r"
      let ?k = "min (rc_length ?x - rc_current_len ?x) (length pkt)"
      from Some pkt a "1.prems" obtain y where k: "?k \<noteq> 0"
        and y: "rec_put (rc_data ?x) (rc_current_len ?x) (take ?k pkt) ?x = Some y"
        by (subst (asm) process_new_record.simps) (auto simp: Let_def split: option.splits if_splits)
      define z where "z = y\<lparr> rc_current_len := rc_current_len y + ?k \<rparr>"
      define b where "b = upd_rec r (\<lambda>_. z) a"
      have qb: "kept p n b" unfolding b_def using qa rec_put_sz[OF y] by (intro kept_upd_rec) (simp_all add: z_def)
      note IH = "1.IH"[OF pkt a refl Some refl refl k y z_def b_def]
      note eq = process_new_record_step[OF pkt a[unfolded Some] refl k y z_def b_def, of cfg]
      show ?thesis
      proof (cases "rc_current_len z = rc_length z")
        case True
        then obtain e where e: "record_complete cfg p r b = Some e" and r: "process_new_record cfg p (drop ?k pkt) e = Some (d, n')"
          using eq "1.prems" by (auto split: option.splits)
        have "serves p n e" using e qb by (auto elim!: serves_elims)
        with IH(1)[OF True e r] show ?thesis by (auto simp: serves_def)
      next
        case False
        then have r: "process_new_record cfg p (drop ?k pkt) b = Some (d, n')"
          using eq "1.prems" by auto
        with IH(2)[OF False r] qb show ?thesis by (auto simp: kept_def)
      qed
    qed
  qed
qed

lemma search_packet_iff:
  assumes "conns_inv n" "search_packet pkt n = Some res"
  shows "res = Some p \<longleftrightarrow> p \<in> act n \<and> nic_key n p = (ld32 pkt 26, ld32 pkt 30, ld16 pkt 34, ld16 pkt 36)"
proof -
  have t: "nic_table_inv (nic_key n) (conn_idle n) (n_active n)" using assms(1) by (simp add: conns_inv_def)
  have "nic_search (nic_key n) (conn_idle n) (n_active n) (ld32 pkt 26, ld32 pkt 30, ld16 pkt 34, ld16 pkt 36) = res"
    using assms(2) by (auto simp: search_packet_def search_tcp_connection_def nic_search_def split: outcome.splits)
  with nic_search_iff[OF t, of "(ld32 pkt 26, ld32 pkt 30, ld16 pkt 34, ld16 pkt 36)" p] show ?thesis by simp
qed

lemma save_app_data_k: "save_app_data p pkt len m = Some n' \<Longrightarrow> kept q n m \<Longrightarrow> kept q n n'"
  by (auto simp: save_app_data_def Let_def conn_sz_def tcp_flow_def rd_seg_def split: if_splits bind_splits intro!: kept_upd_tcp)

lemma save_new_syn_k: "save_new_syn p pkt len m = Some n' \<Longrightarrow> kept q n m \<Longrightarrow> kept q n n'"
  by (auto simp: save_new_syn_def Let_def conn_sz_def tcp_flow_def split: if_splits bind_splits intro!: kept_upd_tcp)

lemma send_synack_packet_q: "send_synack_packet port pkt ck m = Some n' \<Longrightarrow> quiet n m \<Longrightarrow> quiet n n'"
  by (auto simp: send_synack_packet_def Let_def split: if_splits elim!: quiet_elims)

lemma insert_packet_bufs: "insert_packet lib port pkt len n = Some (p, n') \<Longrightarrow> bufs_wf n \<Longrightarrow> bufs_wf n'"
  by (auto simp: insert_packet_def insert_tcp_connection_def pop_free_connection_def Let_def bufs_wf_def upd_tcp_def conn_sz_def
    split: bind_splits list.splits if_splits)

text \<open>The invariant of a worker.\<close>

definition nic_ok :: "nic \<Rightarrow> bool" where
  "nic_ok n \<longleftrightarrow> conns_inv n \<and> bufs_wf n"

lemma quiet_ok: "quiet n n' \<Longrightarrow> nic_ok n \<Longrightarrow> nic_ok n'"
  by (auto simp: nic_ok_def quiet_def conns_inv_same)

lemma kept_ok: "kept p n n' \<Longrightarrow> p \<in> act n \<Longrightarrow> nic_ok n \<Longrightarrow> nic_ok n'"
  by (auto simp: nic_ok_def kept_def)

lemma insert_packet_ok:
  assumes "insert_packet lib port pkt len n = Some (p, n')" "nic_ok n"
    and "\<And>q. q \<in> act n \<Longrightarrow> nic_key n q \<noteq> (ld32 pkt 26, ld32 pkt 30, ld16 pkt 34, ld16 pkt 36)"
  shows "nic_ok n'"
  using insert_tcp_connection_run(1)[OF _ assms(1)[unfolded insert_packet_def] assms(3)] insert_packet_bufs[OF assms(1)] assms(2)
  by (simp add: nic_ok_def)

lemma process_syn_packet_ok:
  assumes "process_syn_packet lib port pkt n = Some n'" "nic_ok n"
  shows "nic_ok n'"
proof -
  have inv: "conns_inv n" using assms(2) by (simp add: nic_ok_def)
  obtain res where res: "search_packet pkt n = Some res" using assms(1) by (auto simp: process_syn_packet_def Let_def split: bind_splits)
  note iff = search_packet_iff[OF inv res]
  show ?thesis
  proof (cases res)
    case None
    then obtain p m where m: "insert_packet lib port pkt (pkt_payload_len pkt) n = Some (p, m)"
      and s: "send_synack_packet (unat port) pkt (tc_cookie (n_conns m p)) m = Some n'"
      using assms(1) res by (auto simp: process_syn_packet_def Let_def split: bind_splits)
    have "nic_ok m" using insert_packet_ok[OF m assms(2)] iff None by blast
    then show ?thesis by (rule quiet_ok[OF send_synack_packet_q[OF s quiet_refl]])
  next
    case (Some p)
    then have p: "p \<in> act n" "nic_key n p = (ld32 pkt 26, ld32 pkt 30, ld16 pkt 34, ld16 pkt 36)" using iff by simp_all
    show ?thesis
    proof (cases "validate_syn_packet (n_conns n p) (ntohl (ld32 pkt 38)) (ntohl (ld32 pkt 42))")
      case TCP_SYN_RETRANS
      then show ?thesis using assms res Some quiet_ok[OF send_synack_packet_q[OF _ quiet_refl]]
        by (auto simp: process_syn_packet_def Let_def)
    next
      case TCP_SYN_NEW
      then obtain a b c q where a: "save_new_syn p pkt (pkt_payload_len pkt) n = Some a" and b: "remove_session p a = Some b"
        and c: "send_synack_packet (unat port) pkt (tc_cookie (n_conns b p)) b = Some c"
        and d: "insert_packet lib port pkt (pkt_payload_len pkt) c = Some (q, n')"
        using assms(1) res Some by (auto simp: process_syn_packet_def Let_def split: bind_splits)
      have ka: "kept p n a" by (rule save_new_syn_k[OF a kept_refl])
      have oa: "conns_inv a" "p \<in> act a" "bufs_wf a" using kept_ok[OF ka p(1) assms(2)] p(1) ka by (simp_all add: nic_ok_def kept_def)
      have key: "nic_key a = nic_key n" using a
        by (auto simp: save_new_syn_def Let_def upd_tcp_def tcp_flow_def split: if_splits bind_splits)
      note rb = remove_session_run[OF oa(1,2) b]
      have qc: "same_tcp b c" using send_synack_packet_q[OF c quiet_refl] by (simp add: quiet_def)
      have "nic_ok b" using rb(1) remove_session_cleared(4)[OF b oa(3)] by (simp add: nic_ok_def)
      then have oc: "nic_ok c" by (rule quiet_ok[OF send_synack_packet_q[OF c quiet_refl]])
      have "nic_key c x \<noteq> (ld32 pkt 26, ld32 pkt 30, ld16 pkt 34, ld16 pkt 36)" if "x \<in> act c" for x
      proof
        assume "nic_key c x = (ld32 pkt 26, ld32 pkt 30, ld16 pkt 34, ld16 pkt 36)"
        moreover have x: "x \<in> act a" "x \<noteq> p" using that rb(2) same_tcpD(1)[OF qc] by auto
        moreover have "nic_key c x = nic_key a x" by (rule trans[OF fun_cong[OF same_tcpD(5)[OF qc]] tcp_part_fields(2)[OF rb(4)[OF x(2)]]])
        ultimately have "nic_key a x = nic_key a p" using p(2) fun_cong[OF key, of p] by simp
        then show False using x oa(1,2) by (auto simp: conns_inv_def nic_table_inv_def table_inv_def dest: inj_onD)
      qed
      then show ?thesis by (rule insert_packet_ok[OF d oc])
    qed
  qed
qed

lemma process_normal_seq_case_ok:
  assumes "process_normal_seq_case cfg p seq_no ack_no payload n = Some n'" "nic_ok n" "p \<in> act n"
  shows "bufs_wf n'" "act n' = act n \<Longrightarrow> conns_inv n'"
proof -
  define a where "a = touch p (upd_tcp p (\<lambda>c. c\<lparr> tc_last_recv_ack := ack_no, tc_last_recv_seq := seq_no,
       tc_last_recv_len := of_nat (length payload), tc_state := TCP_SESSION_RECEIVED \<rparr>) n)"
  have busy: "\<not> conn_idle n p" using assms(2,3) member_busy by (auto simp: nic_ok_def)
  have "conns_inv (upd_tcp p (\<lambda>c. c\<lparr> tc_last_recv_ack := ack_no, tc_last_recv_seq := seq_no,
       tc_last_recv_len := of_nat (length payload), tc_state := TCP_SESSION_RECEIVED \<rparr>) n)"
    using assms(2) busy by (intro conns_inv_upd_tcp) (simp_all add: nic_ok_def tcp_flow_def)
  moreover have "bufs_wf (upd_tcp p (\<lambda>c. c\<lparr> tc_last_recv_ack := ack_no, tc_last_recv_seq := seq_no,
       tc_last_recv_len := of_nat (length payload), tc_state := TCP_SESSION_RECEIVED \<rparr>) n)"
    using assms(2) bufs_wfD(2)[of n p] by (intro bufs_wf_upd_tcp) (simp_all add: nic_ok_def conn_sz_def)
  ultimately have a: "conns_inv a" "bufs_wf a" "act a = act n"
    using touch_k[OF kept_refl, of p _ p] assms(3) by (auto simp: a_def kept_def upd_tcp_def)
  from assms(1) obtain d b where b: "process_ssl_packet cfg p payload a = Some (d, b)"
    and n': "n' = b \<or> send_tcp_packet p [] 0 TCP_FLAG_ACK b = Some n'"
    by (auto simp: process_normal_seq_case_def Let_def a_def split: bind_splits if_splits)
  have r: "(bufs_wf a \<longrightarrow> bufs_wf b) \<and> act b \<subseteq> act a \<and> (conns_inv a \<and> p \<in> act b \<longrightarrow> conns_inv b \<and> act b = act a)"
    using b process_new_record_run[of cfg p payload a d b] by (auto simp: process_ssl_packet_def split: if_splits)
  have k: "kept p b n'" using n' by (auto elim!: kept_elims)
  show "bufs_wf n'" using r a k by (auto simp: kept_def)
  show "conns_inv n'" if "act n' = act n"
  proof -
    have "act b = act n'" using k by (simp add: kept_def)
    with that assms(3) have p: "p \<in> act b" by simp
    with r a(1) have "conns_inv b" by simp
    with p k show ?thesis by (simp add: kept_def)
  qed
qed

lemma process_handshake_packet_ok:
  assumes "process_handshake_packet cfg pkt n = Some n'" "nic_ok n"
  shows "bufs_wf n'" "act n' = act n \<Longrightarrow> conns_inv n'"
proof -
  have inv: "conns_inv n" using assms(2) by (simp add: nic_ok_def)
  obtain res where res: "search_packet pkt n = Some res" using assms(1) by (auto simp: process_handshake_packet_def Let_def split: bind_splits)
  have "bufs_wf n' \<and> (act n' = act n \<longrightarrow> conns_inv n')"
  proof (cases res)
    case None with assms res show ?thesis by (simp add: process_handshake_packet_def Let_def nic_ok_def)
  next
    case (Some p)
    then have p: "p \<in> act n" using search_packet_iff[OF inv res] by simp
    from assms(1) res Some consider "kept p n n'"
      | payload where "process_normal_seq_case cfg p (ntohl (ld32 pkt 38)) (ntohl (ld32 pkt 42)) payload n = Some n'"
      using save_app_data_k[OF _ kept_refl, of p pkt _ n n' p] send_tcp_packet_k[OF _ kept_refl, of p "[]" 0 TCP_FLAG_ACK n n']
      by (auto simp: process_handshake_packet_def process_over_seq_case_def Let_def
        split: if_splits option.splits tcp_sequence_check.splits bind_splits)
    then show ?thesis using process_normal_seq_case_ok[OF _ assms(2) p] kept_ok[OF _ p assms(2)] by cases (auto simp: nic_ok_def)
  qed
  then show "bufs_wf n'" "act n' = act n \<Longrightarrow> conns_inv n'" by simp_all
qed

lemma process_ack_packet_ok:
  assumes "process_ack_packet pkt n = Some n'" "nic_ok n"
  shows "nic_ok n'"
proof -
  have inv: "conns_inv n" using assms(2) by (simp add: nic_ok_def)
  obtain res where res: "search_packet pkt n = Some res" using assms(1) by (auto simp: process_ack_packet_def Let_def split: bind_splits)
  show ?thesis
  proof (cases res)
    case None with assms res show ?thesis by (simp add: process_ack_packet_def Let_def)
  next
    case (Some p)
    then have p: "p \<in> act n" using search_packet_iff[OF inv res] by simp
    have "kept p n n'" using assms(1) res Some touch_k[OF kept_refl] save_app_data_k[OF _ kept_refl]
      by (auto simp: process_ack_packet_def Let_def split: if_splits)
    then show ?thesis using p assms(2) by (rule kept_ok)
  qed
qed

lemma process_fin_packet_ok: "process_fin_packet port pkt n = Some n' \<Longrightarrow> nic_ok n \<Longrightarrow> nic_ok n'"
  by (rule quiet_ok) (auto simp: process_fin_packet_def send_raw_reset_def split: bind_splits option.splits if_splits elim!: quiet_elims)

lemma process_rst_packet_ok: "process_rst_packet port pkt n = Some n' \<Longrightarrow> nic_ok n \<Longrightarrow> nic_ok n'"
  by (rule quiet_ok) (auto simp: process_rst_packet_def split: bind_splits option.splits if_splits elim!: quiet_elims)

lemma send_rst_conn_meta_q: "send_rst_conn_meta port p m = Some (ret, n') \<Longrightarrow> quiet n m \<Longrightarrow> quiet n n'"
  by (auto simp: send_rst_conn_meta_def Let_def sess_sz_def split: bind_splits elim!: quiet_elims intro!: quiet_upd_sess)

text \<open>A packet of the host changes flags of a connection that is in the table.\<close>

lemma nic_ok_upd_tcp:
  assumes "nic_ok n" "\<And>c. conn_sz c \<Longrightarrow> conn_sz (f c)" "\<And>c. tcp_flow (f c) = tcp_flow c" "\<And>c. tc_state (f c) = tc_state c"
  shows "nic_ok (upd_tcp p f n)"
  using assms conns_inv_upd_tcp[of n f p] bufs_wf_upd_tcp[of n f p] bufs_wfD(2)[of n p] by (simp add: nic_ok_def)

lemma process_host_mig_fin_ok:
  assumes "process_host_mig_fin pkt n = Some (ret, n')" "nic_ok n"
  shows "nic_ok n'"
proof -
  from assms(1) consider "n' = n" | p where "n' = upd_tcp p (\<lambda>c. c\<lparr> tc_recv_mig_fin := True \<rparr>) n"
    | p q f q' r a b where "put_frame q f n = Some a" "send_rst_conn_meta q' p a = Some (r, b)"
      "n' = upd_tcp p (\<lambda>c. c\<lparr> tc_need_to_send_rst_meta := True \<rparr>) b"
    unfolding process_host_mig_fin_def Let_def send_raw_reset_def by (auto split: bind_splits option.splits if_splits)
  moreover have "nic_ok b" if "put_frame q f n = Some a" "send_rst_conn_meta q' p a = Some (r, b)" for q f q' p r a b
    by (rule quiet_ok[OF send_rst_conn_meta_q[OF that(2) put_frame_q[OF that(1) quiet_refl]] assms(2)])
  ultimately show ?thesis using assms(2) by cases (auto simp: conn_sz_def tcp_flow_def intro!: nic_ok_upd_tcp)
qed

lemma process_host_packet_ok:
  assumes "process_host_packet port pkt ty n = Some (ret, n')" "nic_ok n"
  shows "nic_ok n'"
proof -
  have close: "nic_ok m" if "process_host_close pkt n = Some (r, m)" for r m
    using that assms(2) by (auto simp: process_host_close_def Let_def conn_sz_def tcp_flow_def
      split: bind_splits option.splits if_splits intro!: nic_ok_upd_tcp)
  have frame: "nic_ok m" if "put_frame q pkt n = Some m" for q m
    using that assms(2) by (blast intro: quiet_ok put_frame_q quiet_refl)
  show ?thesis using assms process_host_mig_fin_ok[OF _ assms(2)] close frame
    by (auto simp: process_host_packet_def split: if_splits option.splits recv_packet_type.splits bind_splits)
qed

text \<open>A segment with records keeps the invariant when it does not remove its connection.\<close>

lemma process_packet_ok:
  assumes "process_packet cfg port pkt n = Some n'" "nic_ok n"
    and "validate_packet_type (unat port) pkt (pkt_payload_len pkt) = Some SSL_HANDSHAKE \<Longrightarrow> act n' = act n"
  shows "nic_ok n'"
proof -
  let ?ty = "validate_packet_type (unat port) pkt (pkt_payload_len pkt)"
  have run: "(case ?ty of
         None \<Rightarrow> Some n
       | Some SSL_HANDSHAKE \<Rightarrow> process_handshake_packet cfg pkt n
       | Some TCP_SYN \<Rightarrow> process_syn_packet (nc_lib cfg) port pkt n
       | Some TCP_ACK \<Rightarrow> process_ack_packet pkt n
       | Some HOST_MIG_FIN \<Rightarrow> map_option snd (process_host_packet (unat port) pkt ?ty n)
       | Some HOST_CLOSE \<Rightarrow> map_option snd (process_host_packet (unat port) pkt ?ty n)
       | Some TCP_FIN \<Rightarrow> process_fin_packet port pkt n
       | Some TCP_RST \<Rightarrow> process_rst_packet port pkt n
       | Some TCP_SYNACK \<Rightarrow> Some n) = Some n'"
    using assms(1) by (simp add: process_packet_def Let_def split: if_splits)
  have host: "nic_ok n'" if "map_option snd (process_host_packet (unat port) pkt ?ty n) = Some n'"
    using that process_host_packet_ok[OF _ assms(2)] by auto
  show ?thesis
  proof (cases ?ty)
    case None with run assms(2) show ?thesis by simp
  next
    case (Some ty)
    then show ?thesis
    proof (cases ty)
      case SSL_HANDSHAKE
      with run Some have "process_handshake_packet cfg pkt n = Some n'" by simp
      from process_handshake_packet_ok[OF this assms(2)] assms(3) Some SSL_HANDSHAKE show ?thesis by (simp add: nic_ok_def)
    qed (use run Some host assms(2) process_syn_packet_ok process_ack_packet_ok process_fin_packet_ok process_rst_packet_ok in auto)
  qed
qed

end
