(* ===== verification/Nic_Worker.thy ===== *)
theory Nic_Worker
  imports Nic_Inv
begin

text \<open>
  Start-up of the SmartNIC application and the runs of a worker: the arguments and sizes of
  \<^verbatim>\<open>src/smartnic/offload_ssl/src/main.c\<close>, \<^verbatim>\<open>thread_local_init\<close> of \<^verbatim>\<open>src/tcp.c\<close>, and the events that change the state of
  a worker afterwards, with the invariants of every reachable state.
\<close>


section \<open>Arguments and sizes\<close>

text \<open>\<^verbatim>\<open>atoi\<close> of the C library; a number outside of \<^verbatim>\<open>int\<close> is undefined.\<close>

definition isspace :: "char \<Rightarrow> bool" where
  "isspace c \<longleftrightarrow> c = CHR '' '' \<or> (9 \<le> (of_char c :: nat) \<and> (of_char c :: nat) \<le> 13)"

definition isdigit :: "char \<Rightarrow> bool" where
  "isdigit c \<longleftrightarrow> 48 \<le> (of_char c :: nat) \<and> (of_char c :: nat) \<le> 57"

definition digits_val :: "string \<Rightarrow> int" where
  "digits_val ds = foldl (\<lambda>a c. 10 * a + (int (of_char c) - 48)) 0 ds"

definition atoi :: "string \<Rightarrow> int option" where
  "atoi s =
    (let s = dropWhile isspace s;
         neg = (s \<noteq> [] \<and> hd s = CHR ''-'');
         s = (if s \<noteq> [] \<and> (hd s = CHR ''-'' \<or> hd s = CHR ''+'') then tl s else s);
         v = digits_val (takeWhile isdigit s);
         v = (if neg then - v else v)
     in if - (2 ^ 31) \<le> v \<and> v < 2 ^ 31 then Some v else None)"

definition MAX_TCP_PORT :: int where "MAX_TCP_PORT = 65536"
definition MAX_HOST_THREADS :: int where "MAX_HOST_THREADS = 16"

record main_opts =
  mo_max_conn :: int
  mo_host_threads_num :: int

text \<open>The options in the order in which \<^verbatim>\<open>getopt\<close> delivers them.  The results \<^verbatim>\<open>true\<close> and \<^verbatim>\<open>false\<close> are 1 and 0.\<close>

fun parse_args :: "(char \<times> string) list \<Rightarrow> main_opts \<Rightarrow> (int \<times> main_opts) option" where
  "parse_args [] mo = Some (1, mo)"
| "parse_args ((opt, optarg) # opts) mo =
    (if opt = CHR ''m'' then do {
       v \<leftarrow> atoi optarg;
       let mo = mo\<lparr> mo_max_conn := v \<rparr>;
       if v > MAX_TCP_PORT then Some (0, mo) else parse_args opts mo
     }
     else if opt = CHR ''t'' then do {
       v \<leftarrow> atoi optarg;
       let mo = mo\<lparr> mo_host_threads_num := v \<rparr>;
       if v \<le> 0 then Some (0, mo)
       else if v > MAX_HOST_THREADS then Some (0, mo)
       else parse_args opts mo
     }
     else if opt = CHR ''h'' then Some (0, mo)
     else parse_args opts mo)"

text \<open>The loop that doubles the size of the rings: an \<^verbatim>\<open>int\<close>, whose overflow is undefined.\<close>

function ring_cnt_loop :: "int \<Rightarrow> int \<Rightarrow> int option" where
  "ring_cnt_loop local_max_conn local_ring_cnt =
    (if local_ring_cnt \<le> local_max_conn then
       if local_ring_cnt \<le> 0 \<or> local_ring_cnt * 2 \<ge> 2 ^ 31 then None
       else ring_cnt_loop local_max_conn (local_ring_cnt * 2)
     else Some local_ring_cnt)"
  by pat_completeness auto
termination
  by (relation "measure (\<lambda>(m, c). nat (m + 1 - c))") auto

declare ring_cnt_loop.simps [simp del]

text \<open>The sizes that \<^verbatim>\<open>main\<close> computes for \<open>lcores\<close> cores, in the unsigned arithmetic of \<^verbatim>\<open>rte_lcore_count\<close>.  The result of
  \<^verbatim>\<open>parse_args\<close> is compared with 0, which it never falls below.\<close>

definition main_sizes :: "u32 \<Rightarrow> (char \<times> string) list \<Rightarrow> (main_opts \<times> int \<times> int) option" where
  "main_sizes lcores opts = do {
     (ret, mo) \<leftarrow> parse_args opts \<lparr> mo_max_conn = 0, mo_host_threads_num = 0 \<rparr>;
     if ret < 0 then None
     else if lcores - 1 = 0 then None
     else do {
       let local_max_conn = sint ((word_of_int (mo_max_conn mo) :: u32) div (lcores - 1));
       local_ring_cnt \<leftarrow> ring_cnt_loop local_max_conn 1;
       Some (mo, local_max_conn, local_ring_cnt)
     }
   }"


section \<open>Initialisation of a thread\<close>

text \<open>The context as \<^verbatim>\<open>calloc\<close> leaves it, with empty queues and the table of the connections; the network, the random numbers and
  the clocks are those of \<open>n\<close>.  \<open>sz\<close> is the size of an operand buffer.\<close>

definition ctx_calloc :: "nat \<Rightarrow> tcp_ptr hashtable \<Rightarrow> nic \<Rightarrow> nic" where
  "ctx_calloc sz ht n = n\<lparr>
     n_conns := (\<lambda>_. tcp_zero sz), n_active := ht, n_active_cnt := 0, n_free_q := [], n_free_cnt := 0,
     n_records := (\<lambda>_. record_zero), n_record_pool := [], n_free_record_cnt := 0, n_using_record_cnt := 0,
     n_ops := (\<lambda>_. op_zero), n_op_pool := [], n_free_op_cnt := 0, n_using_op_cnt := 0,
     n_cur_crypto_cnt := 0, n_completed_crypto_cnt := 0, n_decrease := False, n_wmbufs := (\<lambda>_. []) \<rparr>"

text \<open>One turn of the loop over the connections.\<close>

definition init_conn :: "nat \<Rightarrow> nat \<Rightarrow> nic \<Rightarrow> nic option" where
  "init_conn sz j n =
    (if j \<in> set (n_free_q n) then None
     else do {
       let n = upd_tcp j (\<lambda>_. tcp_zero sz) n;
       let n = n\<lparr> n_free_q := n_free_q n @ [j], n_free_cnt := n_free_cnt n + 1 \<rparr>;
       let n = upd_tcp j clear_tcp_connection n;
       let n = upd_tcp j (\<lambda>c. c\<lparr> tc_session_id := of_nat j \<rparr>) n;
       clear_ssl_session j n
     })"

text \<open>\<open>oks\<close> tells whether the memory for the table and for the ring is there; another failed allocation ends the program
  as well.  A worker has three records and three operations for each connection; core 0 has no records and five operations for
  each connection of all workers.  The other two rings have the size of the first; one is not used and nothing is put into the other.\<close>

definition thread_local_init ::
  "nat \<Rightarrow> int \<Rightarrow> int \<Rightarrow> int \<Rightarrow> string \<Rightarrow> nat \<Rightarrow> bool \<times> bool \<times> bool \<Rightarrow> nic \<Rightarrow> nic option" where
  "thread_local_init core_id max_conn local_max_conn local_ring_cnt name sz oks n = do {
     ht \<leftarrow> create_ht (fst oks) (fst (snd oks)) NUM_BINS;
     let n = ctx_calloc sz ht n;
     n \<leftarrow> fold_steps (init_conn sz) [0..<nat local_max_conn] n;
     ring \<leftarrow> (case sj_ring_create (snd (snd oks)) name (word_of_int local_ring_cnt) of Ok r \<Rightarrow> Some r | Stop \<Rightarrow> None);
     let n = n\<lparr> n_submit_ring := ring \<rparr>;
     let records = (if core_id \<noteq> 0 then nat (local_max_conn * 3) else 0);
     let ops = (if core_id = 0 then nat (max_conn * 5) else nat (local_max_conn * 3));
     Some (n\<lparr> n_record_pool := [0..<records], n_free_record_cnt := int records,
              n_op_pool := [0..<ops], n_free_op_cnt := int ops \<rparr>)
   }"


section \<open>Events of a worker\<close>

text \<open>A received packet, the loop over the connections, the two steps of core 0, the transmission of a port's frames, and the
  tick of the cookie.\<close>

datatype nic_event =
    Ev_packet u16 bytes
  | Ev_serve
  | Ev_submit "op_ptr \<Rightarrow> bytes"
  | Ev_complete op_ptr "pka_operand list"
  | Ev_transmit u16
  | Ev_tick

definition serve_all :: "nic_cfg \<Rightarrow> nic \<Rightarrow> nic option" where
  "serve_all cfg n = fold_steps (serve_connection cfg) (concat (ht_table (n_active n))) n"

fun nic_step :: "nic_cfg \<Rightarrow> nic_event \<Rightarrow> nic \<Rightarrow> nic option" where
  "nic_step cfg (Ev_packet port pkt) n = process_packet cfg port pkt n"
| "nic_step cfg Ev_serve n = serve_all cfg n"
| "nic_step cfg (Ev_submit rng) n = map_option snd (handle_submitted_pka cfg rng n)"
| "nic_step cfg (Ev_complete op results) n = handle_completed_pka op results n"
| "nic_step cfg (Ev_transmit port) n = Some (snd (send_pkts (unat port) n))"
| "nic_step cfg Ev_tick n = Some (update_cookie n)"

text \<open>A segment holds at most the rest of the record that is being read, or at most one new record.\<close>

definition one_record :: "tcp_ptr \<Rightarrow> bytes \<Rightarrow> nic \<Rightarrow> bool" where
  "one_record p payload n \<longleftrightarrow>
    (case ss_current_read_record (nic_sess n p) of
       Some r \<Rightarrow> length payload \<le> rc_length (n_records n r) - rc_current_len (n_records n r)
     | None \<Rightarrow> length payload \<ge> RECORD_HEADER_SIZE \<longrightarrow>
         length payload \<le> unat (ntohs (ld16 payload 3)) + RECORD_HEADER_SIZE)"

text \<open>A segment that makes the worker abort the session has nothing behind the record that did it.\<close>

definition clean :: "nic_event \<Rightarrow> nic \<Rightarrow> nic \<Rightarrow> bool" where
  "clean ev n n' \<longleftrightarrow> (case ev of
      Ev_packet port pkt \<Rightarrow> validate_packet_type (unat port) pkt (pkt_payload_len pkt) = Some SSL_HANDSHAKE \<longrightarrow>
        act n' = act n \<or>
        (\<forall>p. search_packet pkt n = Some (Some p) \<longrightarrow>
           one_record p (seg (34 + hdr_len pkt) (unat (pkt_payload_len pkt)) pkt) n)
    | _ \<Rightarrow> True)"

inductive nic_reach :: "nic_cfg \<Rightarrow> nic \<Rightarrow> nic \<Rightarrow> bool" for cfg n0 where
  reach_start: "nic_reach cfg n0 n0"
| reach_step: "nic_reach cfg n0 n \<Longrightarrow> nic_step cfg ev n = Some n' \<Longrightarrow> clean ev n n' \<Longrightarrow> nic_reach cfg n0 n'"



section \<open>Initialisation\<close>

lemma fold_steps_append: "fold_steps f (xs @ ys) n = Option.bind (fold_steps f xs n) (fold_steps f ys)"
  by (induction xs arbitrary: n) (auto split: bind_splits)

text \<open>The state in the middle of the loop over the connections.\<close>

definition init_upto :: "nat \<Rightarrow> tcp_ptr hashtable \<Rightarrow> nat \<Rightarrow> nic \<Rightarrow> bool" where
  "init_upto sz ht j n \<longleftrightarrow> n_free_q n = [0..<j] \<and> n_free_cnt n = int j \<and> n_active n = ht \<and> n_active_cnt n = 0 \<and>
     (\<forall>p. conn_idle n p) \<and> bufs_wf n \<and> n_wmbufs n = (\<lambda>_. [])"

lemma sess_zero_sz [simp]: "sess_sz (sess_zero sz)"
  by (simp add: sess_sz_def sess_zero_def tls13_ctx_zero_def Let_def)

lemma tcp_zero_sz [simp]: "conn_sz (tcp_zero sz)"
  by (simp add: conn_sz_def tcp_zero_def)

lemma conn_sz_keep [simp]: "conn_sz (clear_tcp_connection c) = conn_sz c" "conn_sz (c\<lparr> tc_session_id := x \<rparr>) = conn_sz c"
  by (simp_all add: conn_sz_def clear_tcp_connection_def)

lemma init_conn_run:
  assumes "init_upto sz ht j n"
  shows "\<exists>n'. init_conn sz j n = Some n' \<and> init_upto sz ht (Suc j) n'"
proof -
  define m where "m = upd_tcp j (\<lambda>c. c\<lparr> tc_session_id := of_nat j \<rparr>) (upd_tcp j clear_tcp_connection
    ((upd_tcp j (\<lambda>_. tcp_zero sz) n)\<lparr> n_free_q := n_free_q n @ [j], n_free_cnt := n_free_cnt n + 1 \<rparr>))"
  have s: "nic_sess m j = sess_zero sz" by (simp add: m_def upd_tcp_def clear_tcp_connection_def tcp_zero_def)
  have w: "bufs_wf m" using assms by (simp add: init_upto_def bufs_wf_def m_def upd_tcp_def)
  obtain n' where n': "clear_ssl_session j m = Some n'" "n_wmbufs n' = n_wmbufs m"
    using s by (simp add: clear_ssl_session_def remove_pending_pka_op_def sess_zero_def upd_sess_def upd_tcp_def)
  have run: "init_conn sz j n = Some n'"
    using assms n' by (simp add: init_conn_def init_upto_def m_def upd_tcp_def)
  have q: "quiet m n'" using clear_ssl_session_hs[OF n'(1)] by simp
  then have st: "same_tcp m n'" "bufs_wf n'" using w by (simp_all add: quiet_def)
  have "conn_idle m p" for p using assms by (simp add: m_def upd_tcp_def clear_tcp_connection_def init_upto_def)
  then have "conn_idle n' p" for p using fun_cong[OF same_tcpD(6)[OF st(1)], of p] by simp
  then have "init_upto sz ht (Suc j) n'"
    using st(2) same_tcpD(1-4)[OF st(1)] assms n'(2) by (simp add: init_upto_def m_def upd_tcp_def)
  with run show ?thesis by blast
qed

lemma init_conns_run:
  assumes "init_upto sz ht 0 n"
  shows "\<exists>n'. fold_steps (init_conn sz) [0..<j] n = Some n' \<and> init_upto sz ht j n'"
proof (induction j)
  case 0 with assms show ?case by simp
next
  case (Suc j)
  then obtain a where "fold_steps (init_conn sz) [0..<j] n = Some a" "init_upto sz ht j a" by blast
  with init_conn_run[of sz ht j a] show ?case by (auto simp: fold_steps_append)
qed

lemma ctx_calloc_init: "init_upto sz ht 0 (ctx_calloc sz ht n)"
  by (auto simp: init_upto_def ctx_calloc_def bufs_wf_def) (simp add: tcp_zero_def)

lemma parse_args_bound:
  "parse_args opts mo = Some (1, mo') \<Longrightarrow> mo_max_conn mo \<le> MAX_TCP_PORT \<Longrightarrow> mo_max_conn mo' \<le> MAX_TCP_PORT"
  by (induction opts mo rule: parse_args.induct) (auto simp: Let_def split: if_splits bind_splits)

lemma ring_cnt_loop_power:
  assumes "0 \<le> m" "m < 2 ^ 30" "c = 2 ^ k" "c < 2 ^ 31"
  shows "\<exists>j. ring_cnt_loop m c = Some (2 ^ j) \<and> m < 2 ^ j \<and> j < 31"
  using assms
proof (induction m c arbitrary: k rule: ring_cnt_loop.induct)
  case (1 m c)
  show ?case
  proof (cases "c \<le> m")
    case True
    have p: "c * 2 < 2 ^ 31" "\<not> c \<le> 0" using True "1.prems" by simp_all
    then have "\<not> (c \<le> 0 \<or> c * 2 \<ge> 2 ^ 31)" by linarith
    with "1.IH"[OF True this, of "Suc k"] "1.prems" p True show ?thesis
      by (subst ring_cnt_loop.simps) simp
  next
    case False
    have "k < 31" using "1.prems"(3,4) power_strict_increasing_iff[of "2 :: int" k 31] by simp
    with False "1.prems" show ?thesis by (subst ring_cnt_loop.simps) auto
  qed
qed

lemma ring_of_power:
  assumes "j < 31"
  shows "\<exists>r :: 'a sj_ring. sj_ring_create True name (word_of_int (2 ^ j)) = Ok r \<and> ring_inv r \<and> ring_contents r = [] \<and> ring_cap r = 2 ^ j - 1"
proof -
  have w: "(word_of_int (2 ^ j) :: u32) = 2 ^ j" by simp
  have "unat (of_nat (2 ^ j) :: u32) = 2 ^ j"
    using assms by (simp add: unsigned_of_nat take_bit_nat_eq_self del: of_nat_power)
  then have u: "unat (2 ^ j :: u32) = 2 ^ j" by simp
  have "(2 ^ j :: u32) \<noteq> 0" using u by (metis power_not_zero unat_0 zero_neq_numeral)
  moreover have "(2 ^ j :: u32) AND (2 ^ j - 1) = 0"
  proof (rule bit_word_eqI)
    fix i assume "i < LENGTH(32)"
    have "(2 ^ j - 1 :: u32) = mask j" by (simp add: mask_eq_exp_minus_1)
    then show "bit ((2 ^ j :: u32) AND (2 ^ j - 1)) i = bit (0 :: u32) i"
      by (auto simp: bit_simps)
  qed
  ultimately obtain r :: "'a sj_ring" where r: "sj_ring_create True name (2 ^ j) = Ok r" by (simp add: sj_ring_create_def)
  show ?thesis using ring_create_inv[OF r] r by (simp add: u w)
qed

text \<open>The size of a ring is the least power of two above the number of connections, so that the ring has room for an operation
  of every connection.\<close>

lemma thread_local_init_run:
  assumes "0 \<le> m" "j < 31"
  shows "\<exists>n0. thread_local_init core_id max_conn m (2 ^ j) name sz (True, True, True) n = Some n0 \<and> nic_ok n0 \<and> act n0 = {} \<and>
    n_free_q n0 = [0..<nat m] \<and> n_wmbufs n0 = (\<lambda>_. []) \<and> n_record_pool n0 = (if core_id \<noteq> 0 then [0..<nat (m * 3)] else []) \<and>
    n_op_pool n0 = [0..<if core_id = 0 then nat (max_conn * 5) else nat (m * 3)] \<and>
    ring_inv (n_submit_ring n0) \<and> ring_contents (n_submit_ring n0) = [] \<and> ring_cap (n_submit_ring n0) = 2 ^ j - 1"
proof -
  obtain ht where ht: "create_ht True True NUM_BINS = Some (ht :: tcp_ptr hashtable)" by (simp add: create_ht_def)
  from init_conns_run[OF ctx_calloc_init[of sz ht n], of "nat m"] obtain a
    where a: "fold_steps (init_conn sz) [0..<nat m] (ctx_calloc sz ht n) = Some a" and ia: "init_upto sz ht (nat m) a" by blast
  obtain r :: "op_ptr sj_ring" where r: "sj_ring_create True name (word_of_int (2 ^ j)) = Ok r" "ring_inv r" "ring_contents r = []" "ring_cap r = 2 ^ j - 1"
    using ring_of_power[OF assms(2), of name] by blast
  have "conns_inv a" using ia create_ht_inv[OF ht]
    by (simp add: conns_inv_def init_upto_def nic_table_inv_def)
  with ia have ok: "nic_ok a" by (simp add: nic_ok_def init_upto_def)
  have f: "nic_ok (a\<lparr> n_submit_ring := r, n_record_pool := x, n_free_record_cnt := y, n_op_pool := z, n_free_op_cnt := w \<rparr>)" for x y z w
    using ok by (simp add: nic_ok_def conns_inv_def)
  show ?thesis using a ia r f create_ht_inv(2)[OF ht] by (auto simp: thread_local_init_def ht init_upto_def Let_def)
qed


section \<open>Events keep the invariant\<close>

lemma distinct_concat_by:
  assumes "\<And>i. i < length xss \<Longrightarrow> distinct (xss ! i) \<and> (\<forall>p \<in> set (xss ! i). h p = i)"
  shows "distinct (concat xss)"
  using assms
proof (induction xss rule: rev_induct)
  case (snoc xs xss)
  have "distinct (concat xss)"
    by (rule snoc.IH) (use snoc.prems in \<open>metis nth_append length_append_singleton less_SucI\<close>)
  moreover have "distinct xs" "\<forall>p \<in> set xs. h p = length xss" using snoc.prems[of "length xss"] by simp_all
  moreover have "\<forall>p \<in> set (concat xss). h p < length xss"
    using snoc.prems by (auto simp: in_set_conv_nth) (metis nth_append length_append_singleton less_SucI nth_mem)
  ultimately show ?case by fastforce
qed simp

lemma conns_inv_distinct: "conns_inv n \<Longrightarrow> distinct (concat (ht_table (n_active n)))"
  unfolding conns_inv_def nic_table_inv_def table_inv_def
  by (intro distinct_concat_by[where h = "\<lambda>p. unat (calculate_hash (nic_key n p))"]) blast

lemma serve_connections_ok:
  "fold_steps (serve_connection cfg) ps n = Some n' \<Longrightarrow> distinct ps \<Longrightarrow> set ps \<subseteq> act n \<Longrightarrow> nic_ok n \<Longrightarrow> nic_ok n'"
proof (induction ps arbitrary: n)
  case (Cons p ps)
  then obtain a where a: "serve_connection cfg p n = Some a" and r: "fold_steps (serve_connection cfg) ps a = Some n'"
    by (auto split: bind_splits)
  have "served p (act n) n" using Cons.prems by (auto simp: served_def nic_ok_def)
  from serve_connection_served[OF a this] have "nic_ok a" "act n - {p} \<subseteq> act a" by (auto simp: served_def nic_ok_def)
  with Cons.IH[OF r] Cons.prems show ?case by auto
qed simp

lemma serve_all_ok: "serve_all cfg n = Some n' \<Longrightarrow> nic_ok n \<Longrightarrow> nic_ok n'"
  unfolding serve_all_def
  by (rule serve_connections_ok) (auto simp: nic_ok_def conns_inv_distinct ht_members_def)

lemma quiet_send_pkts: "quiet n (snd (send_pkts port n))"
  by (simp add: send_pkts_def Let_def quiet_def same_tcp_def bufs_wf_def)

lemma quiet_update_cookie: "quiet n (update_cookie n)"
  by (simp add: update_cookie_def quiet_def same_tcp_def bufs_wf_def)


lemma current_record_rest:
  assumes "current_record p pkt n = Some (Some r, a)" "one_record p pkt n"
  shows "length pkt \<le> rc_length (n_records a r) - rc_current_len (n_records a r)"
  using assms
  by (auto simp: current_record_def one_record_def new_recv_record_def new_record_def upd_rec_def upd_sess_def upd_tcp_def
      init_record_def Let_def split: option.splits if_splits list.splits bind_splits)

lemma record_complete_done: "record_complete cfg p r n = Some n' \<Longrightarrow> ss_current_read_record (nic_sess n' p) = None"
  by (auto simp: record_complete_def split: bind_splits)

text \<open>A segment with at most one record: it is incomplete and the connection stays, or it is handled and nothing follows.\<close>

lemma process_new_record_one:
  assumes "process_new_record cfg p pkt n = Some (d, n')" "one_record p pkt n"
  shows "kept p n n' \<or> d \<and> serves p n n'"
proof (cases "pkt = []")
  case True with assms(1) show ?thesis by (subst (asm) process_new_record.simps) simp
next
  case pkt: False
  then obtain c a where a: "current_record p pkt n = Some (c, a)"
    using assms(1) by (subst (asm) process_new_record.simps) (auto split: option.splits)
  then have qa: "kept p n a" by (auto elim!: kept_elims)
  show ?thesis
  proof (cases c)
    case None with pkt a assms(1) qa show ?thesis by (subst (asm) process_new_record.simps) auto
  next
    case (Some r)
    let ?x = "n_records a r"
    have k: "min (rc_length ?x - rc_current_len ?x) (length pkt) = length pkt"
      using current_record_rest[OF a[unfolded Some] assms(2)] by simp
    have k0: "length pkt \<noteq> 0" using pkt by simp
    from Some pkt a assms(1) k obtain y where y: "rec_put (rc_data ?x) (rc_current_len ?x) (take (length pkt) pkt) ?x = Some y"
      by (subst (asm) process_new_record.simps) (auto simp: Let_def split: option.splits if_splits)
    define z where "z = y\<lparr> rc_current_len := rc_current_len y + length pkt \<rparr>"
    define b where "b = upd_rec r (\<lambda>_. z) a"
    have qb: "kept p n b" unfolding b_def using qa rec_put_sz[OF y] by (intro kept_upd_rec) (simp_all add: z_def)
    note eq = process_new_record_step[OF pkt a[unfolded Some] k[symmetric] k0 y z_def b_def, of cfg]
    have nil: "process_new_record cfg p (drop (length pkt) pkt) e = Some (ss_current_read_record (nic_sess e p) = None, e)" for e
      by (subst process_new_record.simps) simp
    show ?thesis
    proof (cases "rc_current_len z = rc_length z")
      case True
      then obtain e where e: "record_complete cfg p r b = Some e" "n' = e" "d = (ss_current_read_record (nic_sess e p) = None)"
        using eq assms(1) nil by (auto split: option.splits)
      have "serves p n e" using e(1) qb by (auto elim!: serves_elims)
      then show ?thesis using e record_complete_done[OF e(1)] by simp
    next
      case False
      then show ?thesis using eq assms(1) nil qb by auto
    qed
  qed
qed

lemma one_record_touch:
  assumes "\<And>c. tc_ssl_session (f c) = tc_ssl_session c"
  shows "one_record p payload (touch p (upd_tcp p f n)) = one_record p payload n"
  using assms by (simp add: one_record_def touch_def upd_tcp_def split: option.split)

lemma process_normal_seq_case_one:
  assumes "process_normal_seq_case cfg p seq_no ack_no payload n = Some n'" "nic_ok n" "p \<in> act n" "one_record p payload n"
  shows "nic_ok n'"
proof -
  define f where "f = (\<lambda>c :: tcp_conn. c\<lparr> tc_last_recv_ack := ack_no, tc_last_recv_seq := seq_no,
       tc_last_recv_len := of_nat (length payload), tc_state := TCP_SESSION_RECEIVED \<rparr>)"
  define a where "a = touch p (upd_tcp p f n)"
  have busy: "\<not> conn_idle n p" using assms(2,3) member_busy by (auto simp: nic_ok_def)
  have "conns_inv (upd_tcp p f n)"
    using assms(2) busy by (intro conns_inv_upd_tcp) (simp_all add: nic_ok_def tcp_flow_def f_def)
  moreover have "bufs_wf (upd_tcp p f n)"
    using assms(2) bufs_wfD(2)[of n p] by (intro bufs_wf_upd_tcp) (simp_all add: nic_ok_def conn_sz_def f_def)
  ultimately have a: "nic_ok a" "p \<in> act a"
    using touch_k[OF kept_refl, of p _ p] assms(3) by (auto simp: a_def kept_def upd_tcp_def nic_ok_def)
  from assms(1) obtain d b where b: "process_ssl_packet cfg p payload a = Some (d, b)"
    and n': "if d then n' = b else send_tcp_packet p [] 0 TCP_FLAG_ACK b = Some n'"
    by (auto simp: process_normal_seq_case_def Let_def a_def f_def split: bind_splits if_splits)
  have "one_record p payload a" using assms(4) one_record_touch[of f p payload n] by (simp add: a_def f_def)
  then have r: "kept p a b \<or> d \<and> serves p a b"
    using b process_new_record_one[of cfg p payload a d b] by (auto simp: process_ssl_packet_def split: if_splits)
  then show ?thesis
  proof
    assume k: "kept p a b"
    then have "kept p a n'" using n' by (auto elim!: kept_elims split: if_splits)
    from kept_ok[OF this a(2,1)] show ?thesis .
  next
    assume "d \<and> serves p a b"
    with a n' show ?thesis by (simp add: serves_def nic_ok_def)
  qed
qed


lemma process_handshake_packet_clean:
  assumes "process_handshake_packet cfg pkt n = Some n'" "nic_ok n"
    and "act n' = act n \<or> (\<forall>p. search_packet pkt n = Some (Some p) \<longrightarrow>
           one_record p (seg (34 + hdr_len pkt) (unat (pkt_payload_len pkt)) pkt) n)"
  shows "nic_ok n'"
proof (cases "act n' = act n")
  case True with process_handshake_packet_ok[OF assms(1,2)] show ?thesis by (simp add: nic_ok_def)
next
  case False
  have inv: "conns_inv n" using assms(2) by (simp add: nic_ok_def)
  obtain res where res: "search_packet pkt n = Some res" using assms(1) by (auto simp: process_handshake_packet_def Let_def split: bind_splits)
  show ?thesis
  proof (cases res)
    case None with assms res show ?thesis by (simp add: process_handshake_packet_def Let_def)
  next
    case (Some p)
    then have p: "p \<in> act n" using search_packet_iff[OF inv res] by simp
    from assms(1) res Some consider "kept p n n'"
      | "process_normal_seq_case cfg p (ntohl (ld32 pkt 38)) (ntohl (ld32 pkt 42))
          (seg (34 + hdr_len pkt) (unat (pkt_payload_len pkt)) pkt) n = Some n'"
      using save_app_data_k[OF _ kept_refl, of p pkt _ n n' p] send_tcp_packet_k[OF _ kept_refl, of p "[]" 0 TCP_FLAG_ACK n n']
      by (auto simp: process_handshake_packet_def process_over_seq_case_def Let_def rd_seg_def
        split: if_splits option.splits tcp_sequence_check.splits bind_splits)
    then show ?thesis
      using process_normal_seq_case_one[OF _ assms(2) p] kept_ok[OF _ p assms(2)] assms(3) False res Some by cases auto
  qed
qed

lemma process_packet_clean:
  assumes "process_packet cfg port pkt n = Some n'" "nic_ok n" "clean (Ev_packet port pkt) n n'"
  shows "nic_ok n'"
proof (cases "validate_packet_type (unat port) pkt (pkt_payload_len pkt) = Some SSL_HANDSHAKE")
  case True
  with assms(1) have "process_handshake_packet cfg pkt n = Some n'" by (simp add: process_packet_def Let_def split: if_splits)
  from process_handshake_packet_clean[OF this assms(2)] assms(3) True show ?thesis by (simp add: clean_def)
next
  case False with process_packet_ok[OF assms(1,2)] show ?thesis by simp
qed

lemma nic_step_ok:
  assumes "nic_step cfg ev n = Some n'" "clean ev n n'" "nic_ok n"
  shows "nic_ok n'"
proof (cases ev)
  case Ev_packet with assms show ?thesis by (auto intro: process_packet_clean)
next
  case Ev_serve with assms show ?thesis by (auto intro: serve_all_ok)
next
  case (Ev_submit rng) with assms show ?thesis by (auto intro: quiet_ok[OF handle_submitted_pka_quiet])
next
  case Ev_complete with assms show ?thesis by (auto intro: quiet_ok[OF handle_completed_pka_q[OF _ quiet_refl]])
next
  case Ev_transmit with assms quiet_ok[OF quiet_send_pkts] show ?thesis by auto
next
  case Ev_tick with assms quiet_ok[OF quiet_update_cookie] show ?thesis by auto
qed

lemma nic_reach_ok: "nic_reach cfg n0 n \<Longrightarrow> nic_ok n0 \<Longrightarrow> nic_ok n"
  by (induction rule: nic_reach.induct) (auto intro: nic_step_ok)


section \<open>Arrays keep their sizes\<close>

lemma process_session_read_bufs:
  assumes "process_session_read cfg p n = Some n'"
  shows "bufs_wf n \<longrightarrow> bufs_wf n'"
proof (rule process_session_read.raw_induct[rotated, OF assms])
  fix f cfg p n n'
  assume IH: "\<And>cfg p n n'. f cfg p n = Some n' \<Longrightarrow> bufs_wf n \<longrightarrow> bufs_wf n'"
    and run: "(let s = nic_sess n p in
     if ss_recv_q_cnt s < 0 then None
     else if ss_recv_q_cnt s > 0 \<and> \<not> ss_waiting_crypto s then
       case ss_recv_q s of
         [] \<Rightarrow> None
       | target # rest \<Rightarrow> do {
           (_, n) \<leftarrow> process_read_record cfg p target
             (upd_sess p (\<lambda>s. s\<lparr> ss_recv_q := rest, ss_recv_q_cnt := ss_recv_q_cnt s - 1 \<rparr>) n);
           f cfg p n
         }
     else Some n) = Some n'"
  show "bufs_wf n \<longrightarrow> bufs_wf n'"
  proof (cases "ss_recv_q_cnt (nic_sess n p) > 0 \<and> \<not> ss_waiting_crypto (nic_sess n p)")
    case True
    with run obtain target rest ret a where a: "process_read_record cfg p target
        (upd_sess p (\<lambda>s. s\<lparr> ss_recv_q := rest, ss_recv_q_cnt := ss_recv_q_cnt s - 1 \<rparr>) n) = Some (ret, a)" and r: "f cfg p a = Some n'"
      by (auto simp: Let_def split: list.splits bind_splits)
    have "kept p n (upd_sess p (\<lambda>s. s\<lparr> ss_recv_q := rest, ss_recv_q_cnt := ss_recv_q_cnt s - 1 \<rparr>) n)"
      by (rule kept_upd_sess) (simp_all add: sess_sz_def)
    with a have "serves p n a" by (auto elim!: serves_elims)
    with IH[OF r] show ?thesis by (simp add: serves_def)
  next
    case False with run show ?thesis by (auto simp: Let_def split: if_splits)
  qed
qed

lemma serve_connection_bufs:
  assumes "serve_connection cfg p n = Some n'" "bufs_wf n"
  shows "bufs_wf n'"
proof -
  from assms(1) obtain a b c d where a: "process_session_read cfg p n = Some a"
    and b: "get_processed_crypto (nc_lib cfg) p a = Some b" and c: "remove_hws p (apply_hws p b) = Some c"
    and d: "forward_app_data p c = Some d" and e: "send_remain_server_records cfg p d = Some n'"
    by (auto simp: serve_connection_def split: bind_splits)
  have "bufs_wf a" using process_session_read_bufs[OF a] assms(2) by blast
  then have "bufs_wf b" using get_processed_crypto_s[OF b kept_refl] by (simp add: serves_def)
  then have "bufs_wf c" using remove_hws_s[OF c apply_hws_k[OF kept_refl]] by (simp add: serves_def)
  then have "bufs_wf d" using forward_app_data_k[OF d kept_refl] by (simp add: kept_def)
  then show ?thesis using send_remain_server_records_k[OF e kept_refl] by (simp add: kept_def)
qed

lemma process_handshake_packet_bufs:
  assumes "process_handshake_packet cfg pkt n = Some n'" "bufs_wf n"
  shows "bufs_wf n'"
proof -
  have norm: "bufs_wf n'" if "process_normal_seq_case cfg p seq_no ack_no payload n = Some n'" for p seq_no ack_no payload
  proof -
    define a where "a = touch p (upd_tcp p (\<lambda>c. c\<lparr> tc_last_recv_ack := ack_no, tc_last_recv_seq := seq_no,
       tc_last_recv_len := of_nat (length payload), tc_state := TCP_SESSION_RECEIVED \<rparr>) n)"
    have "bufs_wf a" using assms(2) by (simp add: a_def touch_def bufs_wf_def upd_tcp_def conn_sz_def)
    moreover from that obtain d b where b: "process_ssl_packet cfg p payload a = Some (d, b)"
      and n': "n' = b \<or> send_tcp_packet p [] 0 TCP_FLAG_ACK b = Some n'"
      by (auto simp: process_normal_seq_case_def Let_def a_def split: bind_splits if_splits)
    ultimately have "bufs_wf b"
      using process_new_record_run[of cfg p payload a d b] by (auto simp: process_ssl_packet_def split: if_splits)
    then show ?thesis using n' send_tcp_packet_bufs[of p "[]" 0 TCP_FLAG_ACK b n'] by auto
  qed
  show ?thesis
    using assms norm kept_bufs[OF save_app_data_k[OF _ kept_refl]] send_tcp_packet_bufs
    by (auto simp: process_handshake_packet_def process_over_seq_case_def Let_def
        split: if_splits option.splits tcp_sequence_check.splits bind_splits)
qed

lemma process_syn_packet_bufs:
  assumes "process_syn_packet lib port pkt n = Some n'" "bufs_wf n"
  shows "bufs_wf n'"
proof -
  have sa: "bufs_wf b" if "send_synack_packet q pkt ck a = Some b" "bufs_wf a" for q ck a b
    using send_synack_packet_q[OF that(1) quiet_refl] that(2) by (simp add: quiet_def)
  show ?thesis using assms
    by (auto simp: process_syn_packet_def Let_def split: bind_splits option.splits tcp_syn_check.splits
      dest!: sa insert_packet_bufs remove_session_cleared(4) kept_bufs[OF save_new_syn_k[OF _ kept_refl]])
qed

lemma process_host_packet_bufs:
  assumes "process_host_packet port pkt ty n = Some (ret, n')" "bufs_wf n"
  shows "bufs_wf n'"
proof -
  have u: "bufs_wf (upd_tcp p f m)" if "bufs_wf m" "\<And>c. conn_sz (f c) = conn_sz c" for p f m
    using that by (simp add: bufs_wf_def upd_tcp_def)
  have q: "bufs_wf b" if "send_rst_conn_meta k p a = Some (r, b)" "bufs_wf a" for k p a r b
    using send_rst_conn_meta_q[OF that(1) quiet_refl] that(2) by (simp add: quiet_def)
  show ?thesis using assms
    by (auto simp: process_host_packet_def process_host_mig_fin_def process_host_close_def send_raw_reset_def Let_def conn_sz_def
      split: bind_splits option.splits if_splits recv_packet_type.splits intro!: u dest: q put_frame_bufs)
qed

lemma process_packet_bufs:
  assumes "process_packet cfg port pkt n = Some n'" "bufs_wf n"
  shows "bufs_wf n'"
proof -
  have f: "process_fin_packet port pkt n = Some n' \<Longrightarrow> quiet n n'"
    by (auto simp: process_fin_packet_def send_raw_reset_def split: bind_splits option.splits if_splits elim!: quiet_elims)
  have r: "process_rst_packet port pkt n = Some n' \<Longrightarrow> quiet n n'"
    by (auto simp: process_rst_packet_def split: bind_splits option.splits if_splits elim!: quiet_elims)
  have a: "process_ack_packet pkt n = Some n' \<Longrightarrow> bufs_wf n'"
    using assms(2) kept_bufs[OF touch_k[OF kept_refl]] kept_bufs[OF save_app_data_k[OF _ kept_refl]]
    by (auto simp: process_ack_packet_def Let_def split: bind_splits option.splits if_splits)
  show ?thesis
    using assms process_handshake_packet_bufs[OF _ assms(2)] process_syn_packet_bufs[OF _ assms(2)]
      process_host_packet_bufs[OF _ assms(2)] a f r
    by (auto simp: process_packet_def Let_def quiet_def split: if_splits option.splits recv_packet_type.splits)
qed

lemma fold_steps_bufs:
  "fold_steps f xs n = Some n' \<Longrightarrow> (\<And>x n n'. f x n = Some n' \<Longrightarrow> bufs_wf n \<Longrightarrow> bufs_wf n') \<Longrightarrow> bufs_wf n \<Longrightarrow> bufs_wf n'"
  by (induction xs arbitrary: n) (auto split: bind_splits)

lemma nic_step_bufs:
  assumes "nic_step cfg ev n = Some n'" "bufs_wf n"
  shows "bufs_wf n'"
proof (cases ev)
  case Ev_packet with assms show ?thesis by (auto intro: process_packet_bufs)
next
  case Ev_serve with assms fold_steps_bufs[of "serve_connection cfg"] serve_connection_bufs[of cfg] show ?thesis
    by (auto simp: serve_all_def)
next
  case (Ev_submit rng) with assms handle_submitted_pka_quiet[of cfg rng n] show ?thesis by (auto simp: quiet_def)
next
  case (Ev_complete op res) with assms handle_completed_pka_q[OF _ quiet_refl, of op res n n'] show ?thesis by (simp add: quiet_def)
next
  case (Ev_transmit port) with assms quiet_send_pkts[of n "unat port"] show ?thesis by (simp add: quiet_def)
next
  case Ev_tick with assms quiet_update_cookie[of n] show ?thesis by (simp add: quiet_def)
qed



section \<open>SYN\<close>

abbreviation pkt_flow :: "bytes \<Rightarrow> flow" where
  "pkt_flow pkt \<equiv> (ld32 pkt 26, ld32 pkt 30, ld16 pkt 34, ld16 pkt 36)"

lemma search_packet_none:
  assumes "conns_inv n" "\<forall>q \<in> act n. nic_key n q \<noteq> pkt_flow pkt"
  shows "search_packet pkt n = Some None"
proof -
  have t: "nic_table_inv (nic_key n) (conn_idle n) (n_active n)" using assms(1) by (simp add: conns_inv_def)
  have "nic_search (nic_key n) (conn_idle n) (n_active n) (pkt_flow pkt) = None"
    using nic_search_iff[OF t, of "pkt_flow pkt"] assms(2) by (metis not_Some_eq)
  then show ?thesis by (simp add: search_packet_def search_tcp_connection_iff[OF t])
qed

lemma search_packet_member:
  "conns_inv n \<Longrightarrow> p \<in> act n \<Longrightarrow> nic_key n p = pkt_flow pkt \<Longrightarrow> search_packet pkt n = Some (Some p)"
  unfolding search_packet_def by (rule search_tcp_connection_member) (auto simp: conns_inv_def)

lemma insert_packet_free:
  assumes "n_free_q n = p # rest" "conn_idle n p"
  shows "\<exists>n'. insert_packet lib port pkt len n = Some (p, n') \<and> n_wmbufs n' = n_wmbufs n"
  using assms by (simp add: insert_packet_def insert_tcp_connection_def pop_free_connection_def upd_tcp_def Let_def)

lemma tcp_frame_fields:
  assumes "f = tcp_frame dm sm len pid sa da sp dp sq ack off fl win rest" "length dm = 6" "length sm = 6"
  shows "ld32 f 26 = sa" "ld32 f 30 = da" "ld16 f 34 = sp" "ld16 f 36 = dp" "ld32 f 38 = sq" "ld32 f 42 = ack" "f ! 47 = fl"
    "length f = 54 + length rest"
  using assms by (simp_all add: tcp_frame_def ld32_def ld16_def seg_def byte_simps drop_Cons' nth_append nth_Cons')

text \<open>The EtherType of the received frame is written over that of the SYN-ACK.\<close>

lemma blit_type_fields:
  assumes "length t = 2" "54 \<le> length f"
  shows "14 \<le> i \<Longrightarrow> i + 4 \<le> length f \<Longrightarrow> ld32 (blit f 12 t) i = ld32 f i"
    "14 \<le> i \<Longrightarrow> i + 2 \<le> length f \<Longrightarrow> ld16 (blit f 12 t) i = ld16 f i"
    "blit f 12 t ! 47 = f ! 47"
proof -
  have s: "14 \<le> i \<Longrightarrow> i + k \<le> length f \<Longrightarrow> seg i k (blit f 12 t) = seg i k f" for i k
    using assms by (simp add: seg_blit_other)
  show "14 \<le> i \<Longrightarrow> i + 4 \<le> length f \<Longrightarrow> ld32 (blit f 12 t) i = ld32 f i"
    "14 \<le> i \<Longrightarrow> i + 2 \<le> length f \<Longrightarrow> ld16 (blit f 12 t) i = ld16 f i"
    using s by (simp_all add: ld32_def ld16_def)
  show "blit f 12 t ! 47 = f ! 47" using assms s[of 47 1] nth_seg[of 0 1 47 f] nth_seg[of 0 1 47 "blit f 12 t"] by simp
qed


section \<open>Properties\<close>

lemma syn_packet_run:
  assumes "nic_ok n" "54 \<le> length pkt" "TCP_HEADER_LEN \<le> hdr_len pkt"
    and "validate_packet_type (unat port) pkt (pkt_payload_len pkt) = Some TCP_SYN"
    and "\<forall>q \<in> act n. nic_key n q \<noteq> pkt_flow pkt" "n_free_q n = p # rest" "length (n_wmbufs n (unat port)) < MAX_PKT_BURST"
  shows "\<exists>n' frame. process_packet cfg port pkt n = Some n' \<and> nic_ok n' \<and> act n' = insert p (act n) \<and> n_free_q n' = rest \<and>
     search_packet pkt n' = Some (Some p) \<and>
     tc_cookie (n_conns n' p) = get_cookie (nc_lib cfg) (n_t_major n) (ld32 pkt 26) (ld16 pkt 34) (ld32 pkt 30) (ld16 pkt 36) \<and>
     n_wmbufs n' (unat port) = n_wmbufs n (unat port) @ [frame] \<and>
     ntohl (ld32 frame 38) = tc_cookie (n_conns n' p) \<and> ntohl (ld32 frame 42) = ntohl (ld32 pkt 38) + 1 \<and>
     frame ! 47 = TCP_FLAG_SYN OR TCP_FLAG_ACK \<and>
     (ld32 frame 26, ld32 frame 30, ld16 frame 34, ld16 frame 36) = (ld32 pkt 30, ld32 pkt 26, ld16 pkt 36, ld16 pkt 34)"
proof -
  let ?lib = "nc_lib cfg" and ?len = "pkt_payload_len pkt"
  have inv: "conns_inv n" "bufs_wf n" using assms(1) by (simp_all add: nic_ok_def)
  have none: "search_packet pkt n = Some None" using search_packet_none[OF inv(1) assms(5)] .
  have "conn_idle n p" using inv(1) assms(6) by (simp add: conns_inv_def)
  from insert_packet_free[OF assms(6) this, of ?lib port pkt ?len] obtain m
    where m: "insert_packet ?lib port pkt ?len n = Some (p, m)" and w: "n_wmbufs m = n_wmbufs n" by blast
  note ins = insert_tcp_connection_run[OF inv(1) m[unfolded insert_packet_def]]
  have ok: "nic_ok m" by (rule insert_packet_ok[OF m assms(1)]) (use assms(5) in auto)
  define f where "f = tcp_frame (seg 6 6 pkt) (seg 0 6 pkt)
    (htons (of_nat (IP_HEADER_LEN + TCP_HEADER_LEN + (hdr_len pkt - TCP_HEADER_LEN)))) (ucast (n_rand m (n_rands m)))
    (ld32 pkt 30) (ld32 pkt 26) (ld16 pkt 36) (ld16 pkt 34) (htonl (tc_cookie (n_conns m p))) (htonl (ntohl (ld32 pkt 38) + 1))
    (push_bit 4 (of_nat (drop_bit 2 (TCP_HEADER_LEN + (hdr_len pkt - TCP_HEADER_LEN)))))
    (TCP_FLAG_SYN OR TCP_FLAG_ACK) (ld16 pkt 48) (seg 54 (hdr_len pkt - TCP_HEADER_LEN) pkt)"
  define g where "g = blit f 12 (seg 12 2 pkt)"
  define n' where "n' = (m\<lparr> n_rands := n_rands m + 1, n_wmbufs := (n_wmbufs m)(unat port := n_wmbufs m (unat port) @ [g]) \<rparr>)"
  have sa: "send_synack_packet (unat port) pkt (tc_cookie (n_conns m p)) m = Some n'"
    unfolding send_synack_packet_def Let_def
    unfolding hdr_len_def[symmetric]
    unfolding f_def[symmetric]
    unfolding g_def[symmetric]
    using assms(3,7) w by (simp add: n'_def put_frame_room)
  have run: "process_packet cfg port pkt n = Some n'"
    using assms(2,4) none m sa by (simp add: process_packet_def process_syn_packet_def TOTAL_HEADER_LEN_def Let_def)
  have fl: "length (seg 6 6 pkt) = 6" "length (seg 0 6 pkt) = 6" "length (seg 12 2 pkt) = 2" using assms(2) by simp_all
  note ff = tcp_frame_fields[OF f_def fl(1,2)]
  have lf: "54 \<le> length f" using ff(8) by simp
  note gf = blit_type_fields[OF fl(3) lf]
  have frame: "ntohl (ld32 g 38) = tc_cookie (n_conns m p)" "ntohl (ld32 g 42) = ntohl (ld32 pkt 38) + 1" "g ! 47 = TCP_FLAG_SYN OR TCP_FLAG_ACK"
    "(ld32 g 26, ld32 g 30, ld16 g 34, ld16 g 36) = (ld32 pkt 30, ld32 pkt 26, ld16 pkt 36, ld16 pkt 34)"
    using gf ff lf by (simp_all add: g_def byte_simps)
  have "nic_ok n'" using ok by (simp add: nic_ok_def n'_def conns_inv_def)
  moreover from this have "search_packet pkt n' = Some (Some p)"
    using ins(2,4) assms(5) by (intro search_packet_member) (auto simp: nic_ok_def n'_def)
  ultimately show ?thesis using run frame ins(2,3,5) assms(5,6) w
    by (intro exI[of _ n'] exI[of _ g]) (auto simp: n'_def)
qed

text \<open>C16: A SYN of a flow that has no connection takes the first free connection, puts it into the table under the flow with the cookie of
  the flow, and is answered by a SYN-ACK with the cookie as sequence number and the client's number plus one as acknowledgement, to
  the sender.\<close>

theorem syn_opens_connection:
  assumes "nic_ok n" "54 \<le> length pkt" "TCP_HEADER_LEN \<le> hdr_len pkt"
    and "validate_packet_type (unat port) pkt (pkt_payload_len pkt) = Some TCP_SYN"
    and "\<forall>q \<in> act n. nic_key n q \<noteq> pkt_flow pkt" "n_free_q n = p # rest" "length (n_wmbufs n (unat port)) < MAX_PKT_BURST"
  shows "\<exists>n' frame. process_packet cfg port pkt n = Some n' \<and> nic_ok n' \<and> act n' = insert p (act n) \<and> n_free_q n' = rest \<and>
     search_packet pkt n' = Some (Some p) \<and>
     tc_cookie (n_conns n' p) = get_cookie (nc_lib cfg) (n_t_major n) (ld32 pkt 26) (ld16 pkt 34) (ld32 pkt 30) (ld16 pkt 36) \<and>
     n_wmbufs n' (unat port) = n_wmbufs n (unat port) @ [frame] \<and>
     ntohl (ld32 frame 38) = tc_cookie (n_conns n' p) \<and> ntohl (ld32 frame 42) = ntohl (ld32 pkt 38) + 1 \<and>
     frame ! 47 = TCP_FLAG_SYN OR TCP_FLAG_ACK \<and>
     (ld32 frame 26, ld32 frame 30, ld16 frame 34, ld16 frame 36) = (ld32 pkt 30, ld32 pkt 26, ld16 pkt 36, ld16 pkt 34)"
  using syn_packet_run[OF assms] by blast

definition demo_syn :: bytes where
  "demo_syn = replicate 12 0 @ [0x08, 0x00] @ [0x45, 0x00, 0, 40] @ replicate 5 0 @ [6] @ [0, 0, 10, 0, 0, 2, 10, 0, 0, 1] @
     [0x30, 0x39, 0x01, 0xbb] @ [0, 0, 0, 7, 0, 0, 0, 0] @ [0x50, 0x02] @ replicate 6 0"

lemma demo_syn_facts:
  "length demo_syn = 54" "hdr_len demo_syn = 20" "pkt_payload_len demo_syn = 0"
  "validate_packet_type 0 demo_syn 0 = Some TCP_SYN"
proof -
  show "length demo_syn = 54" by (simp add: demo_syn_def)
  show h: "hdr_len demo_syn = 20" by (simp add: hdr_len_def demo_syn_def nth_append nth_Cons')
  have "seg 16 2 demo_syn = [0, 40]" by (simp add: demo_syn_def seg_def)
  then show "pkt_payload_len demo_syn = 0"
    by (simp add: pkt_payload_len_def h IP_HEADER_LEN_def byte_simps \<open>length demo_syn = 54\<close>)
      (simp add: be_word_def)
  have "seg 12 2 demo_syn = [0x08, 0x00]" "seg 36 2 demo_syn = [0x01, 0xbb]" by (simp_all add: demo_syn_def seg_def)
  then have "ntohs (ld16 demo_syn 12) = 0x0800" "ntohs (ld16 demo_syn 36) = 443"
    by (simp_all add: byte_simps \<open>length demo_syn = 54\<close> be_word_def)
  then have "ld16 demo_syn 12 = htons 0x0800" "ld16 demo_syn 36 = htons 443" by (metis htons_ntohs)+
  moreover have "demo_syn ! 15 = 0" "demo_syn ! 47 = 2" "demo_syn ! 23 = 6" by (simp_all add: demo_syn_def nth_append nth_Cons')
  ultimately show "validate_packet_type 0 demo_syn 0 = Some TCP_SYN"
    by (simp add: validate_packet_type_def SSL_PORT_NIC_def TCP_FLAG_SYN_def TCP_FLAG_ACK_def)
qed

definition demo_cfg :: nic_cfg where
  "demo_cfg = \<lparr> nc_lib = demo_lib, nc_threads = 1, nc_cert = [], nc_big_endian = False, nc_base_pt_order = operand_zero \<rparr>"

abbreviation demo_env :: nic where
  "demo_env \<equiv> nic_idle (\<lambda>_. 64) (\<lambda>_. 0) (\<lambda>_. tcp_zero 0)"

lemma demo_start:
  obtains n0 n1 where "thread_local_init 1 2 2 4 ''ring'' 40 (True, True, True) demo_env = Some n0" "nic_ok n0" "act n0 = {}"
    "n_free_q n0 = [0, 1]" "n_wmbufs n0 = (\<lambda>_. [])" "process_packet demo_cfg 0 demo_syn n0 = Some n1" "act n1 = {0}"
proof -
  obtain n0 where n0: "thread_local_init 1 2 2 4 ''ring'' 40 (True, True, True) demo_env = Some n0"
    "nic_ok n0" "act n0 = {}" "n_free_q n0 = [0..<nat 2]" "n_wmbufs n0 = (\<lambda>_. [])"
    using thread_local_init_run[of 2 2 1 2 "''ring''" 40 demo_env] by auto
  moreover have q: "n_free_q n0 = [0, 1]" using n0(4) by (simp add: upt_rec)
  ultimately show thesis
    using syn_packet_run[of n0 demo_syn 0 0 "[1]" demo_cfg] demo_syn_facts that
    by (auto simp: TCP_HEADER_LEN_def MAX_PKT_BURST_def)
qed

theorem syn_opens_connection_witness:
  "\<exists>n0 n'. thread_local_init 1 2 2 4 ''ring'' 40 (True, True, True) demo_env = Some n0 \<and>
    process_packet demo_cfg 0 demo_syn n0 = Some n' \<and> act n' = {0} \<and> search_packet demo_syn n' = Some (Some 0)"
proof -
  obtain n0 n1 where n0: "thread_local_init 1 2 2 4 ''ring'' 40 (True, True, True) demo_env = Some n0" "nic_ok n0" "act n0 = {}"
    "n_free_q n0 = [0, 1]" "n_wmbufs n0 = (\<lambda>_. [])" by (rule demo_start)
  show ?thesis
    using syn_opens_connection[of n0 demo_syn 0 0 "[1]" demo_cfg] n0 demo_syn_facts
    by (auto simp: TCP_HEADER_LEN_def MAX_PKT_BURST_def)
qed

lemma thread_local_init_ok:
  assumes "thread_local_init core_id max_conn m c name sz oks n = Some n0"
  shows "nic_ok n0" "act n0 = {}"
proof -
  from assms obtain ht a r rp k op l where ht: "create_ht (fst oks) (fst (snd oks)) NUM_BINS = Some ht"
    and a: "fold_steps (init_conn sz) [0..<nat m] (ctx_calloc sz ht n) = Some a"
    and n0: "n0 = a\<lparr> n_submit_ring := r, n_record_pool := rp, n_free_record_cnt := k, n_op_pool := op, n_free_op_cnt := l \<rparr>"
    by (auto simp: thread_local_init_def Let_def split: bind_splits outcome.splits)
  have "init_upto sz ht (nat m) a" using init_conns_run[OF ctx_calloc_init[of sz ht n], of "nat m"] a by auto
  moreover from this have "conns_inv a" using create_ht_inv[OF ht] by (simp add: conns_inv_def init_upto_def nic_table_inv_def)
  ultimately show "nic_ok n0" "act n0 = {}"
    using n0 create_ht_inv(2)[OF ht] by (auto simp: nic_ok_def init_upto_def conns_inv_def)
qed





text \<open>C23: Start-up: for valid arguments and at least two cores, the size of the rings is computed without overflow, the initialisation of a
  worker succeeds when there is memory, all its connections are free, its ring is empty and has room for an operation of each connection.\<close>

theorem start_up:
  assumes "parse_args opts \<lparr> mo_max_conn = 0, mo_host_threads_num = 0 \<rparr> = Some (1, mo)" "0 \<le> mo_max_conn mo" "1 < lcores" "core_id \<noteq> 0"
  shows "\<exists>m c n0. main_sizes lcores opts = Some (mo, m, c) \<and> m = mo_max_conn mo div (uint lcores - 1) \<and>
    thread_local_init core_id (mo_max_conn mo) m c name sz (True, True, True) env = Some n0 \<and> nic_ok n0 \<and> act n0 = {} \<and>
    n_free_q n0 = [0..<nat m] \<and> length (n_record_pool n0) = 3 * nat m \<and> length (n_op_pool n0) = 3 * nat m \<and>
    ring_contents (n_submit_ring n0) = [] \<and> nat m \<le> ring_cap (n_submit_ring n0)"
proof -
  let ?k = "mo_max_conn mo" and ?q = "(word_of_int (mo_max_conn mo) :: u32) div (lcores - 1)"
  define m where "m = ?k div (uint lcores - 1)"
  have k: "?k \<le> 65536" using parse_args_bound[OF assms(1)] by (simp add: MAX_TCP_PORT_def)
  have l1: "uint (lcores - 1) = uint lcores - 1" "1 < uint lcores" using assms(3) by (simp_all add: word_less_alt uint_sub_ge word_le_def uint_sub_if')
  have u: "uint ?q = m" using assms(2) k l1 by (simp add: uint_div m_def unsigned_of_int take_bit_int_eq_self)
  have mb: "0 \<le> m" "m \<le> 65536" using assms(2) k l1 by (simp_all add: m_def pos_imp_zdiv_nonneg_iff) (smt (verit) zdiv_mono2 div_by_1)
  have "sint ?q = m" using u mb by (simp add: sint_uint signed_take_bit_int_eq_self)
  moreover obtain j where j: "ring_cnt_loop m 1 = Some (2 ^ j)" "m < 2 ^ j" "j < 31"
    using ring_cnt_loop_power[of m 1 0] mb by auto
  moreover have "lcores - 1 \<noteq> 0" using l1 by (metis uint_0_eq diff_gt_0_iff_gt less_irrefl)
  ultimately have ms: "main_sizes lcores opts = Some (mo, m, 2 ^ j)" using assms(1) by (simp add: main_sizes_def)
  obtain n0 where n0: "thread_local_init core_id ?k m (2 ^ j) name sz (True, True, True) env = Some n0" "nic_ok n0" "act n0 = {}"
    "n_free_q n0 = [0..<nat m]" "n_record_pool n0 = [0..<nat (m * 3)]" "n_op_pool n0 = [0..<nat (m * 3)]"
    "ring_contents (n_submit_ring n0) = []" "ring_cap (n_submit_ring n0) = 2 ^ j - 1"
    using thread_local_init_run[OF mb(1) j(3), of core_id ?k name sz env] assms(4) by auto
  have "nat m < 2 ^ j" using j(2) mb(1) by (simp add: nat_less_iff)
  then have "nat m \<le> 2 ^ j - 1" by linarith
  then show ?thesis using ms n0 mb(1) by (intro exI[of _ m] exI[of _ "2 ^ j"] exI[of _ n0]) (simp add: m_def nat_mult_distrib)
qed

theorem start_up_witness:
  "\<exists>n0. main_sizes 3 [(CHR ''m'', ''16'')] = Some (\<lparr> mo_max_conn = 16, mo_host_threads_num = 0 \<rparr>, 8, 16) \<and>
    thread_local_init 1 16 8 16 ''ring'' 40 (True, True, True) demo_env = Some n0 \<and> length (n_record_pool n0) = 24"
proof -
  let ?mo = "\<lparr> mo_max_conn = 16, mo_host_threads_num = 0 \<rparr> :: main_opts"
  have p: "parse_args [(CHR ''m'', ''16'')] \<lparr> mo_max_conn = 0, mo_host_threads_num = 0 \<rparr> = Some (1, ?mo)"
    by (simp add: atoi_def digits_val_def isspace_def isdigit_def MAX_TCP_PORT_def Let_def)
  have "ring_cnt_loop 8 1 = Some 16" by (simp add: ring_cnt_loop.simps)
  then have ms: "main_sizes 3 [(CHR ''m'', ''16'')] = Some (?mo, 8, 16)" unfolding main_sizes_def p by simp
  show ?thesis using start_up[OF p, of 3 1 "''ring''" 40 demo_env] ms by auto
qed

text \<open>The result of \<open>parse_args\<close> is compared with 0 but is never negative: a number of host threads that it refuses is used all the same.  With
  zero threads the first key packet divides by zero.\<close>

theorem refused_arguments_used:
  assumes "atoi a = Some v" "v \<le> 0" "lcores \<noteq> 1"
  shows "\<exists>mo m c. parse_args [(CHR ''t'', a)] \<lparr> mo_max_conn = 0, mo_host_threads_num = 0 \<rparr> = Some (0, mo) \<and>
    main_sizes lcores [(CHR ''t'', a)] = Some (mo, m, c) \<and> mo_host_threads_num mo = v \<and>
    (v = 0 \<longrightarrow> send_key_meta (nat (mo_host_threads_num mo)) port p n = None)"
  using assms by (simp add: main_sizes_def Let_def ring_cnt_loop.simps send_key_meta_def)

theorem refused_arguments_used_witness:
  "main_sizes 3 [(CHR ''t'', ''0'')] = Some (\<lparr> mo_max_conn = 0, mo_host_threads_num = 0 \<rparr>, 0, 1)"
proof -
  have "atoi ''0'' = Some 0" by (simp add: atoi_def digits_val_def isspace_def isdigit_def Let_def)
  then show ?thesis using refused_arguments_used[of "''0''" 0 3 0 0 demo_env] by (auto simp: main_sizes_def ring_cnt_loop.simps)
qed

end
