(* ===== verification/Nic_Waiting.thy ===== *)
theory Nic_Waiting
  imports Nic_Tcp
begin

text \<open>
  New connections that wait for the removal of a rule of the hardware, \<^verbatim>\<open>src/smartnic/offload_ssl/src/tcp.c\<close>.  The SYN of the new connection is
  saved with the old one, which waits in a ring of the worker; when its rule is gone the old connection is removed, the new one inserted and the saved
  SYN answered.  In the configuration of the makefile (\<^verbatim>\<open>REMOVE_HWS\<close>) nothing enters the ring.
\<close>


section \<open>Operations\<close>

text \<open>The array for the options has 40 bytes.\<close>

definition send_synack_packet_for_saved_new_syn ::
  "nat \<Rightarrow> bytes \<Rightarrow> bytes \<Rightarrow> bytes \<Rightarrow> bytes \<Rightarrow> u16 \<Rightarrow> u32 \<Rightarrow> nic \<Rightarrow> nic option" where
  "send_synack_packet_for_saved_new_syn port ethh iph tcph options option_len cookie n =
    (if unat option_len > length options then None
     else let frame = tcp_frame (seg 6 6 ethh) (seg 0 6 ethh)
            (htons (of_nat (IP_HEADER_LEN + TCP_HEADER_LEN + unat option_len)))
            (ucast (n_rand n (n_rands n))) (ld32 iph 16) (ld32 iph 12) (ld16 tcph 2) (ld16 tcph 0)
            (htonl cookie) (htonl (ntohl (ld32 tcph 4) + 1))
            (push_bit 4 (of_nat (drop_bit 2 (TCP_HEADER_LEN + unat option_len))))
            (TCP_FLAG_SYN OR TCP_FLAG_ACK) (ld16 tcph 14) (take (unat option_len) options)
          in put_frame port (blit frame 12 (seg 12 2 ethh)) (n\<lparr> n_rands := n_rands n + 1 \<rparr>))"

text \<open>One turn of the loop over the ring.  The saved SYN is copied before the connection is cleared.\<close>

definition waiting_hws_del_conn :: "openssl \<Rightarrow> u16 \<Rightarrow> tcp_ptr sj_ring \<times> nic \<Rightarrow> (tcp_ptr sj_ring \<times> nic) option" where
  "waiting_hws_del_conn lib port = (\<lambda>(ring, n).
    case sj_ring_dequeue ring of
      (ret, obj, ring) \<Rightarrow>
        if ret < 0 then Some (ring, n)
        else (case obj of
          Some (Some p) \<Rightarrow>
            let c = n_conns n p; ps = tc_pending_syn c; ethh = ps_ethh ps; iph = ps_iph ps; tcph = ps_tcph ps in
            if tc_hws_deleted c then do {
              n \<leftarrow> remove_session p n;
              (q, n) \<leftarrow> insert_tcp_connection lib port (seg 6 6 ethh) (ld32 iph 12) (ld16 tcph 0) (seg 0 6 ethh) (ld32 iph 16) (ld16 tcph 2)
                (ntohl (ld32 tcph 4)) (ntohs (ld16 tcph 14)) (ps_payload_len ps) n;
              n \<leftarrow> send_synack_packet_for_saved_new_syn (unat port) ethh iph tcph (ps_tcp_options ps) (ps_tcp_option_len ps)
                (tc_cookie (n_conns n q)) n;
              Some (ring, n)
            }
            else Some (snd (sj_ring_enqueue ring (Some p)), n)
        | _ \<Rightarrow> None))"

fun waiting_turns :: "nat \<Rightarrow> openssl \<Rightarrow> u16 \<Rightarrow> tcp_ptr sj_ring \<times> nic \<Rightarrow> (tcp_ptr sj_ring \<times> nic) option" where
  "waiting_turns 0 lib port s = Some s"
| "waiting_turns (Suc i) lib port s = do { s \<leftarrow> waiting_hws_del_conn lib port s; waiting_turns i lib port s }"

definition handle_waiting_hws_del_conns :: "openssl \<Rightarrow> u16 \<Rightarrow> tcp_ptr sj_ring \<Rightarrow> nic \<Rightarrow> (tcp_ptr sj_ring \<times> nic) option" where
  "handle_waiting_hws_del_conns lib port ring n = waiting_turns (unat (r_size ring)) lib port (ring, n)"

text \<open>Every core sets its flag once; the assertion fails for more flags than cores.\<close>

definition check_ready :: "nat list \<Rightarrow> bool option" where
  "check_ready ready = (if sum_list ready > length ready then None else Some (sum_list ready = length ready))"


section \<open>Properties\<close>

lemma check_ready_all:
  assumes "set ready \<subseteq> {0, 1}"
  shows "check_ready ready = Some (\<forall>r \<in> set ready. r = 1)"
proof -
  have "sum_list ready \<le> length ready \<and> (sum_list ready = length ready \<longleftrightarrow> (\<forall>r \<in> set ready. r = 1))"
    using assms by (induction ready) auto
  then show ?thesis by (simp add: check_ready_def)
qed

text \<open>An empty ring is left as it is, so that the main loop of this configuration need not mention it.\<close>

lemma waiting_turns_empty: "sj_ring_dequeue ring = (- 1, None, ring) \<Longrightarrow> waiting_turns i lib port (ring, n) = Some (ring, n)"
  by (induction i) (simp_all add: waiting_hws_del_conn_def)

lemma handle_waiting_empty:
  assumes "ring_inv ring" "ring_contents ring = []"
  shows "handle_waiting_hws_del_conns lib port ring n = Some (ring, n)"
  unfolding handle_waiting_hws_del_conns_def by (rule waiting_turns_empty[OF ring_dequeue_empty[OF assms]])

lemma ld32_seg: "i + 4 \<le> k \<Longrightarrow> ld32 (seg j k b) i = ld32 b (j + i)"
  by (simp add: ld32_def seg_def drop_take take_take min_def add.commute)

lemma ld16_seg: "i + 2 \<le> k \<Longrightarrow> ld16 (seg j k b) i = ld16 b (j + i)"
  by (simp add: ld16_def seg_def drop_take take_take min_def add.commute)

lemma hdr_len_bound: "hdr_len pkt \<le> 60"
proof -
  have "drop_bit 2 (pkt ! 46) AND 60 \<le> 60" by (rule word_and_le1)
  then show ?thesis by (simp add: hdr_len_def word_le_nat_alt)
qed

text \<open>C32: The answer to a saved SYN is the answer to the SYN itself: the same frame, byte for byte, with the options of the client.\<close>

theorem saved_syn_answer:
  assumes "save_new_syn p pkt payload_len n = Some m" "length (ps_tcp_options (tc_pending_syn (n_conns n p))) = 40" "54 \<le> length pkt"
  defines "ps \<equiv> tc_pending_syn (n_conns m p)"
  shows "send_synack_packet_for_saved_new_syn port (ps_ethh ps) (ps_iph ps) (ps_tcph ps) (ps_tcp_options ps) (ps_tcp_option_len ps) cookie k =
    send_synack_packet port pkt cookie k"
proof -
  let ?l = "hdr_len pkt - TCP_HEADER_LEN"
  have h: "\<not> hdr_len pkt < TCP_HEADER_LEN" "54 + ?l \<le> length pkt"
    and ps: "ps_ethh ps = seg 0 14 pkt" "ps_iph ps = seg 14 20 pkt" "ps_tcph ps = seg 34 20 pkt"
      "ps_tcp_options ps = blit (ps_tcp_options (tc_pending_syn (n_conns n p))) 0 (seg 54 ?l pkt)" "ps_tcp_option_len ps = of_nat ?l"
    using assms(1) by (auto simp: save_new_syn_def ps_def Let_def rd_seg_def upd_tcp_def split: if_splits bind_splits)
  have l: "?l \<le> 40" using hdr_len_bound[of pkt] by (simp add: TCP_HEADER_LEN_def)
  then have u: "unat (ps_tcp_option_len ps) = ?l" by (simp add: ps unsigned_of_nat take_bit_nat_eq_self)
  have o: "take ?l (ps_tcp_options ps) = seg 54 ?l pkt" "?l \<le> length (ps_tcp_options ps)"
    using h(2) assms(2) l by (simp_all add: ps blit_def)
  show ?thesis unfolding send_synack_packet_for_saved_new_syn_def send_synack_packet_def u hdr_len_def[symmetric]
    using h(1) o by (simp add: Let_def) (simp add: ps ld32_seg ld16_seg seg_seg)
qed

definition demo_saved :: nic where "demo_saved = nic_idle (\<lambda>_. 64) (\<lambda>_. 0) (\<lambda>_. tcp_zero 0)"

definition demo_new_syn :: bytes where "demo_new_syn = replicate 46 7 @ [0x60] @ replicate 11 9"

theorem saved_syn_answer_witness:
  "\<exists>m. save_new_syn 0 demo_new_syn 0 demo_saved = Some m \<and> ps_tcp_option_len (tc_pending_syn (n_conns m 0)) = 4 \<and>
    (let ps = tc_pending_syn (n_conns m 0) in
      send_synack_packet_for_saved_new_syn 0 (ps_ethh ps) (ps_iph ps) (ps_tcph ps) (ps_tcp_options ps) (ps_tcp_option_len ps) 5 demo_saved =
      send_synack_packet 0 demo_new_syn 5 demo_saved)"
proof -
  have h: "hdr_len demo_new_syn = 24" by (simp add: hdr_len_def demo_new_syn_def nth_append)
  then obtain m where m: "save_new_syn 0 demo_new_syn 0 demo_saved = Some m" "ps_tcp_option_len (tc_pending_syn (n_conns m 0)) = 4"
    by (simp add: save_new_syn_def TCP_HEADER_LEN_def rd_seg_def Let_def) (simp add: demo_new_syn_def upd_tcp_def)
  have l: "length (ps_tcp_options (tc_pending_syn (n_conns demo_saved 0))) = 40" "54 \<le> length demo_new_syn"
    by (simp_all add: demo_saved_def nic_idle_def tcp_zero_def pending_syn_zero_def demo_new_syn_def)
  show ?thesis using saved_syn_answer[OF m(1) l, of 0 5 demo_saved] m by (simp add: Let_def)
qed

end
