(* ===== verification/Tls_Props.thy ===== *)
theory Tls_Props
  imports Nic_Worker
begin

text \<open>
  Properties of the TLS layer of the SmartNIC: protection of records and of the server's messages, the cutting of segments into records, and
  what a client can do to the handshake.
\<close>


section \<open>Buffers of a record\<close>

lemma blit_blit_append:
  "i + length a + length b \<le> length x \<Longrightarrow> blit (blit x i a) (i + length a) b = blit x i (a @ b)"
  by (cases a) (auto simp: blit_def min_def ac_simps)

lemma rec_bytes_write:
  "rec_bytes a (rec_write b i s x) = (if a = b then blit (rec_bytes a x) i s else rec_bytes a x)"
  by (cases a; cases b) (simp_all add: rec_bytes_def rec_write_def)

lemma rec_put_Some:
  "rec_put a i s x = Some y \<longleftrightarrow> i + length s \<le> length (rec_bytes a x) \<and> y = rec_write a i s x"
  by (auto simp: rec_put_def)

lemma rec_write_fields [simp]:
  "rc_length (rec_write a i s x) = rc_length x" "rc_current_len (rec_write a i s x) = rc_current_len x"
  "rc_data (rec_write a i s x) = rc_data x" "rc_decrypted (rec_write a i s x) = rc_decrypted x"
  "rc_plain_length (rec_write a i s x) = rc_plain_length x" "rc_cipher_length (rec_write a i s x) = rc_cipher_length x"
  "rc_state (rec_write a i s x) = rc_state x" "rc_plain_type (rec_write a i s x) = rc_plain_type x"
  "rc_plain_version (rec_write a i s x) = rc_plain_version x" "rc_seq_num (rec_write a i s x) = rc_seq_num x"
  "rc_fragment (rec_write a i s x) = rc_fragment x" "rc_is_received (rec_write a i s x) = rc_is_received x"
  by (cases a; simp add: rec_write_def)+

lemma rec_bytes_update [simp]:
  "rec_bytes a (x\<lparr> rc_length := v1 \<rparr>) = rec_bytes a x" "rec_bytes a (x\<lparr> rc_current_len := v2 \<rparr>) = rec_bytes a x"
  "rec_bytes a (x\<lparr> rc_cipher_length := v3 \<rparr>) = rec_bytes a x" "rec_bytes a (x\<lparr> rc_plain_length := v4 \<rparr>) = rec_bytes a x"
  "rec_bytes a (x\<lparr> rc_state := v5 \<rparr>) = rec_bytes a x" "rec_bytes a (x\<lparr> rc_fragment := v6 \<rparr>) = rec_bytes a x"
  "rec_bytes a (x\<lparr> rc_plain_type := v7 \<rparr>) = rec_bytes a x" "rec_bytes a (x\<lparr> rc_plain_version := v8 \<rparr>) = rec_bytes a x"
  "rec_bytes a (x\<lparr> rc_data := v9 \<rparr>) = rec_bytes a x" "rec_bytes a (x\<lparr> rc_decrypted := v10 \<rparr>) = rec_bytes a x"
  "rec_bytes a (x\<lparr> rc_seq_num := v11 \<rparr>) = rec_bytes a x" "rec_bytes a (x\<lparr> rc_is_encrypted := v12 \<rparr>) = rec_bytes a x"
  "rec_bytes a (x\<lparr> rc_cipher_type := v13 \<rparr>) = rec_bytes a x" "rec_bytes a (x\<lparr> rc_cipher_version := v14 \<rparr>) = rec_bytes a x"
  by (cases a; simp add: rec_bytes_def)+

lemma upd_rec_simps [simp]:
  "n_records (upd_rec r f n) = (n_records n)(r := f (n_records n r))" "n_conns (upd_rec r f n) = n_conns n"
  "upd_rec r f (upd_rec r g n) = upd_rec r (f \<circ> g) n"
  by (simp_all add: upd_rec_def)


section \<open>From segments to records\<close>

text \<open>What is left of the current record decides how much of the segment is copied, so that two segments can be copied as one.\<close>

lemma current_record_append:
  assumes "current_record p a n = Some (Some r, m)"
  shows "current_record p (a @ b) n = Some (Some r, m)"
proof -
  have "RECORD_HEADER_SIZE \<le> length a \<Longrightarrow> ld16 (a @ b) 3 = ld16 a 3"
    by (simp add: ld16_def seg_append_left RECORD_HEADER_SIZE_def)
  then show ?thesis using assms
    by (auto simp: current_record_def Let_def split: option.splits if_splits bind_splits)
qed

lemma current_record_sess:
  assumes "current_record p a n = Some (Some r, m)"
  shows "ss_current_read_record (nic_sess m p) = Some r"
  using assms by (auto simp: current_record_def Let_def upd_rec_def split: option.splits if_splits bind_splits)

lemma process_new_record_turn:
  assumes "pkt \<noteq> []" "current_record p pkt n = Some (Some r, m)" "x = n_records m r" "k = min (rc_length x - rc_current_len x) (length pkt)" "k \<noteq> 0"
  shows "process_new_record cfg p pkt n = (case rec_put (rc_data x) (rc_current_len x) (take k pkt) x of
      None \<Rightarrow> None
    | Some y \<Rightarrow> let z = y\<lparr> rc_current_len := rc_current_len y + k \<rparr>; n = upd_rec r (\<lambda>_. z) m in
        if rc_current_len z = rc_length z then
          (case record_complete cfg p r n of None \<Rightarrow> None | Some n \<Rightarrow> process_new_record cfg p (drop k pkt) n)
        else process_new_record cfg p (drop k pkt) n)"
  by (subst process_new_record.simps) (simp add: assms(1,2,5) assms(3)[symmetric] assms(4)[symmetric] Let_def split: option.split)

lemma segment_join:
  assumes "a \<noteq> []" "current_record p a n = Some (Some r, m)" "x = n_records m r" "length a < rc_length x - rc_current_len x"
    and "rec_put (rc_data x) (rc_current_len x) a x = Some y" "e = upd_rec r (\<lambda>_. y\<lparr> rc_current_len := rc_current_len y + length a \<rparr>) m"
  shows "process_new_record cfg p (a @ b) n = process_new_record cfg p b e"
proof (cases "b = []")
  case True
  have k: "length a = min (rc_length x - rc_current_len x) (length a)" using assms(4) by simp
  have "rc_current_len y = rc_current_len x" "rc_length y = rc_length x" using assms(5) by (auto simp: rec_put_Some)
  moreover from this have "rc_current_len x + length a \<noteq> rc_length x" using assms(4) by linarith
  ultimately show ?thesis using assms(1,4,5,6) True by (simp add: process_new_record_turn[OF assms(1,2,3) k] Let_def)
next
  case b: False
  define k where "k = min (rc_length x - rc_current_len x - length a) (length b)"
  define z where "z = y\<lparr> rc_current_len := rc_current_len y + length a \<rparr>"
  have y: "y = rec_write (rc_data x) (rc_current_len x) a x" using assms(5) by (simp add: rec_put_Some)
  have z: "n_records e r = z" by (simp add: assms(6) z_def)
  have K: "length a + k = min (rc_length x - rc_current_len x) (length (a @ b))" using assms(4) by (simp add: k_def)
  have k': "k = min (rc_length z - rc_current_len z) (length b)" by (simp add: k_def z_def y)
  have k0: "k \<noteq> 0" using assms(4) b by (simp add: k_def)
  have cur: "current_record p b e = Some (Some r, e)"
    using current_record_sess[OF assms(2)] by (simp add: current_record_def assms(6))
  have t: "take (length a + k) (a @ b) = a @ take k b" "drop (length a + k) (a @ b) = drop k b" by simp_all
  have bd: "rc_current_len x + length a \<le> length (rec_bytes (rc_data x) x)" using assms(5) by (simp add: rec_put_Some)
  have fits: "rec_put (rc_data z) (rc_current_len z) (take k b) z = None \<longleftrightarrow>
      rec_put (rc_data x) (rc_current_len x) (a @ take k b) x = None"
    using bd by (auto simp: rec_put_def z_def y rec_bytes_write add.assoc)
  have same: "w1\<lparr> rc_current_len := rc_current_len w1 + (length a + k) \<rparr> = w2\<lparr> rc_current_len := rc_current_len w2 + k \<rparr>"
    if "rec_put (rc_data x) (rc_current_len x) (a @ take k b) x = Some w1" "rec_put (rc_data z) (rc_current_len z) (take k b) z = Some w2" for w1 w2
    using that by (cases "rc_data x")
      (auto simp: rec_put_Some z_def y rec_write_def rec_bytes_def blit_blit_append add.assoc)
  have u: "upd_rec r (\<lambda>_. w) e = upd_rec r (\<lambda>_. w) m" for w by (simp add: assms(6) comp_def)
  have ab: "a @ b \<noteq> []" using b by simp
  have k1: "length a + k \<noteq> 0" using k0 by simp
  show ?thesis
    unfolding process_new_record_turn[OF ab current_record_append[OF assms(2)] assms(3) K k1] process_new_record_turn[OF b cur z[symmetric] k' k0] t
    using fits same by (auto simp: Let_def u split: option.split)
qed

lemma segment_split:
  assumes "process_new_record cfg p a n = Some (False, n1)"
  shows "process_new_record cfg p (a @ b) n = process_new_record cfg p b n1"
  using assms
proof (induction cfg p a n arbitrary: n1 rule: process_new_record.induct)
  case (1 cfg p a n)
  show ?case
  proof (cases "a = []")
    case True with "1.prems" show ?thesis by (subst (asm) process_new_record.simps) simp
  next
    case pkt: False
    then obtain c m where m: "current_record p a n = Some (c, m)"
      using "1.prems" by (subst (asm) process_new_record.simps) (auto split: option.splits)
    then obtain r where c: "c = Some r"
      using pkt "1.prems" by (subst (asm) process_new_record.simps) (auto split: option.splits)
    note m' = m[unfolded c]
    let ?x = "n_records m r"
    let ?rem = "rc_length ?x - rc_current_len ?x"
    let ?k = "min ?rem (length a)"
    from c pkt m "1.prems" obtain y where k: "?k \<noteq> 0"
      and y: "rec_put (rc_data ?x) (rc_current_len ?x) (take ?k a) ?x = Some y"
      by (subst (asm) process_new_record.simps) (auto simp: Let_def split: option.splits if_splits)
    define z where "z = y\<lparr> rc_current_len := rc_current_len y + ?k \<rparr>"
    define e where "e = upd_rec r (\<lambda>_. z) m"
    note IH = "1.IH"[OF pkt m refl c refl refl k y z_def e_def]
    note eq = process_new_record_step[OF pkt m' refl k y z_def e_def, of cfg]
    show ?thesis
    proof (cases "?rem \<le> length a")
      case True
      then have k': "?k = min ?rem (length (a @ b))" and t: "take ?k (a @ b) = take ?k a" "drop ?k (a @ b) = drop ?k a @ b" by simp_all
      have y': "rec_put (rc_data ?x) (rc_current_len ?x) (take ?k (a @ b)) ?x = Some y" using y t by simp
      have ab: "a @ b \<noteq> []" using pkt by simp
      note eq' = process_new_record_step[OF ab current_record_append[OF m', of b] k' k y' z_def e_def, of cfg]
      show ?thesis
      proof (cases "rc_current_len z = rc_length z")
        case T: True
        then obtain g where g: "record_complete cfg p r e = Some g" "process_new_record cfg p (drop ?k a) g = Some (False, n1)"
          using eq "1.prems" by (auto split: option.splits)
        then show ?thesis using eq' T t IH(1)[OF T g] by simp
      next
        case F: False
        then have "process_new_record cfg p (drop ?k a) e = Some (False, n1)" using eq "1.prems" by simp
        from IH(2)[OF F this] show ?thesis using eq' F t by simp
      qed
    next
      case False
      then have ka: "?k = length a" "drop ?k a = []" "take ?k a = a" by simp_all
      have "rc_current_len z \<noteq> rc_length z" using y False ka by (auto simp: z_def rec_put_Some)
      then have "process_new_record cfg p [] e = Some (False, n1)" using eq "1.prems" ka by simp
      then have e: "n1 = e" by (subst (asm) process_new_record.simps) simp
      show ?thesis unfolding e
        by (rule segment_join[OF pkt m' refl _ y[unfolded ka(3)] e_def[unfolded z_def ka(1)]]) (use False in simp)
    qed
  qed
qed


section \<open>Protection of records\<close>

text \<open>What is used of AES-GCM: the text has the length of the ciphertext, the tag has 16 bytes, and decryption with the same key, nonce and
  additional data gives the text back.\<close>

definition gcm_law :: "openssl \<Rightarrow> bool" where
  "gcm_law lib \<longleftrightarrow> (\<forall>key nonce aad text. case ossl_gcm_enc lib key nonce aad text of (c, tag) \<Rightarrow>
     length c = length text \<and> length tag = GCM_TAG_SIZE \<and> ossl_gcm_dec lib key nonce aad c tag = (True, text))"

lemma gcm_lawD:
  assumes "gcm_law lib" "ossl_gcm_enc lib key nonce aad m = (c, tag)"
  shows "length c = length m" "length tag = 16" "ossl_gcm_dec lib key nonce aad c tag = (True, m)"
  using assms(1)[unfolded gcm_law_def, rule_format, of m key nonce aad] assms(2) by (simp_all add: GCM_TAG_SIZE_def)

lemma xor_cancel: "w XOR u = w XOR v \<Longrightarrow> u = v" for u v w :: u8
proof -
  assume "w XOR u = w XOR v"
  then have "w XOR (w XOR u) = w XOR (w XOR v)" by simp
  then show "u = v" by (simp add: xor.assoc[symmetric])
qed

lemma map2_xor_inj:
  fixes a b x :: bytes
  assumes "length a = length x" "length b = length x" "map2 (XOR) x a = map2 (XOR) x b"
  shows "a = b"
proof (rule nth_equalityI)
  show "length a = length b" using assms(1,2) by simp
  fix i assume i: "i < length a"
  have "map2 (XOR) x a ! i = map2 (XOR) x b ! i" using assms(3) by simp
  then have "x ! i XOR a ! i = x ! i XOR b ! i" using i assms(1,2) by simp
  then show "a ! i = b ! i" by (rule xor_cancel)
qed

lemma gcm_nonce_inj:
  assumes "12 \<le> length iv" "gcm_nonce iv a = gcm_nonce iv b"
  shows "a = b"
proof -
  have "map2 (XOR) (seg 4 8 iv) (be_bytes 8 a) = map2 (XOR) (seg 4 8 iv) (be_bytes 8 b)"
    using assms(2) by (simp add: gcm_nonce_def)
  from map2_xor_inj[OF _ _ this] have "be_bytes 8 a = be_bytes 8 b" using assms(1) by simp
  then have "be_word (be_bytes 8 a) = (be_word (be_bytes 8 b) :: u64)" by simp
  then show ?thesis by (simp add: byte_simps)
qed

lemma blit_header:
  "length h = 5 \<Longrightarrow> length w = 2 \<Longrightarrow> 5 \<le> length d \<Longrightarrow> blit (blit d 0 h) 3 w = (take 3 h @ w) @ drop 5 d"
  by (simp add: blit_def)

lemma blit_behind: "length h = i \<Longrightarrow> blit (h @ d) i s = h @ s @ drop (length s) d"
  by (simp add: blit_def)

text \<open>The bytes of a protected record, and that they fit.\<close>

definition sealed :: "openssl \<Rightarrow> bytes \<Rightarrow> bytes \<Rightarrow> tls_record \<Rightarrow> tls_record \<Rightarrow> bool" where
  "sealed lib key nonce x y \<longleftrightarrow> (let l = unat (rc_plain_length x); P = rec_bytes (rc_decrypted x) x;
       aad = seg 0 3 P @ be_bytes 2 (rc_plain_length x + 16) in
     rc_length y = l + 21 \<and> unat (rc_cipher_length y) = l + 16 \<and>
     (case ossl_gcm_enc lib (seg 0 32 key) nonce aad (seg 5 l P) of (c, tag) \<Rightarrow>
       seg 0 (l + 21) (rec_bytes (rc_data y) y) = aad @ c @ tag) \<and>
     rc_data y = rc_data x \<and> rc_state y = rc_state x \<and> rc_seq_num y = rc_seq_num x \<and> rc_decrypted y = rc_decrypted x \<and>
     rec_bytes (rc_decrypted y) y = P)"

lemma seal_run:
  assumes "gcm_law lib" "rc_data x \<noteq> rc_decrypted x" "rec_sz x"
  defines "l \<equiv> unat (rc_plain_length x)" and "P \<equiv> rec_bytes (rc_decrypted x) x"
    and "aad \<equiv> seg 0 3 (rec_bytes (rc_decrypted x) x) @ be_bytes 2 (rc_plain_length x + 16)"
  shows "\<exists>y. seal lib key nonce x = (if l + 21 \<le> 16053 then Some (if l = 0 then - 1 else 0, y) else None) \<and>
    (l + 21 \<le> 16053 \<longrightarrow> sealed lib key nonce x y)"
proof -
  have sz: "length (rec_bytes a x) = 16053" for a
    using assms(3) by (cases a) (simp_all add: rec_sz_def rec_bytes_def MAX_RECORD_SIZE_def)
  obtain c tag where e: "ossl_gcm_enc lib (seg 0 32 key) nonce aad (seg 5 l P) = (c, tag)" by fastforce
  have g: "length tag = 16" "length c = min l (16053 - 5)"
    using gcm_lawD[OF assms(1) e] sz by (simp_all add: P_def)
  let ?clen = "rc_plain_length x + 16 :: u16"
  define D where "D = rec_bytes (rc_data x) x"
  have hdr: "blit (blit D 0 (seg 0 5 P)) 3 (be_bytes 2 ?clen) = aad @ drop 5 D"
  proof -
    have "take 3 (seg 0 5 P) = seg 0 3 P" by (simp add: seg_def)
    then show ?thesis using blit_header[of "seg 0 5 P" "be_bytes 2 ?clen" D] sz by (simp add: P_def D_def aad_def)
  qed
  have la: "length aad = 5" using sz by (simp add: aad_def)
  define x1 where "x1 = x\<lparr> rc_cipher_length := ?clen \<rparr>"
  define x2 where "x2 = rec_write (rc_data x) 0 (seg 0 5 P) x1"
  define x3 where "x3 = rec_write (rc_data x) 3 (be_bytes 2 ?clen) x2"
  define x4 where "x4 = x3\<lparr> rc_length := unat ?clen + 5 \<rparr>"
  define x5 where "x5 = rec_write (rc_data x) 5 (c @ tag) x4"
  have ptr: "rc_data x1 = rc_data x" "rc_decrypted x1 = rc_decrypted x" "rc_data x2 = rc_data x" "rc_data x3 = rc_data x"
    "rc_decrypted x3 = rc_decrypted x" "rc_data x4 = rc_data x" "rc_plain_length x3 = rc_plain_length x"
    by (simp_all add: x1_def x2_def x3_def x4_def)
  have by1: "rec_bytes (rc_decrypted x) x1 = P" by (simp add: x1_def P_def)
  have by3: "rec_bytes (rc_decrypted x) x3 = P" "rec_bytes (rc_data x) x3 = aad @ drop 5 D"
    using assms(2) hdr by (simp_all add: x1_def x2_def x3_def rec_bytes_write P_def D_def)
  have p2: "rec_put (rc_data x) 0 (seg 0 5 P) x1 = Some x2" using sz by (simp add: rec_put_Some x2_def x1_def)
  have p3: "rec_put (rc_data x) 3 (be_bytes 2 ?clen) x2 = Some x3" using sz by (simp add: rec_put_Some x3_def x2_def x1_def rec_bytes_write)
  have aad3: "seg 0 5 (aad @ drop 5 D) = aad" using la by (simp add: seg_def)
  have by4: "length (rec_bytes (rc_data x) x4) = 16053" using sz la by (simp add: x4_def by3 D_def)
  have lP: "length P = 16053" using sz by (simp add: P_def)
  have eq: "seal lib key nonce x = (if 5 + l \<le> 16053 then
      if 5 + (length c + 16) \<le> 16053 then Some (if seg 5 l P = [] then - 1 else 0, x5) else None else None)"
    unfolding seal_def Let_def RECORD_HEADER_SIZE_def GCM_TAG_SIZE_def of_nat_numeral x1_def[symmetric] ptr by1 P_def[symmetric]
      p2 Option.bind.bind_lunit ptr p3 by3 aad3 l_def[symmetric] rd_seg_def lP
    using e g by4 by (auto simp: x4_def[symmetric] ptr rec_put_def x5_def)
  have "seg 5 l P = [] \<longleftrightarrow> l = 0" using lP by (auto simp: seg_def)
  then have eq': "seal lib key nonce x = (if l + 21 \<le> 16053 then Some (if l = 0 then - 1 else 0, x5) else None)"
    unfolding eq using g by auto
  have "sealed lib key nonce x x5" if l: "l + 21 \<le> 16053"
  proof -
    have u: "unat ?clen = l + 16" using l by (simp add: l_def unat_word_ariths)
    have "seg 0 (l + 21) (rec_bytes (rc_data x5) x5) = aad @ c @ tag"
      using la g l by (simp add: x5_def rec_bytes_write x4_def ptr by3 blit_behind) (simp add: seg_def)
    moreover have "rec_bytes (rc_decrypted x5) x5 = P" using assms(2) by3 by (simp add: x5_def x4_def rec_bytes_write ptr)
    moreover have "rc_length x5 = l + 21" "unat (rc_cipher_length x5) = l + 16" "rc_data x5 = rc_data x" "rc_state x5 = rc_state x"
      "rc_seq_num x5 = rc_seq_num x" "rc_decrypted x5 = rc_decrypted x"
      using u by (simp_all add: x1_def x2_def x3_def x4_def x5_def)
    moreover have "seg 0 3 P @ be_bytes 2 ?clen = aad" by (simp add: aad_def P_def)
    ultimately show ?thesis using e by (simp add: sealed_def Let_def l_def[symmetric] P_def[symmetric])
  qed
  with eq' show ?thesis by blast
qed


lemma sealed_bytes:
  assumes "sealed lib key nonce x y" "rec_sz x" "rec_sz y" "unat (rc_plain_length x) = l" "L = l + 21" "L \<le> 16053"
  shows "\<exists>aad c tag. ossl_gcm_enc lib (seg 0 32 key) nonce aad (seg 5 l (rec_bytes (rc_decrypted x) x)) = (c, tag) \<and> length aad = 5 \<and>
    rc_length y = L \<and> rd_seg (rec_bytes (rc_data y) y) 0 L = Some (aad @ c @ tag)"
proof -
  define aad where "aad = seg 0 3 (rec_bytes (rc_decrypted x) x) @ be_bytes 2 (rc_plain_length x + 16)"
  obtain c tag where e: "ossl_gcm_enc lib (seg 0 32 key) nonce aad (seg 5 l (rec_bytes (rc_decrypted x) x)) = (c, tag)" by fastforce
  have "rc_length y = L" "seg 0 L (rec_bytes (rc_data y) y) = aad @ c @ tag"
    using assms(1,4,5) e by (auto simp: sealed_def Let_def aad_def)
  moreover have "length aad = 5" using assms(2) by (cases "rc_decrypted x") (simp_all add: aad_def rec_sz_def rec_bytes_def MAX_RECORD_SIZE_def)
  moreover have "L \<le> length (rec_bytes (rc_data y) y)"
    using assms(3,6) by (cases "rc_data y") (simp_all add: rec_sz_def rec_bytes_def MAX_RECORD_SIZE_def)
  ultimately show ?thesis using e by (intro exI[of _ aad] exI[of _ c] exI[of _ tag]) (simp add: rd_seg_def)
qed

text \<open>The receiving side on the bytes of a protected record.\<close>

lemma unseal_run:
  assumes "ossl_gcm_dec lib (seg 0 32 key) nonce aad c tag = (True, m)" "rc_data z \<noteq> rc_decrypted z" "rec_sz z"
    and "length aad = 5" "length tag = 16" "length c = l" "length m = l" "0 < l" "l + 21 \<le> 16053"
    and "seg 0 (l + 21) (rec_bytes (rc_data z) z) = aad @ c @ tag" "unat (rc_cipher_length z) = l + 16"
  shows "\<exists>w. unseal lib key nonce z = Some (0, w) \<and> seg 5 l (rec_bytes (rc_decrypted w) w) = m \<and> unat (rc_cipher_length w) = l \<and>
    seg 0 3 (rec_bytes (rc_decrypted w) w) = seg 0 3 aad \<and> rc_state w = rc_state z \<and> rc_decrypted w = rc_decrypted z \<and> rc_data w = rc_data z"
proof -
  have sz: "length (rec_bytes a z) = 16053" for a
    using assms(3) by (cases a) (simp_all add: rec_sz_def rec_bytes_def MAX_RECORD_SIZE_def)
  define D where "D = rec_bytes (rc_data z) z"
  have D: "D = (aad @ c @ tag) @ drop (l + 21) D" using assms(10) by (simp add: D_def seg_def) (metis append_assoc append_take_drop_id)
  have lD: "length D = 16053" by (simp add: D_def sz)
  have cut: "seg 0 5 D = aad" "seg 5 l D = c" "seg (5 + l) 16 D = tag"
    using assms(4-6) by (subst D, simp add: seg_def)+
  define z1 where "z1 = z\<lparr> rc_cipher_length := rc_cipher_length z - 16 \<rparr>"
  define z2 where "z2 = rec_write (rc_decrypted z) 0 aad z1"
  define z3 where "z3 = rec_write (rc_decrypted z) 5 m z2"
  define z4 where "z4 = rec_write (rc_decrypted z) 3 (be_bytes 2 (rc_cipher_length z1)) z3"
  have cl: "unat (rc_cipher_length z1) = l" using assms(11) by (simp add: z1_def unat_sub_if_size word_size)
  have p2: "rec_put (rc_decrypted z) 0 aad z1 = Some z2" using sz assms(4) by (simp add: rec_put_Some z2_def z1_def)
  have p3: "rec_put (rc_decrypted z) 5 m z2 = Some z3" using sz assms(4,7,9) by (simp add: rec_put_Some z3_def z2_def z1_def rec_bytes_write)
  have p4: "rec_put (rc_decrypted z) 3 (be_bytes 2 (rc_cipher_length z1)) z3 = Some z4"
    using sz assms(4,7,9) by (simp add: rec_put_Some z4_def z3_def z2_def z1_def rec_bytes_write)
  have ptr: "rc_data z1 = rc_data z" "rc_decrypted z1 = rc_decrypted z" "rc_decrypted z2 = rc_decrypted z" "rc_decrypted z3 = rc_decrypted z"
    "rec_bytes (rc_data z) z1 = D" "rc_cipher_length z3 = rc_cipher_length z1"
    by (simp_all add: z1_def z2_def z3_def D_def)
  have c: "c \<noteq> []" using assms(6,8) by auto
  have run: "unseal lib key nonce z = Some (0, z4)"
    unfolding unseal_def Let_def RECORD_HEADER_SIZE_def GCM_TAG_SIZE_def of_nat_numeral z1_def[symmetric] ptr cut p2 Option.bind.bind_lunit cl rd_seg_def lD
    using assms(1,9) c by (simp add: ptr p3 p4)
  define W where "W = rec_bytes (rc_decrypted z) z4"
  have W: "W = blit (blit (blit (rec_bytes (rc_decrypted z) z) 0 aad) 5 m) 3 (be_bytes 2 (rc_cipher_length z1))"
    by (simp add: W_def z4_def z3_def z2_def z1_def rec_bytes_write)
  have "seg 5 l W = m" "seg 0 3 W = seg 0 3 aad"
    using assms(4,7,9) sz by (simp_all add: W blit_def seg_def min_def)
  then show ?thesis using run cl by (auto simp: W_def z4_def z3_def z2_def z1_def)
qed


section \<open>Messages of the server\<close>

lemma rec_put_area [simp]:
  "rec_put Area_mac_in i b x = (if i + length b \<le> length (rc_mac_in x) then Some (x\<lparr> rc_mac_in := blit (rc_mac_in x) i b \<rparr>) else None)"
  by (simp add: rec_put_def rec_bytes_def rec_write_def)

text \<open>\<open>packs\<close> says which bytes a message has; the record then holds them and the content type behind the header.\<close>

definition packs :: "nat \<Rightarrow> u8 \<Rightarrow> bytes \<Rightarrow> hs_body \<Rightarrow> bytes \<Rightarrow> bool" where
  "packs sl t h body m \<longleftrightarrow> (\<forall>x. rc_fragment x = Frag_handshake t h body \<longrightarrow> pack_application_data sl x 5 = close_inner x 5 m)"

lemma pack_record_run:
  assumes "rc_state x = TO_PACK_HEADER" "rc_plain_type x = APPLICATION_DATA" "rc_decrypted x = Area_mac_in" "rec_sz x"
    and "rc_fragment x = Frag_handshake t h body" "packs sl t h body m" "unat (rc_plain_length x) = length m" "length m + 6 \<le> 16053"
  shows "\<exists>b. pack_record sl x = Some (int (length m + 6), x\<lparr> rc_state := TO_APPEND_MAC, rc_mac_in := b,
      rc_plain_length := rc_plain_length x + 1, rc_length := rc_length x + 1 \<rparr>) \<and> length b = 16053 \<and>
    seg 0 3 b = [APPLICATION_DATA, fst (rc_plain_version x), snd (rc_plain_version x)] \<and> seg 5 (length m + 1) b = m @ [HANDSHAKE] \<and>
    unat (rc_plain_length x + 1) = length m + 1"
proof -
  have sz: "length (rc_mac_in x) = 16053" using assms(4) by (simp add: rec_sz_def MAX_RECORD_SIZE_def)
  have ty: "APPLICATION_DATA \<noteq> HANDSHAKE" "APPLICATION_DATA \<noteq> CHANGE_CIPHER_SPEC" "APPLICATION_DATA \<noteq> ALERT"
    by (simp_all add: APPLICATION_DATA_def HANDSHAKE_def CHANGE_CIPHER_SPEC_def ALERT_def)
  let ?h = "[APPLICATION_DATA, fst (rc_plain_version x), snd (rc_plain_version x)] @ be_bytes 2 (rc_plain_length x)"
  define b1 where "b1 = blit (rc_mac_in x) 0 ?h"
  define b where "b = blit (blit b1 5 (m @ [HANDSHAKE])) 3 (be_bytes 2 (rc_plain_length x + 1))"
  have b1: "length b1 = 16053" using sz by (simp add: b1_def)
  define x1 where "x1 = x\<lparr> rc_state := TO_APPEND_MAC, rc_mac_in := b1 \<rparr>"
  have "pack_record sl x = pack_application_data sl x1 5"
    using assms(1-3) sz ty by (simp add: pack_record_def Let_def x1_def b1_def RECORD_HEADER_SIZE_def)
  also have "\<dots> = close_inner x1 5 m" using assms(5,6) by (simp add: packs_def x1_def)
  also have "\<dots> = Some (int (length m + 6), x\<lparr> rc_state := TO_APPEND_MAC, rc_mac_in := b,
      rc_plain_length := rc_plain_length x + 1, rc_length := rc_length x + 1 \<rparr>)"
    using assms(3,8) b1 by (simp add: close_inner_def Let_def x1_def b_def add.commute)
  finally have 1: "pack_record sl x = \<dots>" .
  have 2: "length b = 16053" using b1 assms(8) by (simp add: b_def)
  define h where "h = ?h"
  have h: "length h = 5" "take 3 h = [APPLICATION_DATA, fst (rc_plain_version x), snd (rc_plain_version x)]" by (simp_all add: h_def)
  have "b1 = h @ drop 5 (rc_mac_in x)" by (simp add: b1_def blit_def h_def)
  then have "b = blit (h @ (m @ [HANDSHAKE]) @ drop (length m + 1) (drop 5 (rc_mac_in x))) 3 (be_bytes 2 (rc_plain_length x + 1))"
    by (simp add: b_def blit_behind[OF h(1)] del: drop_drop)
  then have "b = take 3 h @ be_bytes 2 (rc_plain_length x + 1) @ (m @ [HANDSHAKE]) @ drop (length m + 1) (drop 5 (rc_mac_in x))"
    using h(1) by (simp add: blit_def del: drop_drop)
  then have 3: "seg 0 3 b = take 3 h" "seg 5 (length m + 1) b = m @ [HANDSHAKE]" using h(1) by (simp_all add: seg_def del: drop_drop)
  have "unat (rc_plain_length x + 1) = length m + 1" using assms(7,8) by (simp add: unat_word_ariths)
  with 1 2 3 h(2) show ?thesis by (intro exI[of _ b]) simp
qed


lemma n_conns_upd_sess [simp]:
  "n_conns (upd_sess p f n) = (n_conns n)(p := (n_conns n p)\<lparr> tc_ssl_session := f (nic_sess n p) \<rparr>)"
  by (simp add: upd_sess_def upd_tcp_def)

lemma pools_upd [simp]:
  "n_records (upd_sess p f n) = n_records n" "n_record_pool (upd_sess p f n) = n_record_pool n" "n_op_pool (upd_sess p f n) = n_op_pool n"
  "n_record_pool (upd_rec r g n) = n_record_pool n" "n_op_pool (upd_rec r g n) = n_op_pool n"
  "n_wmbufs (upd_sess p f n) = n_wmbufs n" "n_wmbufs (upd_rec r g n) = n_wmbufs n" "n_ops (upd_sess p f n) = n_ops n" "n_ops (upd_rec r g n) = n_ops n"
  "n_free_q (upd_sess p f n) = n_free_q n" "n_free_q (upd_rec r g n) = n_free_q n"
  "n_active_cnt (upd_sess p f n) = n_active_cnt n" "n_active_cnt (upd_rec r g n) = n_active_cnt n"
  by (simp_all add: upd_sess_def upd_tcp_def upd_rec_def)

text \<open>The record \<open>r\<close> is sealed with the key of the server, and its sequence number is used up.\<close>

lemma encrypt_record_run:
  fixes n p r
  defines "s \<equiv> nic_sess n p" and "x \<equiv> n_records n r"
  assumes "n_op_pool n = op # ops" "op \<notin> set ops" "ss_server_write_IV_seq_num s = rc_seq_num x" "nonce_fits (ss_write_sp s)"
    and "gcm_law lib" "rc_data x \<noteq> rc_decrypted x" "rec_sz x" "0 < unat (rc_plain_length x)" "unat (rc_plain_length x) + 21 \<le> 16053"
    and "rc_state x = TO_ENCRYPT"
  shows "\<exists>y n'. encrypt_record lib p r n = Some (0, n') \<and> rec_sz y \<and>
    sealed lib (tx_server_handshake_key (ss_tls13_ctx s)) (gcm_nonce (tx_server_handshake_iv (ss_tls13_ctx s)) (ss_send_seq_num s)) x y \<and>
    n_records n' = (n_records n)(r := y\<lparr> rc_state := WRITE_READY \<rparr>) \<and> n_record_pool n' = n_record_pool n \<and> n_op_pool n' = ops @ [op] \<and>
    n_conns n' = (n_conns n)(p := (n_conns n p)\<lparr> tc_ssl_session :=
      s\<lparr> ss_send_seq_num := ss_send_seq_num s + 1, ss_server_write_IV_seq_num := rc_seq_num x + 1 \<rparr> \<rparr>)"
proof -
  let ?k = "tx_server_handshake_key (ss_tls13_ctx s)" and ?i = "gcm_nonce (tx_server_handshake_iv (ss_tls13_ctx s)) (ss_send_seq_num s)"
  obtain y where y: "seal lib ?k ?i x = Some (0, y)" "sealed lib ?k ?i x y"
    using seal_run[OF assms(7-9), of ?k ?i] assms(10,11) by auto
  have f: "rc_state y = TO_ENCRYPT" "rc_seq_num y = rc_seq_num x" using y(2) assms(12) by (simp_all add: sealed_def Let_def)
  have op: "new_ssl_crypto_op n = Some (op, n\<lparr> n_op_pool := ops, n_free_op_cnt := n_free_op_cnt n - 1, n_using_op_cnt := n_using_op_cnt n + 1 \<rparr>)"
    using assms(3) by (simp add: new_ssl_crypto_op_def)
  have "\<exists>n'. encrypt_record lib p r n = Some (0, n') \<and>
    n_records n' = (n_records n)(r := y\<lparr> rc_state := WRITE_READY \<rparr>) \<and> n_record_pool n' = n_record_pool n \<and> n_op_pool n' = ops @ [op] \<and>
    n_conns n' = (n_conns n)(p := (n_conns n p)\<lparr> tc_ssl_session :=
      s\<lparr> ss_send_seq_num := ss_send_seq_num s + 1, ss_server_write_IV_seq_num := rc_seq_num x + 1 \<rparr> \<rparr>)"
    using assms(4-6) y(1) f
    by (simp add: encrypt_record_def Let_def op s_def[symmetric] x_def[symmetric] handle_after_aes_gcm_encrypt_def delete_op_def)
  with y(2) seal_sz[OF y(1) assms(9)] show ?thesis by blast
qed


definition can_send :: "nat \<Rightarrow> rec_ptr \<Rightarrow> tls_record \<Rightarrow> ssl_session \<Rightarrow> bool" where
  "can_send l r x s \<longleftrightarrow>
     rc_state x = TO_PACK_HEADER \<and> rc_decrypted x = Area_mac_in \<and> rc_data x = Area_buf \<and> rec_sz x \<and>
     ss_server_write_IV_seq_num s = rc_seq_num x \<and> nonce_fits (ss_write_sp s) \<and> sp_bulk_cipher_algorithm (ss_write_sp s) \<noteq> NO_CIPHER \<and>
     sp_cipher_type (ss_pending_sp s) = AEAD \<and> ss_handshake_msgs_len s + l < MAX_HANDSHAKE_LENGTH \<and>
     l + 22 \<le> MAX_RECORD_SIZE - 8 \<and>
     0 \<le> ss_send_buffer_offset s \<and> nat (ss_send_buffer_offset s) + l + 22 \<le> MAX_RECORD_SIZE"

lemma store_message:
  assumes "n_records n r = x" "nic_sess n p = s" "rc_fragment x = Frag_handshake t h body" "rc_plain_type x = APPLICATION_DATA"
    and "ss_handshake_state s < unat t" "unat (rc_plain_length x) = length m + 1" "rc_decrypted x = Area_mac_in" "length (rc_mac_in x) = 16053"
    and "seg 5 (length m + 1) (rc_mac_in x) = m @ [HANDSHAKE]" "length m + 6 \<le> 16053" "ss_handshake_msgs_len s + length m < MAX_HANDSHAKE_LENGTH"
  shows "store_handshake p r n = Some (int (ss_handshake_msgs_len s + length m),
    upd_sess p (\<lambda>_. s\<lparr> ss_handshake_msgs := blit (ss_handshake_msgs s) (ss_handshake_msgs_len s) m,
      ss_handshake_msgs_len := ss_handshake_msgs_len s + length m \<rparr>) n)"
proof -
  have "seg 5 (length m) (rc_mac_in x) = take (length m) (seg 5 (length m + 1) (rc_mac_in x))" by (simp add: seg_def)
  also have "\<dots> = m" unfolding assms(9) by simp
  finally have "rd_seg (rc_mac_in x) 5 (length m) = Some m" using assms(8,10) by (simp add: rd_seg_def)
  moreover have "rc_plain_length x \<noteq> 0" using assms(6) by auto
  ultimately show ?thesis using assms(1-7,11)
    by (simp add: store_handshake_def Let_def frag_msg_type_def rec_bytes_def RECORD_HEADER_SIZE_def)
      (simp add: upd_sess_def upd_tcp_def)
qed

definition message_record :: "nat \<Rightarrow> nat \<Rightarrow> hs_body \<Rightarrow> u8 \<times> u8 \<Rightarrow> tls_record \<Rightarrow> tls_record" where
  "message_record t len body v x = x\<lparr> rc_fragment := Frag_handshake (of_nat t) (set_u32 (of_nat len)) body, rc_plain_length := of_nat (len + 4),
    rc_plain_type := APPLICATION_DATA, rc_plain_version := v, rc_length := len + 4 + 5 \<rparr>"

lemma message_stored:
  fixes n p r
  defines "s \<equiv> nic_sess n p" and "x \<equiv> n_records n r"
  assumes "can_send (length m) r x s" "packs sl (of_nat t) (set_u32 (of_nat len)) body m" "length m = len + 4"
    and "ss_handshake_state s < unat (of_nat t :: u8)"
  shows "\<exists>y. pack_record sl (message_record t len body v x) = Some (int (length m + 6), y) \<and>
    store_handshake p r (upd_rec r (\<lambda>_. y) n) = Some (int (ss_handshake_msgs_len s + length m),
      upd_sess p (\<lambda>_. s\<lparr> ss_handshake_msgs := blit (ss_handshake_msgs s) (ss_handshake_msgs_len s) m,
        ss_handshake_msgs_len := ss_handshake_msgs_len s + length m \<rparr>) (upd_rec r (\<lambda>_. y) n)) \<and>
    unat (rc_plain_length y) = length m + 1 \<and> seg 5 (length m + 1) (rec_bytes (rc_decrypted y) y) = m @ [HANDSHAKE] \<and> rec_sz y \<and>
    rc_data y \<noteq> rc_decrypted y \<and> rc_seq_num y = rc_seq_num x \<and> rc_plain_type y = APPLICATION_DATA"
proof -
  note cs = assms(3)[unfolded can_send_def MAX_RECORD_SIZE_def]
  define x2 where "x2 = message_record t len body v x"
  have l: "len + 4 + 22 \<le> 16053" using cs assms(5) by simp
  then have pl: "unat (rc_plain_length x2) = length m" using assms(5) by (simp add: x2_def message_record_def unat_of_nat_u16 del: of_nat_add)
  have x2: "rc_state x2 = TO_PACK_HEADER" "rc_plain_type x2 = APPLICATION_DATA" "rc_decrypted x2 = Area_mac_in" "rec_sz x2" "rc_data x2 = Area_buf"
    "rc_fragment x2 = Frag_handshake (of_nat t) (set_u32 (of_nat len)) body" "rc_seq_num x2 = rc_seq_num x"
    using cs by (simp_all add: x2_def message_record_def)
  obtain b where b: "pack_record sl x2 = Some (int (length m + 6), x2\<lparr> rc_state := TO_APPEND_MAC, rc_mac_in := b,
      rc_plain_length := rc_plain_length x2 + 1, rc_length := rc_length x2 + 1 \<rparr>)" "length b = 16053"
    "seg 5 (length m + 1) b = m @ [HANDSHAKE]" "unat (rc_plain_length x2 + 1) = length m + 1"
    using pack_record_run[OF x2(1-4,6) assms(4) pl] l assms(5) by auto
  define y where "y = x2\<lparr> rc_state := TO_APPEND_MAC, rc_mac_in := b, rc_plain_length := rc_plain_length x2 + 1, rc_length := rc_length x2 + 1 \<rparr>"
  have "rec_sz y" using b(2) x2(4) by (simp add: y_def rec_sz_def MAX_RECORD_SIZE_def)
  moreover have "store_handshake p r (upd_rec r (\<lambda>_. y) n) = Some (int (ss_handshake_msgs_len s + length m),
      upd_sess p (\<lambda>_. s\<lparr> ss_handshake_msgs := blit (ss_handshake_msgs s) (ss_handshake_msgs_len s) m,
        ss_handshake_msgs_len := ss_handshake_msgs_len s + length m \<rparr>) (upd_rec r (\<lambda>_. y) n))"
    using cs b(2-4) x2 l assms(5,6) by (intro store_message[where x = y]) (simp_all add: s_def y_def)
  ultimately show ?thesis using b x2 by (intro exI[of _ y]) (simp add: x2_def[symmetric] y_def[symmetric], simp add: y_def rec_bytes_def)
qed

text \<open>A message goes into the transcript and, protected, behind the bytes that wait in the send buffer.\<close>

lemma send_message_run:
  fixes n p r
  defines "s \<equiv> nic_sess n p" and "x \<equiv> n_records n r"
  assumes "can_send (length m) r x s" "gcm_law lib" "n_op_pool n = op # ops" "op \<notin> set ops" "r \<notin> set (n_record_pool n)"
    and "packs (unat (tx_cert_signature_len (ss_tls13_ctx s))) (of_nat t) (set_u32 (of_nat len)) body m" "length m = len + 4"
    and "ss_handshake_state s < unat (of_nat t :: u8)"
  shows "\<exists>aad c tag n'. send_handshake_tls13 lib p r t body len n = Some (int (length m + 22), n') \<and>
    length aad = 5 \<and> ossl_gcm_enc lib (seg 0 32 (tx_server_handshake_key (ss_tls13_ctx s)))
      (gcm_nonce (tx_server_handshake_iv (ss_tls13_ctx s)) (ss_send_seq_num s)) aad (m @ [HANDSHAKE]) = (c, tag) \<and>
    n_record_pool n' = n_record_pool n @ [r] \<and> n_op_pool n' = ops @ [op] \<and>
    n_conns n' = (n_conns n)(p := (n_conns n p)\<lparr> tc_ssl_session := s\<lparr>
      ss_handshake_msgs := blit (ss_handshake_msgs s) (ss_handshake_msgs_len s) m, ss_handshake_msgs_len := ss_handshake_msgs_len s + length m,
      ss_send_seq_num := ss_send_seq_num s + 1, ss_server_write_IV_seq_num := rc_seq_num x + 1,
      ss_send_buffer := blit (ss_send_buffer s) (nat (ss_send_buffer_offset s)) (aad @ c @ tag),
      ss_send_buffer_offset := ss_send_buffer_offset s + int (length m + 22), ss_num_current_records := ss_num_current_records s - 1 \<rparr> \<rparr>)"
proof -
  let ?k = "tx_server_handshake_key (ss_tls13_ctx s)" and ?i = "gcm_nonce (tx_server_handshake_iv (ss_tls13_ctx s)) (ss_send_seq_num s)"
  let ?sl = "unat (tx_cert_signature_len (ss_tls13_ctx s))" and ?off = "ss_send_buffer_offset s"
  note cs = assms(3)[unfolded can_send_def MAX_RECORD_SIZE_def]
  define x2 s3 where "x2 = message_record t len body (ss_version s) x"
    and "s3 = s\<lparr> ss_handshake_msgs := blit (ss_handshake_msgs s) (ss_handshake_msgs_len s) m, ss_handshake_msgs_len := ss_handshake_msgs_len s + length m \<rparr>"
  obtain x3 where x3: "pack_record ?sl x2 = Some (int (length m + 6), x3)"
    "store_handshake p r (upd_rec r (\<lambda>_. x3) n) = Some (int (ss_handshake_msgs_len s + length m), upd_sess p (\<lambda>_. s3) (upd_rec r (\<lambda>_. x3) n))"
    "unat (rc_plain_length x3) = length m + 1" "seg 5 (length m + 1) (rec_bytes (rc_decrypted x3) x3) = m @ [HANDSHAKE]" "rec_sz x3"
    "rc_data x3 \<noteq> rc_decrypted x3" "rc_seq_num x3 = rc_seq_num x" "rc_plain_type x3 = APPLICATION_DATA"
    using message_stored[OF assms(3,8-10)[unfolded s_def x_def], of "ss_version s"] by (auto simp: s_def x_def s3_def x2_def)
  define n3 x4 where "n3 = upd_rec r (\<lambda>x. x\<lparr> rc_state := TO_ENCRYPT \<rparr>) (upd_sess p (\<lambda>_. s3) (upd_rec r (\<lambda>_. x3) n))"
    and "x4 = x3\<lparr> rc_state := TO_ENCRYPT \<rparr>"
  have n3: "n_records n3 r = x4" "nic_sess n3 p = s3" "n_op_pool n3 = op # ops" "n_record_pool n3 = n_record_pool n"
    "n_conns n3 = (n_conns n)(p := (n_conns n p)\<lparr> tc_ssl_session := s3 \<rparr>)"
    using assms(5) by (simp_all add: n3_def x4_def)
  have x4: "unat (rc_plain_length x4) = length m + 1" "rec_bytes (rc_decrypted x4) x4 = rec_bytes (rc_decrypted x3) x3" "rec_sz x4"
    "rc_data x4 \<noteq> rc_decrypted x4" "rc_seq_num x4 = rc_seq_num x" "rc_state x4 = TO_ENCRYPT" using x3 by (simp_all add: x4_def)
  have s3: "ss_server_write_IV_seq_num s3 = rc_seq_num x" "nonce_fits (ss_write_sp s3)" "ss_tls13_ctx s3 = ss_tls13_ctx s"
    "ss_send_seq_num s3 = ss_send_seq_num s" using cs by (simp_all add: s3_def)
  define s4 where "s4 = s3\<lparr> ss_send_seq_num := ss_send_seq_num s + 1, ss_server_write_IV_seq_num := rc_seq_num x + 1 \<rparr>"
  obtain y n4 where y: "encrypt_record lib p r n3 = Some (0, n4)" "rec_sz y" "sealed lib ?k ?i x4 y"
    "n_records n4 = (n_records n3)(r := y\<lparr> rc_state := WRITE_READY \<rparr>)" "n_record_pool n4 = n_record_pool n" "n_op_pool n4 = ops @ [op]"
    "n_conns n4 = (n_conns n3)(p := (n_conns n3 p)\<lparr> tc_ssl_session := s4 \<rparr>)"
    using encrypt_record_run[of n3 op ops p r lib, unfolded n3(1-4) x4(1,5,6) s3, OF refl assms(6) refl s3(2) assms(4) x4(4,3)] cs by (auto simp: s4_def)
  obtain aad c tag where e: "ossl_gcm_enc lib (seg 0 32 ?k) ?i aad (m @ [HANDSHAKE]) = (c, tag)" "length aad = 5" "rc_length y = length m + 22"
    "rd_seg (rec_bytes (rc_data y) y) 0 (length m + 22) = Some (aad @ c @ tag)"
    using sealed_bytes[OF y(3) x4(3) y(2) x4(1), of "length m + 22", unfolded x4(2) x3(4)] cs by auto
  have n4: "n_records n4 r = y\<lparr> rc_state := WRITE_READY \<rparr>" "nic_sess n4 p = s4" "ss_send_buffer_offset s4 = ?off"
    by (simp_all add: y s4_def s3_def)
  define n5 where "n5 = upd_sess p (\<lambda>s. s\<lparr> ss_send_buffer := blit (ss_send_buffer s) (nat ?off) (aad @ c @ tag),
      ss_send_buffer_offset := ?off + int (length m + 22) \<rparr>) n4"
  obtain n6 where n6: "delete_record p r n5 = Some n6" "n_record_pool n6 = n_record_pool n @ [r]" "n_op_pool n6 = ops @ [op]"
    "n_conns n6 = n_conns (upd_sess p (\<lambda>s. s\<lparr> ss_num_current_records := ss_num_current_records s - 1 \<rparr>) n5)"
    using assms(7) y(5,6) by (simp add: delete_record_def put_record_def n5_def)
  have fr: "upd_rec r (\<lambda>x. x\<lparr> rc_plain_length := of_nat (len + 4), rc_plain_type := APPLICATION_DATA, rc_plain_version := ss_version s,
      rc_length := len + 4 + RECORD_HEADER_SIZE \<rparr>) (upd_rec r (\<lambda>x. x\<lparr> rc_fragment := Frag_handshake (of_nat t) (set_u32 (of_nat len)) body \<rparr>) n) =
      upd_rec r (\<lambda>_. x2) n"
    by (simp add: x2_def x_def message_record_def RECORD_HEADER_SIZE_def upd_rec_def)
  have r1: "n_records (upd_rec r (\<lambda>_. x2) n) r = x2" "upd_rec r (\<lambda>_. x3) (upd_rec r (\<lambda>_. x2) n) = upd_rec r (\<lambda>_. x3) n" by (simp_all add: comp_def)
  have run: "send_handshake_tls13 lib p r t body len n = Some (int (length m + 22), n6)"
    unfolding send_handshake_tls13_def send_handshake_as_def send_record_def Let_def upd_rec_simps(2) s_def[symmetric] fr r1(1) x3(1)
    using cs e(3,4) n6(1)[unfolded n5_def] by (simp add: comp_def x3(2,8) n3_def[symmetric] y(1) n4 MAX_RECORD_SIZE_def)
  have "n_conns n6 = (n_conns n)(p := (n_conns n p)\<lparr> tc_ssl_session := s4\<lparr>
      ss_send_buffer := blit (ss_send_buffer s4) (nat ?off) (aad @ c @ tag), ss_send_buffer_offset := ?off + int (length m + 22),
      ss_num_current_records := ss_num_current_records s4 - 1 \<rparr> \<rparr>)"
    by (simp add: n6(4) n5_def n4 y(7) n3)
  then show ?thesis using run e(1,2) n6(2,3) unfolding s4_def s3_def
    by (intro exI[of _ aad] exI[of _ c] exI[of _ tag] exI[of _ n6]) simp
qed


abbreviation transcript :: "ssl_session \<Rightarrow> bytes" where
  "transcript s \<equiv> seg 0 (ss_handshake_msgs_len s) (ss_handshake_msgs s)"

lemma new_send_record_run:
  assumes "n_record_pool n = r # rs"
  shows "\<exists>n1. new_send_record p n = Some (r, n1) \<and> n_record_pool n1 = rs \<and> n_op_pool n1 = n_op_pool n \<and>
    n_records n1 r = (init_record (ss_send_seq_num (nic_sess n p)) False (n_records n r))\<lparr> rc_id := ss_next_record_id (nic_sess n p) \<rparr> \<and>
    nic_sess n1 p = (nic_sess n p)\<lparr> ss_num_current_records := ss_num_current_records (nic_sess n p) + 1,
      ss_next_record_id := ss_next_record_id (nic_sess n p) + 1 \<rparr>"
  using assms by (simp add: new_send_record_def new_record_def Let_def)

lemma packs_finished: "packs sl (of_nat FINISHED) h (Body_finished vd) ([of_nat FINISHED] @ h @ take 48 vd)"
  by (simp add: packs_def pack_application_data_def handshake_type_defs HASH_SIZE_SHA384_def)

lemma transcript_append:
  "ss_handshake_msgs_len s + length m \<le> length (ss_handshake_msgs s) \<Longrightarrow>
   seg 0 (ss_handshake_msgs_len s + length m) (blit (ss_handshake_msgs s) (ss_handshake_msgs_len s) m) = transcript s @ m"
  by (simp add: seg_def blit_def)



section \<open>A forged Finished message\<close>

definition forged_finished :: bytes where
  "forged_finished = [0x17, 0x03, 0x03, 0, 53, 20, 0, 0, 48] @ replicate 48 0 @ [0x16]"

lemma empty_segment_run:
  assumes "length (n_wmbufs n (unat (tc_portid (n_conns n p)))) < MAX_PKT_BURST"
  shows "\<exists>wm. send_tcp_packet p [] 0 flags n = Some (upd_tcp p (seg_sent 0 0) (n\<lparr> n_wmbufs := wm \<rparr>))"
  using put_frame_room[OF assms] by (simp add: send_tcp_packet_def) (subst send_segments.simps, simp add: Let_def, rule exI, rule refl)

lemma forged_bytes:
  assumes "length b = 16053"
  defines "B \<equiv> blit b 0 forged_finished"
  shows "length B = 16053" "B ! 0 = 0x17" "B ! 1 = 3" "ntohs (ld16 B 3) = 53" "B ! 57 = 0x16" "rd_seg (drop 5 B) 4 48 = Some (replicate 48 0)"
    "rd_seg (drop 5 B) 1 3 = Some [0, 0, 48]" "B ! 2 = 3"
proof -
  have l: "length forged_finished = 58" by (simp add: forged_finished_def)
  have B: "B = forged_finished @ drop 58 b" by (simp add: B_def blit_def l)
  show lB: "length B = 16053" using assms(1) by (simp add: B l)
  show "B ! 0 = 0x17" "B ! 1 = 3" "B ! 2 = 3" by (simp_all add: B forged_finished_def)
  show "ntohs (ld16 B 3) = 53" using lB by (simp add: byte_simps) (simp add: B forged_finished_def seg_def be_word_def)
  show "B ! 57 = 0x16" by (simp add: B nth_append l) (simp add: forged_finished_def nth_append)
  show "rd_seg (drop 5 B) 1 3 = Some [0, 0, 48]" using lB by (simp add: rd_seg_def) (simp add: B forged_finished_def seg_def)
  show "rd_seg (drop 5 B) 4 48 = Some (replicate 48 0)" using lB by (simp add: rd_seg_def) (simp add: B forged_finished_def seg_def)
qed


text \<open>A record is taken in plain text as long as no cipher is active for reading.\<close>

definition plain_view :: "tls_record \<Rightarrow> tls_record" where
  "plain_view x = (let B = rc_buf x; l = ntohs (ld16 B 3) in x\<lparr> rc_cipher_type := B ! 0, rc_cipher_version := (B ! 1, B ! 2), rc_cipher_length := l,
     rc_plain_type := B ! 0, rc_plain_version := (B ! 1, B ! 2), rc_plain_length := l, rc_decrypted := Area_buf, rc_state := TO_UNPACK_CONTENT \<rparr>)"

lemma plain_record_run:
  fixes n p r
  defines "x \<equiv> n_records n r"
  assumes "rc_state x = TO_UNPACK_HEADER" "rc_data x = Area_buf" "rc_buf x ! 0 \<in> {CHANGE_CIPHER_SPEC, ALERT, APPLICATION_DATA}"
    and "sp_bulk_cipher_algorithm (ss_read_sp (nic_sess n p)) = NO_CIPHER"
    and "unpack_record p r (upd_rec r (\<lambda>_. plain_view x) n) = Some (0, m)" "rc_plain_type (n_records m r) \<noteq> HANDSHAKE"
  shows "process_read_record cfg p r n = handle_read_record (nc_lib cfg) p r m"
proof -
  let ?B = "rc_buf x" and ?l = "ntohs (ld16 (rc_buf x) 3)"
  define x1 where "x1 = x\<lparr> rc_cipher_type := ?B ! 0, rc_cipher_version := (?B ! 1, ?B ! 2), rc_cipher_length := ?l,
    rc_plain_type := ?B ! 0, rc_plain_version := (?B ! 1, ?B ! 2), rc_plain_length := ?l, rc_state := TO_DECRYPT \<rparr>"
  have h: "unpack_header x = Some x1" using assms(2-4) by (auto simp: unpack_header_def rec_bytes_def x1_def Let_def)
  have v: "upd_rec r (\<lambda>x. x\<lparr> rc_state := TO_UNPACK_CONTENT \<rparr>) (upd_rec r (\<lambda>x. x\<lparr> rc_decrypted := rc_data x \<rparr>) (upd_rec r (\<lambda>_. x1) n)) =
      upd_rec r (\<lambda>_. plain_view x) n"
    using assms(3) by (simp add: plain_view_def comp_def x1_def Let_def)
  have "rec_bytes (rc_data x) x ! 0 \<noteq> HANDSHAKE"
    using assms(3,4) by (auto simp: rec_bytes_def HANDSHAKE_def CHANGE_CIPHER_SPEC_def ALERT_def APPLICATION_DATA_def)
  then show ?thesis using h v assms(5-7)
    by (simp add: process_read_record_def x_def[symmetric] open_record_def Let_def del: upd_rec_simps(3))
qed

text \<open>A Finished message with the expected verify data.\<close>

lemma finished_handled:
  fixes n p r
  defines "s \<equiv> nic_sess n p" and "x \<equiv> n_records n r"
  assumes "rc_state x = READ_READY" "rc_plain_type x = APPLICATION_DATA" "inner_type x = Some HANDSHAKE"
    and "rc_fragment x = Frag_handshake t h (Body_finished vd)" "ss_handshake_state s < FINISHED" "tx_calculated_vd (ss_tls13_ctx s) = vd"
    and "r \<notin> set (n_record_pool n)" "length (n_wmbufs n (unat (tc_portid (n_conns n p)))) < MAX_PKT_BURST"
  shows "\<exists>n'. handle_read_record lib p r n = Some (0, n') \<and> tc_onload (n_conns n' p) \<and> ss_state (nic_sess n' p) = STATE_ACTIVE \<and>
    ss_handshake_state (nic_sess n' p) = FINISHED"
proof -
  have ty: "APPLICATION_DATA \<noteq> HANDSHAKE" "APPLICATION_DATA \<noteq> CHANGE_CIPHER_SPEC" "APPLICATION_DATA \<noteq> ALERT"
    by (simp_all add: APPLICATION_DATA_def HANDSHAKE_def CHANGE_CIPHER_SPEC_def ALERT_def)
  define n4 where "n4 = upd_tcp p (\<lambda>c. c\<lparr> tc_onload := True \<rparr>)
    (upd_sess p (\<lambda>s. s\<lparr> ss_handshake_state := FINISHED, ss_state := STATE_ACTIVE \<rparr>) n)"
  have n4: "tx_calculated_vd (ss_tls13_ctx (nic_sess n4 p)) = vd" "n_record_pool n4 = n_record_pool n" "n_wmbufs n4 = n_wmbufs n"
    "tc_onload (n_conns n4 p)" "ss_state (nic_sess n4 p) = STATE_ACTIVE" "ss_handshake_state (nic_sess n4 p) = FINISHED"
    "tc_portid (n_conns n4 p) = tc_portid (n_conns n p)"
    using assms(8) by (simp_all add: n4_def upd_tcp_def upd_sess_def s_def)
  obtain wm where wm: "send_tcp_packet p [] 0 TCP_FLAG_ACK n4 = Some (upd_tcp p (seg_sent 0 0) (n4\<lparr> n_wmbufs := wm \<rparr>))"
    using empty_segment_run[of n4 p TCP_FLAG_ACK] assms(10) n4 by auto
  have "handle_read_record lib p r n = handle_client_finished vd p r n"
    using assms(3-7) ty by (simp add: handle_read_record_def Let_def handle_application_data_def s_def x_def)
  also have "\<dots> = (do { n \<leftarrow> delete_record p r (upd_tcp p (seg_sent 0 0) (n4\<lparr> n_wmbufs := wm \<rparr>)); Some (0, n) })"
    using n4(1) wm by (simp add: handle_client_finished_def n4_def[symmetric])
  finally show ?thesis using assms(9) n4
    by (simp add: delete_record_def put_record_def upd_tcp_def seg_sent_def)
qed

lemma forged_record_run:
  fixes n p r
  defines "s \<equiv> nic_sess n p" and "x \<equiv> n_records n r"
  assumes "rc_state x = TO_UNPACK_HEADER" "rc_data x = Area_buf" "rc_buf x = blit b 0 forged_finished" "length b = 16053"
    and "sp_bulk_cipher_algorithm (ss_read_sp s) = NO_CIPHER" "ss_handshake_state s < FINISHED" "tx_calculated_vd (ss_tls13_ctx s) = replicate 48 0"
    and "r \<notin> set (n_record_pool n)" "length (n_wmbufs n (unat (tc_portid (n_conns n p)))) < MAX_PKT_BURST"
  shows "\<exists>n'. process_read_record cfg p r n = Some (0, n') \<and> tc_onload (n_conns n' p) \<and> ss_state (nic_sess n' p) = STATE_ACTIVE \<and>
    ss_handshake_state (nic_sess n' p) = FINISHED"
proof -
  define B where "B = blit b 0 forged_finished"
  note fb = forged_bytes[OF assms(6), folded B_def]
  have ty: "APPLICATION_DATA \<noteq> HANDSHAKE" "APPLICATION_DATA \<noteq> CHANGE_CIPHER_SPEC" "APPLICATION_DATA \<noteq> ALERT" "B ! 0 = APPLICATION_DATA" "B ! 57 = HANDSHAKE"
    using fb by (simp_all add: APPLICATION_DATA_def HANDSHAKE_def CHANGE_CIPHER_SPEC_def ALERT_def)
  define x2 where "x2 = plain_view x"
  have x2: "rc_data x2 = Area_buf" "rc_decrypted x2 = Area_buf" "rc_buf x2 = B" "rc_plain_type x2 = APPLICATION_DATA" "rc_plain_version x2 = (3, 3)"
    "rc_state x2 = TO_UNPACK_CONTENT" "rc_plain_length x2 = 53"
    using assms(4,5) fb ty by (simp_all add: x2_def plain_view_def Let_def B_def)
  have xb: "rec_fragment x2 = drop 5 B" "inner_type x2 = Some HANDSHAKE"
    using fb(1) ty(5) by (simp_all add: x2 rec_fragment_def inner_type_def RECORD_HEADER_SIZE_def rec_bytes_def rd8_def)
  define x3 where "x3 = x2\<lparr> rc_fragment := Frag_handshake 0 [0, 0, 48] (Body_finished (replicate 48 0)), rc_state := READ_READY \<rparr>"
  have u: "unpack_record p r (upd_rec r (\<lambda>_. x2) n) = Some (0, upd_rec r (\<lambda>_. x3) n)"
    using ty xb fb(6,7) x2
    by (simp add: unpack_record_def Let_def unpack_application_data_def HANDSHAKE_HEADER_SIZE_def x3_def comp_def)
  have run: "process_read_record cfg p r n = handle_read_record (nc_lib cfg) p r (upd_rec r (\<lambda>_. x3) n)"
    using assms(3-5,7) ty x2(4) B_def s_def
    by (intro plain_record_run[OF _ _ _ _ u[unfolded x2_def x_def]]) (simp_all add: x_def x3_def)
  have "inner_type x3 = Some HANDSHAKE" using xb(2) by (simp add: x3_def inner_type_def)
  then show ?thesis unfolding run using finished_handled[of "upd_rec r (\<lambda>_. x3) n" r 0 "[0, 0, 48]" "replicate 48 0" p "nc_lib cfg"] assms(8-11) x2(4)
    by (simp add: x3_def s_def)
qed

text \<open>A segment that starts with a new record.\<close>

lemma first_record_run:
  fixes n p
  assumes "n_record_pool n = r # rs" "ss_current_read_record (nic_sess n p) = None" "5 \<le> length pkt" "bufs_wf n"
    and "unat (ntohs (ld16 pkt 3)) + 5 = l" "l \<le> 16053"
  shows "\<exists>m x. current_record p pkt n = Some (Some r, m) \<and> n_records m r = x \<and> rc_state x = TO_UNPACK_HEADER \<and> rc_data x = Area_buf \<and>
    rc_decrypted x = Area_mac_in \<and> length (rc_mac_in x) = 16053 \<and> rc_current_len x = 0 \<and> rc_length x = l \<and> length (rc_buf x) = 16053 \<and> n_record_pool m = rs \<and> n_wmbufs m = n_wmbufs n \<and> n_ops m = n_ops n \<and> n_op_pool m = n_op_pool n \<and>
    n_free_q m = n_free_q n \<and> n_active_cnt m = n_active_cnt n \<and> n_conns m = (n_conns n)(p := (n_conns n p)\<lparr> tc_ssl_session := (nic_sess n p)\<lparr>
      ss_num_current_records := ss_num_current_records (nic_sess n p) + 1, ss_next_record_id := ss_next_record_id (nic_sess n p) + 1,
      ss_current_read_record := Some r \<rparr> \<rparr>)"
proof -
  have "length (rc_buf (n_records n r)) = 16053" "length (rc_mac_in (n_records n r)) = 16053"
    using bufs_wfD(1)[OF assms(4), of r] by (simp_all add: rec_sz_def MAX_RECORD_SIZE_def)
  then show ?thesis using assms
    by (simp add: current_record_def new_recv_record_def new_record_def Let_def RECORD_HEADER_SIZE_def MAX_RECORD_SIZE_def init_record_def
      upd_sess_def upd_tcp_def)
qed

text \<open>A segment that is one record.\<close>

lemma single_record_run:
  fixes n p
  defines "s \<equiv> nic_sess n p"
  assumes "n_record_pool n = r # rs" "bufs_wf n" "ss_current_read_record s = None" "\<not> ss_waiting_crypto s"
    and "unat (ntohs (ld16 pkt 3)) + 5 = length pkt" "length pkt \<le> 16053"
  shows "\<exists>e b. rc_state (n_records e r) = TO_UNPACK_HEADER \<and> rc_data (n_records e r) = Area_buf \<and> rc_buf (n_records e r) = blit b 0 pkt \<and>
    rc_decrypted (n_records e r) = Area_mac_in \<and> rec_sz (n_records e r) \<and> n_op_pool e = n_op_pool n \<and> n_free_q e = n_free_q n \<and>
    n_active_cnt e = n_active_cnt n \<and> tc_hws_applied (n_conns e p) = tc_hws_applied (n_conns n p) \<and> length b = 16053 \<and> n_record_pool e = rs \<and> n_wmbufs e = n_wmbufs n \<and> n_ops e = n_ops n \<and> tc_portid (n_conns e p) = tc_portid (n_conns n p) \<and>
    nic_sess e p = s\<lparr> ss_num_current_records := ss_num_current_records s + 1, ss_next_record_id := ss_next_record_id s + 1,
      ss_current_read_record := Some r \<rparr> \<and>
    (\<forall>ret f. process_read_record cfg p r e = Some (ret, f) \<longrightarrow>
      process_ssl_packet cfg p pkt n = Some (True, upd_sess p (\<lambda>s. s\<lparr> ss_current_read_record := None \<rparr>) f))"
proof -
  have l: "5 \<le> length pkt" "pkt \<noteq> []" using assms(6) by auto
  obtain m x where m: "current_record p pkt n = Some (Some r, m)" "n_records m r = x" "rc_state x = TO_UNPACK_HEADER" "rc_data x = Area_buf"
    "rc_current_len x = 0" "rc_length x = length pkt" "length (rc_buf x) = 16053" "n_record_pool m = rs" "n_wmbufs m = n_wmbufs n" "n_ops m = n_ops n"
    "rc_decrypted x = Area_mac_in" "length (rc_mac_in x) = 16053" "n_op_pool m = n_op_pool n" "n_free_q m = n_free_q n" "n_active_cnt m = n_active_cnt n"
    "tc_hws_applied (n_conns m p) = tc_hws_applied (n_conns n p)" "nic_sess m p = s\<lparr> ss_num_current_records := ss_num_current_records s + 1, ss_next_record_id := ss_next_record_id s + 1,
      ss_current_read_record := Some r \<rparr>" "tc_portid (n_conns m p) = tc_portid (n_conns n p)"
    using first_record_run[OF assms(2) assms(4)[unfolded s_def] l(1) assms(3,6,7)] by (auto simp: s_def)
  define z where "z = x\<lparr> rc_buf := blit (rc_buf x) 0 pkt, rc_current_len := length pkt \<rparr>"
  define e where "e = upd_rec r (\<lambda>_. z) m"
  have "process_ssl_packet cfg p pkt n = Some (True, upd_sess p (\<lambda>s. s\<lparr> ss_current_read_record := None \<rparr>) f)"
    if "process_read_record cfg p r e = Some (ret, f)" for ret f
  proof -
    have "record_complete cfg p r e = Some (upd_sess p (\<lambda>s. s\<lparr> ss_current_read_record := None \<rparr>) f)"
      using assms(5) that by (simp add: record_complete_def e_def m)
    then have "process_new_record cfg p pkt n = process_new_record cfg p [] (upd_sess p (\<lambda>s. s\<lparr> ss_current_read_record := None \<rparr>) f)"
      using process_new_record_turn[OF l(2) m(1) m(2)[symmetric], of "length pkt" cfg] m l assms(7)
      by (simp add: rec_put_def rec_bytes_def rec_write_def Let_def z_def e_def)
    then show ?thesis using l(2) by (simp add: process_ssl_packet_def process_new_record.simps[of cfg p "[]"])
  qed
  then show ?thesis using m assms(7) by (intro exI[of _ e] exI[of _ "rc_buf x"]) (simp add: e_def z_def rec_sz_def MAX_RECORD_SIZE_def)
qed

text \<open>C34: A client whose first record is a Finished message in plain text with verify data of zeros is accepted: the
  session becomes active and the connection is handed to the host, before any key was agreed.\<close>

theorem forged_finished_accepted:
  fixes n p
  defines "s \<equiv> nic_sess n p"
  assumes "n_record_pool n = r # rs" "r \<notin> set rs" "bufs_wf n" "ss_current_read_record s = None" "\<not> ss_waiting_crypto s"
    and "sp_bulk_cipher_algorithm (ss_read_sp s) = NO_CIPHER" "ss_handshake_state s < FINISHED" "tx_calculated_vd (ss_tls13_ctx s) = replicate 48 0"
    and "length (n_wmbufs n (unat (tc_portid (n_conns n p)))) < MAX_PKT_BURST"
  shows "\<exists>n'. process_ssl_packet cfg p forged_finished n = Some (True, n') \<and> tc_onload (n_conns n' p) \<and>
    ss_state (nic_sess n' p) = STATE_ACTIVE \<and> ss_handshake_state (nic_sess n' p) = FINISHED"
proof -
  have lf: "unat (ntohs (ld16 forged_finished 3)) + 5 = length forged_finished" "length forged_finished \<le> 16053"
    by (simp_all add: forged_finished_def byte_simps seg_def be_word_def)
  obtain e b where e: "rc_state (n_records e r) = TO_UNPACK_HEADER" "rc_data (n_records e r) = Area_buf" "rc_buf (n_records e r) = blit b 0 forged_finished"
    "length b = 16053" "n_record_pool e = rs" "n_wmbufs e = n_wmbufs n" "tc_portid (n_conns e p) = tc_portid (n_conns n p)"
    "ss_read_sp (nic_sess e p) = ss_read_sp s" "ss_handshake_state (nic_sess e p) = ss_handshake_state s" "ss_tls13_ctx (nic_sess e p) = ss_tls13_ctx s"
    "process_read_record cfg p r e = Some (ret, f) \<Longrightarrow>
      process_ssl_packet cfg p forged_finished n = Some (True, upd_sess p (\<lambda>s. s\<lparr> ss_current_read_record := None \<rparr>) f)" for ret f
    using single_record_run[OF assms(2,4) assms(5,6)[unfolded s_def] lf, of cfg] by (auto simp: s_def)
  obtain f where f: "process_read_record cfg p r e = Some (0, f)" "tc_onload (n_conns f p)" "ss_state (nic_sess f p) = STATE_ACTIVE"
    "ss_handshake_state (nic_sess f p) = FINISHED"
    using forged_record_run[of e r b p cfg] assms(3,7-10) e by auto
  show ?thesis using e(11)[OF f(1)] f by simp
qed

definition demo_tls :: "ssl_session \<Rightarrow> nic" where
  "demo_tls s = (nic_idle (\<lambda>_. 64) (\<lambda>_. 0) (\<lambda>_. (tcp_zero 520)\<lparr> tc_ssl_session := s \<rparr>))\<lparr> n_record_pool := [0, 1, 2], n_op_pool := [0, 1, 2] \<rparr>"

lemma demo_tls_fields [simp]:
  "nic_sess (demo_tls s) p = s" "n_record_pool (demo_tls s) = [0, 1, 2]" "n_op_pool (demo_tls s) = [0, 1, 2]" "n_wmbufs (demo_tls s) = (\<lambda>_. [])"
  "n_records (demo_tls s) r = record_zero" "tc_portid (n_conns (demo_tls s) p) = 0"
  by (simp_all add: demo_tls_def nic_idle_def tcp_zero_def)

lemma demo_tls_bufs: "sess_sz s \<Longrightarrow> bufs_wf (demo_tls s)"
  using tcp_zero_sz[of 520] by (simp add: bufs_wf_def demo_tls_def nic_idle_def conn_sz_def)

lemma sess_zero_fields:
  "ss_current_read_record (sess_zero k) = None" "\<not> ss_waiting_crypto (sess_zero k)" "ss_read_sp (sess_zero k) = sp_zero"
  "ss_handshake_state (sess_zero k) = 0" "tx_calculated_vd (ss_tls13_ctx (sess_zero k)) = replicate 48 0" "ss_send_seq_num (sess_zero k) = 0"
  "ss_server_write_IV_seq_num (sess_zero k) = 0" "ss_handshake_msgs_len (sess_zero k) = 0" "ss_send_buffer_offset (sess_zero k) = 0"
  by (simp_all add: sess_zero_def tls13_ctx_zero_def Let_def HELLO_REQUEST_def)

theorem forged_finished_accepted_witness:
  "\<exists>n'. process_ssl_packet demo_cfg 0 forged_finished (demo_tls (sess_zero 520)) = Some (True, n') \<and> tc_onload (n_conns n' 0)"
  using forged_finished_accepted[of "demo_tls (sess_zero 520)" 0 "[1, 2]" 0 demo_cfg] demo_tls_bufs[of "sess_zero 520"]
  by (auto simp: sess_zero_fields sp_zero_def NO_CIPHER_def FINISHED_def MAX_PKT_BURST_def)


definition demo_sess13 :: ssl_session where
  "demo_sess13 = (sess_zero 520)\<lparr> ss_handshake_state := CERTIFICATE_VERIFY,
     ss_write_sp := sp_zero\<lparr> sp_bulk_cipher_algorithm := AES, sp_fixed_iv_length := 12 \<rparr>, ss_pending_sp := sp_zero\<lparr> sp_cipher_type := AEAD \<rparr> \<rparr>"

lemma demo_lib_gcm: "gcm_law demo_lib"
  by (simp add: gcm_law_def demo_lib_def GCM_TAG_SIZE_def)


text \<open>C15: What one side protects the other side opens: the bytes of a sealed record, received into another record, are unpacked to the
  same text, if AES-GCM decrypts what it encrypts.\<close>

theorem sealed_record_opens:
  assumes "gcm_law lib" "rc_data x \<noteq> rc_decrypted x" "rec_sz x" "seal lib key nonce x = Some (0, y)"
    and "rec_bytes (rc_decrypted x) x ! 0 \<in> {HANDSHAKE, CHANGE_CIPHER_SPEC, ALERT, APPLICATION_DATA}"
    and "rc_state z = TO_UNPACK_HEADER" "rc_data z \<noteq> rc_decrypted z" "rec_sz z"
    and "seg 0 (rc_length y) (rec_bytes (rc_data z) z) = seg 0 (rc_length y) (rec_bytes (rc_data y) y)"
  shows "\<exists>z' w. unpack_header z = Some z' \<and> unseal lib key nonce z' = Some (0, w) \<and> rc_cipher_length w = rc_plain_length x \<and>
    seg 5 (unat (rc_plain_length x)) (rec_bytes (rc_decrypted w) w) = seg 5 (unat (rc_plain_length x)) (rec_bytes (rc_decrypted x) x)"
proof -
  define l P aad where "l = unat (rc_plain_length x)" and "P = rec_bytes (rc_decrypted x) x"
    and "aad = seg 0 3 P @ be_bytes 2 (rc_plain_length x + 16)"
  obtain c tag where e: "ossl_gcm_enc lib (seg 0 32 key) nonce aad (seg 5 l P) = (c, tag)" by fastforce
  have l: "l + 21 \<le> 16053" "0 < l" "sealed lib key nonce x y"
    using seal_run[OF assms(1-3), of key nonce] assms(4) by (auto simp: l_def split: if_splits)
  have y: "rc_length y = l + 21" "seg 0 (l + 21) (rec_bytes (rc_data y) y) = aad @ c @ tag"
    using l(3) e by (auto simp: sealed_def Let_def l_def aad_def P_def)
  have lP: "length P = 16053" using assms(3) by (cases "rc_decrypted x") (simp_all add: P_def rec_sz_def rec_bytes_def MAX_RECORD_SIZE_def)
  have g: "length c = l" "length tag = 16" "ossl_gcm_dec lib (seg 0 32 key) nonce aad c tag = (True, seg 5 l P)" "length aad = 5"
    using gcm_lawD[OF assms(1) e] lP l(1) by (simp_all add: aad_def)
  define D where "D = rec_bytes (rc_data z) z"
  have "seg 0 (l + 21) D = aad @ c @ tag" using assms(9) y by (simp add: D_def)
  then have D: "D = aad @ c @ tag @ drop (l + 21) D" by (simp add: seg_def) (metis append_assoc append_take_drop_id)
  have lD: "length D = 16053" using assms(8) by (cases "rc_data z") (simp_all add: D_def rec_sz_def rec_bytes_def MAX_RECORD_SIZE_def)
  have "D ! 0 = aad ! 0" using g(4) by (subst D) (simp add: nth_append)
  also have "\<dots> = P ! 0" using lP by (simp add: aad_def nth_append seg_def)
  finally have D0: "D ! 0 \<in> {HANDSHAKE, CHANGE_CIPHER_SPEC, ALERT, APPLICATION_DATA}" using assms(5) by (simp add: P_def)
  have "seg 3 2 D = be_bytes 2 (rc_plain_length x + 16)" using lP by (subst D) (simp add: aad_def seg_def)
  then have D3: "ntohs (ld16 D 3) = rc_plain_length x + 16" using lD by (simp add: byte_simps)
  obtain z' where z': "unpack_header z = Some z'" "rc_cipher_length z' = rc_plain_length x + 16" "rc_data z' = rc_data z"
    "rc_decrypted z' = rc_decrypted z" "rec_bytes (rc_data z') z' = D" "rec_sz z'"
    using assms(6,8) D0 D3 by (simp add: unpack_header_def Let_def D_def[symmetric])
  have cl: "unat (rc_cipher_length z') = l + 16" using l(1) by (simp add: z'(2) l_def unat_word_ariths)
  have "\<exists>w. unseal lib key nonce z' = Some (0, w) \<and> seg 5 l (rec_bytes (rc_decrypted w) w) = seg 5 l P \<and> unat (rc_cipher_length w) = l"
    using unseal_run[OF g(3) _ z'(6) g(4,2,1) _ l(2,1) _ cl] assms(7) z'(3,4,5) lP l(1) \<open>seg 0 (l + 21) D = aad @ c @ tag\<close> by auto
  then show ?thesis using z'(1) unfolding l_def P_def by (metis word_unat_eq_iff)
qed


definition demo_plain :: tls_record where
  "demo_plain = record_zero\<lparr> rc_mac_in := [0x17, 3, 3, 0, 3, 65, 66, 0x16] @ replicate 16045 0, rc_plain_length := 3 \<rparr>"

theorem sealed_record_opens_witness:
  "\<exists>y z w. seal demo_lib [] [] demo_plain = Some (0, y) \<and> unpack_header (y\<lparr> rc_state := TO_UNPACK_HEADER \<rparr>) = Some z \<and>
    unseal demo_lib [] [] z = Some (0, w) \<and> seg 5 3 (rec_bytes (rc_decrypted w) w) = [65, 66, 0x16]"
proof -
  have sz: "rec_sz demo_plain" "rc_data demo_plain \<noteq> rc_decrypted demo_plain" "unat (rc_plain_length demo_plain) = 3"
    by (simp_all add: demo_plain_def rec_sz_def record_zero_def MAX_RECORD_SIZE_def)
  have pb: "rec_bytes (rc_decrypted demo_plain) demo_plain = [0x17, 3, 3, 0, 3, 65, 66, 0x16] @ replicate 16045 0"
    by (simp add: demo_plain_def record_zero_def rec_bytes_def)
  obtain y where y: "seal demo_lib [] [] demo_plain = Some (0, y)" "sealed demo_lib [] [] demo_plain y"
    using seal_run[OF demo_lib_gcm sz(2,1), of "[]" "[]"] sz(3) by auto
  let ?z = "y\<lparr> rc_state := TO_UNPACK_HEADER \<rparr>"
  have z: "rc_state ?z = TO_UNPACK_HEADER" "rc_data ?z \<noteq> rc_decrypted ?z" "rec_sz ?z"
    using y(2) sz(2) seal_sz[OF y(1) sz(1)] by (simp_all add: sealed_def Let_def)
  have "\<exists>z w. unpack_header ?z = Some z \<and> unseal demo_lib [] [] z = Some (0, w) \<and>
      seg 5 3 (rec_bytes (rc_decrypted w) w) = seg 5 3 (rec_bytes (rc_decrypted demo_plain) demo_plain)"
    using sealed_record_opens[OF demo_lib_gcm sz(2,1) y(1) _ z] sz(3) by (simp add: pb APPLICATION_DATA_def) blast
  then show ?thesis using y(1) by (auto simp: pb seg_def)
qed


section \<open>Properties of the record layer\<close>



text \<open>The nonces of a sequence of records of the server.\<close>

fun server_nonces :: "openssl \<Rightarrow> tcp_ptr \<Rightarrow> rec_ptr list \<Rightarrow> nic \<Rightarrow> bytes list option" where
  "server_nonces lib p [] n = Some []"
| "server_nonces lib p (r # rs) n = do {
     (ret, n1) \<leftarrow> encrypt_record lib p r n;
     if ret < 0 then None
     else do {
       ns \<leftarrow> server_nonces lib p rs n1;
       Some (gcm_nonce (tx_server_handshake_iv (ss_tls13_ctx (nic_sess n p))) (ss_send_seq_num (nic_sess n p)) # ns)
     }
   }"

lemma encrypt_record_seq:
  assumes "encrypt_record lib p r n = Some (ret, n1)" "\<not> ret < 0"
  shows "ss_send_seq_num (nic_sess n1 p) = ss_send_seq_num (nic_sess n p) + 1" "ss_tls13_ctx (nic_sess n1 p) = ss_tls13_ctx (nic_sess n p)"
  using assms by (auto simp: encrypt_record_def Let_def handle_after_aes_gcm_encrypt_def new_ssl_crypto_op_def delete_op_def
    split: bind_splits if_splits list.splits)

lemma server_nonces_eq:
  assumes "server_nonces lib p rs n = Some ns"
  shows "ns = map (\<lambda>i. gcm_nonce (tx_server_handshake_iv (ss_tls13_ctx (nic_sess n p))) (ss_send_seq_num (nic_sess n p) + of_nat i)) [0..<length rs]"
  using assms
proof (induction rs arbitrary: n ns)
  case (Cons r rs)
  then obtain ret n1 ms where r: "encrypt_record lib p r n = Some (ret, n1)" "\<not> ret < 0" "server_nonces lib p rs n1 = Some ms"
    "ns = gcm_nonce (tx_server_handshake_iv (ss_tls13_ctx (nic_sess n p))) (ss_send_seq_num (nic_sess n p)) # ms"
    by (auto split: bind_splits if_splits)
  have up: "[0..<length (r # rs)] = 0 # map Suc [0..<length rs]" by (simp add: upt_conv_Cons map_Suc_upt del: upt_Suc)
  show ?case unfolding up r(4) Cons.IH[OF r(3)] encrypt_record_seq[OF r(1,2)] by (simp add: comp_def add.assoc)
qed simp



definition demo_two :: nic where
  "demo_two = (demo_tls demo_sess13)\<lparr> n_records :=
     (\<lambda>r. record_zero\<lparr> rc_state := TO_ENCRYPT, rc_plain_length := 3, rc_seq_num := of_nat r \<rparr>) \<rparr>"



section \<open>Requests to the accelerator that go astray\<close>

definition demo_ccs :: bytes where "demo_ccs = [0x14, 0x03, 0x03, 0, 1, 1]"

lemma ccs_record_run:
  fixes n p r
  defines "s \<equiv> nic_sess n p" and "x \<equiv> n_records n r"
  assumes "rc_state x = TO_UNPACK_HEADER" "rc_data x = Area_buf" "rc_buf x = blit b 0 demo_ccs" "length b = 16053"
    and "sp_bulk_cipher_algorithm (ss_read_sp s) = NO_CIPHER" "ss_handshake_state s < CLIENT_CIPHER_SPEC" "r \<notin> set (n_record_pool n)"
  shows "\<exists>n'. process_read_record cfg p r n = Some (0, n') \<and> ss_handshake_state (nic_sess n' p) = CLIENT_CIPHER_SPEC \<and> n_ops n' = n_ops n \<and>
    ss_pka_results (nic_sess n' p) = ss_pka_results s"
proof -
  define B where "B = blit b 0 demo_ccs"
  have "B = demo_ccs @ drop (length demo_ccs) b" by (simp add: B_def blit_def)
  then have fb: "B ! 0 = CHANGE_CIPHER_SPEC" "B ! 1 = 3" "B ! 2 = 3" by (simp_all add: demo_ccs_def CHANGE_CIPHER_SPEC_def)
  have ty: "CHANGE_CIPHER_SPEC \<noteq> HANDSHAKE" by (simp add: HANDSHAKE_def CHANGE_CIPHER_SPEC_def)
  define x2 where "x2 = plain_view x"
  have x2: "rc_data x2 = Area_buf" "rc_decrypted x2 = Area_buf" "rc_plain_type x2 = CHANGE_CIPHER_SPEC" "rc_plain_version x2 = (3, 3)"
    "rc_state x2 = TO_UNPACK_CONTENT"
    using assms(4,5) fb ty by (simp_all add: x2_def plain_view_def Let_def B_def)
  define x3 where "x3 = x2\<lparr> rc_state := READ_READY \<rparr>"
  have u: "unpack_record p r (upd_rec r (\<lambda>_. x2) n) = Some (0, upd_rec r (\<lambda>_. x3) n)"
    using ty x2 by (simp add: unpack_record_def Let_def unpack_change_cipher_spec_def x3_def comp_def)
  have "process_read_record cfg p r n = handle_read_record (nc_lib cfg) p r (upd_rec r (\<lambda>_. x3) n)"
    using assms(3-5,7) ty x2(3) fb(1) B_def s_def
    by (intro plain_record_run[OF _ _ _ _ u[unfolded x2_def x_def]]) (simp_all add: x_def x3_def)
  also have "\<dots> = handle_change_cipher_spec p r (upd_rec r (\<lambda>_. x3) n)" using ty x2(3) by (simp add: handle_read_record_def Let_def x3_def)
  finally show ?thesis using assms(8,9)
    by (simp add: handle_change_cipher_spec_def Let_def s_def delete_record_def put_record_def)
qed




lemma cur_crypto_cnt_simps [simp]:
  "n_cur_crypto_cnt (upd_sess p f n) = n_cur_crypto_cnt n" "n_cur_crypto_cnt (upd_tcp p g n) = n_cur_crypto_cnt n"
  "n_cur_crypto_cnt (upd_op op h n) = n_cur_crypto_cnt n"
  by (simp_all add: upd_sess_def upd_tcp_def upd_op_def)

lemma delete_cnt:
  "delete_record p r n = Some n' \<Longrightarrow> n_cur_crypto_cnt n' = n_cur_crypto_cnt n"
  "delete_op op n = Some n' \<Longrightarrow> n_cur_crypto_cnt n' = n_cur_crypto_cnt n"
  by (auto simp: delete_record_def put_record_def delete_op_def split: bind_splits if_splits)

lemma put_records_cnt: "put_records rs n = Some n' \<Longrightarrow> n_cur_crypto_cnt n' = n_cur_crypto_cnt n"
  by (induction rs arbitrary: n) (fastforce simp: put_record_def split: bind_splits if_splits)+

lemma delete_pending_1: "delete_record p r n = Some n' \<Longrightarrow> ss_pending_pka_op_1 (nic_sess n' q) = ss_pending_pka_op_1 (nic_sess n q)"
  by (auto simp: delete_record_def put_record_def split: bind_splits if_splits)

lemma remove_pending_cnt:
  assumes "remove_pending_pka_op p n = Some n'" "ss_pending_pka_op (nic_sess n p) = Some op" "ss_pending_pka_op_1 (nic_sess n p) = None"
  shows "n_cur_crypto_cnt n' = n_cur_crypto_cnt n - 1"
  using assms by (auto simp: remove_pending_pka_op_def upd_op_def delete_pending_1 delete_op_conns dest!: delete_cnt split: bind_splits option.splits)

text \<open>C36: When a session is removed while its request waits in the ring, the number of outstanding requests is decremented
  although it was not yet incremented.  From zero it wraps around, and the requests of this worker are not served any more.\<close>

theorem removed_request_stops_worker:
  assumes "generate_ecdhe_key_pair p r n = Some (0, n1)" "n_cur_crypto_cnt n = 0" "ss_pending_pka_op_1 (nic_sess n p) = None"
    and "remove_session p n1 = Some n2"
  shows "n_cur_crypto_cnt n2 = - 1 \<and> handle_submitted_pka cfg rng n2 = Some ([], n2)"
proof -
  have n1: "n_cur_crypto_cnt n1 = 0" "\<exists>op. ss_pending_pka_op (nic_sess n1 p) = Some op" "ss_pending_pka_op_1 (nic_sess n1 p) = None"
    using assms(1-3) by (auto simp: generate_ecdhe_key_pair_def new_ssl_crypto_op_def request_pka_def submit_pka_request_def upd_op_def delete_op_def
      upd_sess_def upd_tcp_def Let_def split: bind_splits if_splits list.splits prod.splits)
  then obtain op where op: "ss_pending_pka_op (nic_sess n1 p) = Some op" by blast
  have "n_cur_crypto_cnt n2 = - 1"
    using assms(4) by (auto simp: remove_session_def clear_ssl_session_def n1 op dest!: remove_pending_cnt[where op = op] put_records_cnt split: bind_splits if_splits)
  then show ?thesis by (subst handle_submitted_pka.simps) (simp add: MAX_OUTSTANDING_PKA_REQ_def)
qed


definition demo_waiting :: nic where
  "demo_waiting = (demo_tls (sess_zero 520))\<lparr> n_record_pool := [1, 2], n_active_cnt := 1 \<rparr>"

theorem removed_request_stops_worker_witness:
  "\<exists>n1 n2. generate_ecdhe_key_pair 0 0 demo_waiting = Some (0, n1) \<and> remove_session 0 n1 = Some n2 \<and>
    handle_submitted_pka demo_cfg (\<lambda>_. []) n2 = Some ([], n2)"
proof -
  have w: "n_op_pool demo_waiting = [0, 1, 2]" "n_record_pool demo_waiting = [1, 2]" "n_cur_crypto_cnt demo_waiting = 0" "n_active_cnt demo_waiting = 1"
    "n_free_q demo_waiting = []" "nic_sess demo_waiting 0 = sess_zero 520" "n_ops demo_waiting = (\<lambda>_. op_zero)"
    "fst (sj_ring_enqueue (n_submit_ring demo_waiting) (Some 0)) = 0"
    by (simp_all add: demo_waiting_def) (simp_all add: demo_tls_def nic_idle_def tcp_zero_def sj_ring_enqueue_def SJ_SUCCESS_def Let_def)
  have z: "ss_pending_pka_op_1 (sess_zero 520) = None" "ss_recv_q (sess_zero 520) = []" by (simp_all add: sess_zero_def)
  obtain n1 where n1: "generate_ecdhe_key_pair 0 0 demo_waiting = Some (0, n1)" "n_op_pool n1 = [1, 2]" "n_record_pool n1 = [1, 2]" "n_active_cnt n1 = 1"
    "n_free_q n1 = []" "nic_sess n1 0 = (sess_zero 520)\<lparr> ss_waiting_crypto := True, ss_pending_pka_op := Some 0 \<rparr>" "op_data (n_ops n1 0) = Some 0"
    using w by (cases "sj_ring_enqueue (n_submit_ring demo_waiting) (Some 0)")
      (simp add: generate_ecdhe_key_pair_def new_ssl_crypto_op_def request_pka_def submit_pka_request_def Let_def upd_op_def upd_sess_def upd_tcp_def)
  obtain n2 where n2: "remove_session 0 n1 = Some n2"
    using n1 z by (simp add: remove_session_def clear_ssl_session_def remove_pending_pka_op_def upd_op_def delete_record_def put_record_def delete_op_def
      upd_sess_def upd_tcp_def)
  show ?thesis using removed_request_stops_worker[OF n1(1) w(3) _ n2] w(6) z(1) n1(1) n2 by auto
qed

end
