(* ===== verification/Tls_Flow.thy ===== *)
theory Tls_Flow
  imports Tls_Props
begin

text \<open>
  Stages of the TLS 1.3 handshake on the SmartNIC as a whole: a protected record of the
  client is received, opened, unpacked and handled, for the Finished message of the client with the right and with other verify data.
\<close>


section \<open>Receiving a protected record\<close>

lemma decrypt_record_run:
  fixes n p r
  defines "s \<equiv> nic_sess n p" and "x \<equiv> n_records n r"
  assumes "rc_state x = TO_DECRYPT" "n_op_pool n = op # ops" "op \<notin> set ops" "nonce_fits (ss_read_sp s)"
    and "unseal lib (tx_client_handshake_key (ss_tls13_ctx s)) (gcm_nonce (tx_client_handshake_iv (ss_tls13_ctx s)) (ss_recv_seq_num s))
      (x\<lparr> rc_seq_num := ss_recv_seq_num s, rc_is_encrypted := True \<rparr>) = Some (0, w)" "rc_state w = TO_DECRYPT"
  shows "\<exists>n'. decrypt_record lib p r n = Some (0, n') \<and> n_records n' = (n_records n)(r := w\<lparr> rc_state := TO_VERIFY_MAC \<rparr>) \<and>
    n_record_pool n' = n_record_pool n \<and> n_wmbufs n' = n_wmbufs n \<and> n_free_q n' = n_free_q n \<and> n_active_cnt n' = n_active_cnt n \<and>
    n_conns n' = (n_conns n)(p := (n_conns n p)\<lparr> tc_ssl_session := s\<lparr> ss_client_write_IV_seq_num := rc_seq_num w + 1 \<rparr> \<rparr>)"
proof -
  define n1 where "n1 = upd_rec r (\<lambda>x. x\<lparr> rc_seq_num := ss_recv_seq_num s, rc_is_encrypted := True \<rparr>) n"
  have op: "new_ssl_crypto_op n1 = Some (op, n1\<lparr> n_op_pool := ops, n_free_op_cnt := n_free_op_cnt n1 - 1, n_using_op_cnt := n_using_op_cnt n1 + 1 \<rparr>)"
    using assms(4) by (simp add: new_ssl_crypto_op_def n1_def)
  show ?thesis using assms(3,5-8)
    by (simp add: decrypt_record_def Let_def s_def[symmetric] x_def[symmetric] n1_def[symmetric] op)
      (simp add: n1_def x_def s_def handle_after_aes_gcm_decrypt_def delete_op_def upd_rec_def upd_sess_def upd_tcp_def)
qed


text \<open>A Finished message of the client as it is received: the record and its decrypted text.\<close>

definition client_fin_hdr :: bytes where "client_fin_hdr = [0x17, 0x03, 0x03, 0, 69]"

definition client_fin :: "bytes \<Rightarrow> bytes" where "client_fin vd = [20, 0, 0, 48] @ vd @ [0x16]"

lemma fin_unpack:
  assumes "rec_sz x" "rc_decrypted x = Area_mac_in" "rc_data x = Area_buf" "seg 5 53 (rc_mac_in x) = client_fin vd" "length vd = 48"
    and "rc_state x = TO_UNPACK_CONTENT" "rc_plain_type x = APPLICATION_DATA" "fst (rc_plain_version x) = 3" "rc_cipher_length x = 53"
  defines "y \<equiv> x\<lparr> rc_plain_length := 53, rc_fragment := Frag_handshake 0 [0, 0, 48] (Body_finished vd), rc_state := READ_READY \<rparr>"
  shows "unpack_record p r (upd_rec r (\<lambda>_. x) n) = Some (0, upd_rec r (\<lambda>_. y) n)" "inner_type y = Some HANDSHAKE"
proof -
  have ty: "APPLICATION_DATA \<noteq> HANDSHAKE" "APPLICATION_DATA \<noteq> CHANGE_CIPHER_SPEC" "APPLICATION_DATA \<noteq> ALERT"
    by (simp_all add: APPLICATION_DATA_def HANDSHAKE_def CHANGE_CIPHER_SPEC_def ALERT_def)
  define B where "B = rc_mac_in x"
  have lB: "length B = 16053" using assms(1) by (simp add: B_def rec_sz_def MAX_RECORD_SIZE_def)
  have B: "seg (5 + i) k B = seg i k (client_fin vd)" if "i + k \<le> 53" for i k
    using seg_seg[OF that, of 5 B] assms(4) by (simp add: B_def)
  have h: "seg 1 3 (drop 5 B) = [0, 0, 48]" "seg 4 48 (drop 5 B) = vd" "seg 57 1 B = [0x16]"
    using B[of 1 3] B[of 4 48] B[of 52 1] assms(5) by (simp_all add: client_fin_def seg_def add.commute)
  have "B ! 57 = hd (seg 57 1 B)" using lB by (simp add: seg_def hd_drop_conv_nth hd_take)
  then have b: "B ! 57 = HANDSHAKE" unfolding h(3) by (simp add: HANDSHAKE_def)
  have rd: "rd_seg (drop 5 B) 1 3 = Some [0, 0, 48]" "rd_seg (drop 5 B) 4 48 = Some vd" using lB h by (simp_all add: rd_seg_def)
  define x1 where "x1 = x\<lparr> rc_plain_length := 53 \<rparr>"
  have x1: "rec_fragment x1 = drop 5 B" "inner_type x1 = Some HANDSHAKE"
    using assms(2) lB b by (simp_all add: x1_def rec_fragment_def inner_type_def RECORD_HEADER_SIZE_def rec_bytes_def rd8_def B_def)
  show "inner_type y = Some HANDSHAKE" using x1(2) by (simp add: x1_def y_def inner_type_def)
  show "unpack_record p r (upd_rec r (\<lambda>_. x) n) = Some (0, upd_rec r (\<lambda>_. y) n)"
    using assms(2,3,6-9) ty x1 rd
    by (simp add: unpack_record_def Let_def unpack_application_data_def HANDSHAKE_HEADER_SIZE_def comp_def x1_def[symmetric])
      (simp add: x1_def y_def)
qed


lemma unseal_keeps:
  assumes "unseal lib key nonce x = Some (ret, w)"
  shows "rc_plain_type w = rc_plain_type x" "rc_plain_version w = rc_plain_version x"
  using assms by (auto simp: unseal_def Let_def rec_put_Some split: bind_splits if_splits prod.splits)

lemma client_fin_unsealed:
  assumes "rc_state x = TO_UNPACK_HEADER" "rc_data x = Area_buf" "rc_decrypted x = Area_mac_in" "rec_sz x"
    and "rc_buf x = blit b 0 (client_fin_hdr @ c @ tag)" "gcm_law lib" "length vd = 48"
    and "ossl_gcm_enc lib (seg 0 32 key) nonce client_fin_hdr (client_fin vd) = (c, tag)"
  shows "\<exists>x1 w. unpack_header x = Some x1 \<and> rc_state x1 = TO_DECRYPT \<and> rec_bytes (rc_data x) x ! 0 = APPLICATION_DATA \<and>
    unseal lib key nonce (x1\<lparr> rc_seq_num := k, rc_is_encrypted := True \<rparr>) = Some (0, w) \<and> rc_state w = TO_DECRYPT \<and>
    rec_sz w \<and> rc_decrypted w = Area_mac_in \<and> rc_data w = Area_buf \<and> seg 5 53 (rc_mac_in w) = client_fin vd \<and>
    rc_plain_type w = APPLICATION_DATA \<and> fst (rc_plain_version w) = 3 \<and> rc_cipher_length w = 53"
proof -
  have g: "length c = 53" "length tag = 16" "ossl_gcm_dec lib (seg 0 32 key) nonce client_fin_hdr c tag = (True, client_fin vd)"
    using gcm_lawD[OF assms(6,8)] assms(7) by (simp_all add: client_fin_def)
  have lh: "length client_fin_hdr = 5" by (simp add: client_fin_hdr_def)
  define B where "B = rc_buf x"
  have lB: "length B = 16053" using assms(4) by (simp add: B_def rec_sz_def MAX_RECORD_SIZE_def)
  have "B = (client_fin_hdr @ c @ tag) @ drop (length (client_fin_hdr @ c @ tag)) b" by (simp add: B_def assms(5) blit_def)
  then have B: "seg 0 74 B = client_fin_hdr @ c @ tag" "B ! 0 = APPLICATION_DATA" "B ! 1 = 3" "B ! 2 = 3" "seg 3 2 B = [0, 69]"
    using g(1,2) by (simp_all add: seg_def client_fin_hdr_def APPLICATION_DATA_def)
  then have l: "ntohs (ld16 B 3) = 69" using lB by (simp add: byte_simps) (simp add: be_word_def)
  define x1 where "x1 = x\<lparr> rc_cipher_type := APPLICATION_DATA, rc_cipher_version := (3, 3), rc_cipher_length := 69,
    rc_plain_type := APPLICATION_DATA, rc_plain_version := (3, 3), rc_plain_length := 69, rc_state := TO_DECRYPT \<rparr>"
  have h: "unpack_header x = Some x1"
    using assms(1,2) B l by (simp add: unpack_header_def rec_bytes_def B_def[symmetric] x1_def Let_def)
  define z where "z = x1\<lparr> rc_seq_num := k, rc_is_encrypted := True \<rparr>"
  have z: "rc_data z \<noteq> rc_decrypted z" "rec_sz z" "unat (rc_cipher_length z) = 53 + 16" "rec_bytes (rc_data z) z = B"
    using assms(2-4) by (simp_all add: z_def x1_def rec_sz_def rec_bytes_def B_def)
  have "length (client_fin vd) = 53" using assms(7) by (simp add: client_fin_def)
  then obtain w where w: "unseal lib key nonce z = Some (0, w)" "seg 5 53 (rec_bytes (rc_decrypted w) w) = client_fin vd" "unat (rc_cipher_length w) = 53"
    "rc_state w = TO_DECRYPT" "rc_decrypted w = Area_mac_in" "rc_data w = Area_buf"
    using unseal_run[OF g(3) z(1,2) lh g(2,1) _ _ _ _ z(3)] B(1) z(4) assms(2,3) by (auto simp: z_def x1_def)
  have wt: "rc_plain_type w = APPLICATION_DATA" "rc_plain_version w = (3, 3)" "rec_sz w"
    using unseal_keeps[OF w(1)] unseal_sz[OF w(1) z(2)] by (simp_all add: z_def x1_def)
  show ?thesis using h w wt B(2) assms(2)
    by (intro exI[of _ x1] exI[of _ w]) (simp add: z_def x1_def rec_bytes_def B_def word_unat_eq_iff)
qed

lemma client_fin_run:
  fixes n p r cfg
  defines "s \<equiv> nic_sess n p" and "x \<equiv> n_records n r"
  defines "t \<equiv> ss_tls13_ctx s"
  assumes "rc_state x = TO_UNPACK_HEADER" "rc_data x = Area_buf" "rc_decrypted x = Area_mac_in" "rec_sz x"
    and "rc_buf x = blit b 0 (client_fin_hdr @ c @ tag)" "gcm_law (nc_lib cfg)" "length vd = 48"
    and "ossl_gcm_enc (nc_lib cfg) (seg 0 32 (tx_client_handshake_key t)) (gcm_nonce (tx_client_handshake_iv t) (ss_recv_seq_num s))
      client_fin_hdr (client_fin vd) = (c, tag)"
    and "sp_bulk_cipher_algorithm (ss_read_sp s) \<noteq> NO_CIPHER" "sp_cipher_type (ss_read_sp s) = AEAD" "nonce_fits (ss_read_sp s)"
    and "ss_state s \<noteq> STATE_ACTIVE" "n_op_pool n = op # ops" "op \<notin> set ops"
  shows "\<exists>m. process_read_record cfg p r n = handle_read_record (nc_lib cfg) p r m \<and> rc_state (n_records m r) = READ_READY \<and>
    rc_plain_type (n_records m r) = APPLICATION_DATA \<and> inner_type (n_records m r) = Some HANDSHAKE \<and>
    rc_fragment (n_records m r) = Frag_handshake 0 [0, 0, 48] (Body_finished vd) \<and>
    n_record_pool m = n_record_pool n \<and> n_wmbufs m = n_wmbufs n \<and> n_free_q m = n_free_q n \<and> n_active_cnt m = n_active_cnt n \<and>
    (\<exists>k. n_conns m = (n_conns n)(p := (n_conns n p)\<lparr> tc_ssl_session := s\<lparr> ss_client_write_IV_seq_num := k \<rparr> \<rparr>))"
proof -
  let ?lib = "nc_lib cfg" and ?key = "tx_client_handshake_key t" and ?nonce = "gcm_nonce (tx_client_handshake_iv t) (ss_recv_seq_num s)"
  obtain x1 w where h: "unpack_header x = Some x1" "rc_state x1 = TO_DECRYPT" "rec_bytes (rc_data x) x ! 0 = APPLICATION_DATA"
    and w: "unseal ?lib ?key ?nonce (x1\<lparr> rc_seq_num := ss_recv_seq_num s, rc_is_encrypted := True \<rparr>) = Some (0, w)" "rc_state w = TO_DECRYPT"
      "rec_sz w" "rc_decrypted w = Area_mac_in" "rc_data w = Area_buf" "seg 5 53 (rc_mac_in w) = client_fin vd"
      "rc_plain_type w = APPLICATION_DATA" "fst (rc_plain_version w) = 3" "rc_cipher_length w = 53"
    using client_fin_unsealed[OF assms(4-11), of "ss_recv_seq_num s"] by auto
  define n1 where "n1 = upd_rec r (\<lambda>_. x1) n"
  have n1: "n_records n1 r = x1" "nic_sess n1 p = s" "n_op_pool n1 = op # ops" "rc_state x1 = TO_DECRYPT"
    using assms(16) h(2) by (simp_all add: n1_def s_def)
  obtain n2 where n2: "decrypt_record ?lib p r n1 = Some (0, n2)" "n_records n2 = (n_records n1)(r := w\<lparr> rc_state := TO_VERIFY_MAC \<rparr>)"
    "n_record_pool n2 = n_record_pool n" "n_wmbufs n2 = n_wmbufs n" "n_free_q n2 = n_free_q n" "n_active_cnt n2 = n_active_cnt n"
    "n_conns n2 = (n_conns n)(p := (n_conns n p)\<lparr> tc_ssl_session := s\<lparr> ss_client_write_IV_seq_num := rc_seq_num w + 1 \<rparr> \<rparr>)"
    using decrypt_record_run[of n1 r op ops p ?lib w, unfolded n1(1,2), OF n1(4,3) assms(17,14)] w(1,2)
    by (auto simp: t_def n1_def)
  define x2 where "x2 = w\<lparr> rc_state := TO_UNPACK_CONTENT \<rparr>"
  have x2: "rec_sz x2" "rc_decrypted x2 = Area_mac_in" "rc_data x2 = Area_buf" "seg 5 53 (rc_mac_in x2) = client_fin vd"
    "rc_state x2 = TO_UNPACK_CONTENT" "rc_plain_type x2 = APPLICATION_DATA" "fst (rc_plain_version x2) = 3" "rc_cipher_length x2 = 53"
    using w(3-9) by (simp_all add: x2_def)
  define y where "y = x2\<lparr> rc_plain_length := 53, rc_fragment := Frag_handshake 0 [0, 0, 48] (Body_finished vd), rc_state := READ_READY \<rparr>"
  note u = fin_unpack[OF x2(1-4) assms(10) x2(5-8), folded y_def]
  have o: "open_record ?lib p r n1 = Some (0, n2)" using assms(12,13,15) n1(2) n2(1) by (simp add: open_record_def Let_def)
  have v: "upd_rec r (\<lambda>x. x\<lparr> rc_state := TO_UNPACK_CONTENT \<rparr>) n2 = upd_rec r (\<lambda>_. x2) n2"
    by (simp add: upd_rec_def n2(2) x2_def)
  have "\<not> rec_bytes (rc_data x) x ! 0 = HANDSHAKE" using h(3) by (simp add: APPLICATION_DATA_def HANDSHAKE_def)
  moreover have "rc_plain_type y \<noteq> HANDSHAKE" using x2(6) by (simp add: y_def APPLICATION_DATA_def HANDSHAKE_def)
  ultimately have "process_read_record cfg p r n = handle_read_record ?lib p r (upd_rec r (\<lambda>_. y) n2)"
    using h(1) o u(1)[of p r n2] by (simp add: process_read_record_def x_def[symmetric] n1_def[symmetric] v Let_def)
  then show ?thesis using u(2) x2(6) n2
    by (intro exI[of _ "upd_rec r (\<lambda>_. y) n2"]) (auto simp: y_def)
qed


lemma client_fin_packet:
  fixes n p cfg
  defines "s \<equiv> nic_sess n p"
  defines "t \<equiv> ss_tls13_ctx s"
  assumes "n_record_pool n = r # rs" "bufs_wf n" "ss_current_read_record s = None" "\<not> ss_waiting_crypto s" "gcm_law (nc_lib cfg)" "length vd = 48"
    and "ossl_gcm_enc (nc_lib cfg) (seg 0 32 (tx_client_handshake_key t)) (gcm_nonce (tx_client_handshake_iv t) (ss_recv_seq_num s))
      client_fin_hdr (client_fin vd) = (c, tag)"
    and "sp_bulk_cipher_algorithm (ss_read_sp s) \<noteq> NO_CIPHER" "sp_cipher_type (ss_read_sp s) = AEAD" "nonce_fits (ss_read_sp s)"
    and "ss_state s \<noteq> STATE_ACTIVE" "n_op_pool n = op # ops" "op \<notin> set ops"
  shows "\<exists>m. rc_state (n_records m r) = READ_READY \<and>
    rc_plain_type (n_records m r) = APPLICATION_DATA \<and> inner_type (n_records m r) = Some HANDSHAKE \<and>
    rc_fragment (n_records m r) = Frag_handshake 0 [0, 0, 48] (Body_finished vd) \<and>
    n_record_pool m = rs \<and> n_wmbufs m = n_wmbufs n \<and> n_free_q m = n_free_q n \<and> n_active_cnt m = n_active_cnt n \<and>
    tc_portid (n_conns m p) = tc_portid (n_conns n p) \<and> tc_hws_applied (n_conns m p) = tc_hws_applied (n_conns n p) \<and>
    ss_tls13_ctx (nic_sess m p) = t \<and> ss_handshake_state (nic_sess m p) = ss_handshake_state s \<and>
    ss_pending_pka_op (nic_sess m p) = ss_pending_pka_op s \<and> ss_pending_pka_op_1 (nic_sess m p) = ss_pending_pka_op_1 s \<and>
    ss_recv_q (nic_sess m p) = ss_recv_q s \<and>
    (\<forall>ret f. handle_read_record (nc_lib cfg) p r m = Some (ret, f) \<longrightarrow>
      process_ssl_packet cfg p (client_fin_hdr @ c @ tag) n = Some (True, upd_sess p (\<lambda>s. s\<lparr> ss_current_read_record := None \<rparr>) f))"
proof -
  let ?pkt = "client_fin_hdr @ c @ tag"
  have "length c = 53" "length tag = 16" using gcm_lawD[OF assms(7,9)] assms(8) by (simp_all add: client_fin_def)
  then have l: "unat (ntohs (ld16 ?pkt 3)) + 5 = length ?pkt" "length ?pkt \<le> 16053"
    by (simp_all add: client_fin_hdr_def byte_simps seg_def be_word_def)
  obtain e b where e: "rc_state (n_records e r) = TO_UNPACK_HEADER" "rc_data (n_records e r) = Area_buf" "rc_buf (n_records e r) = blit b 0 ?pkt"
    "rc_decrypted (n_records e r) = Area_mac_in" "rec_sz (n_records e r)" "n_op_pool e = n_op_pool n" "n_free_q e = n_free_q n"
    "n_active_cnt e = n_active_cnt n" "tc_hws_applied (n_conns e p) = tc_hws_applied (n_conns n p)" "n_record_pool e = rs" "n_wmbufs e = n_wmbufs n"
    "tc_portid (n_conns e p) = tc_portid (n_conns n p)"
    "nic_sess e p = s\<lparr> ss_num_current_records := ss_num_current_records s + 1, ss_next_record_id := ss_next_record_id s + 1,
      ss_current_read_record := Some r \<rparr>"
    "process_read_record cfg p r e = Some (ret, f) \<Longrightarrow>
      process_ssl_packet cfg p ?pkt n = Some (True, upd_sess p (\<lambda>s. s\<lparr> ss_current_read_record := None \<rparr>) f)" for ret f
    using single_record_run[OF assms(3,4) assms(5,6)[unfolded s_def] l, of cfg] by (auto simp: s_def)
  have "ossl_gcm_enc (nc_lib cfg) (seg 0 32 (tx_client_handshake_key (ss_tls13_ctx (nic_sess e p))))
      (gcm_nonce (tx_client_handshake_iv (ss_tls13_ctx (nic_sess e p))) (ss_recv_seq_num (nic_sess e p))) client_fin_hdr (client_fin vd) = (c, tag)"
    using assms(9) by (simp add: e(13) t_def)
  from client_fin_run[OF e(1,2,4,5,3) assms(7,8) this, of op ops] show ?thesis
    using assms(10-15) e by (auto simp: t_def)
qed


lemma remove_session_frees:
  assumes "0 < n_active_cnt n" "p \<notin> set (n_free_q n)" "ss_pending_pka_op (nic_sess n p) = None" "ss_pending_pka_op_1 (nic_sess n p) = None"
    and "ss_recv_q (nic_sess n p) = []"
  shows "\<exists>n'. remove_session p n = Some n' \<and> n_free_q n' = n_free_q n @ [p] \<and> \<not> tc_onload (n_conns n' p) \<and> tc_state (n_conns n' p) = TCP_SESSION_IDLE \<and>
    ss_state (nic_sess n' p) = STATE_INIT"
  using assms by (simp add: remove_session_def clear_ssl_session_def remove_pending_pka_op_def upd_sess_def upd_tcp_def clear_tcp_connection_def)


section \<open>The Finished message of the client\<close>

text \<open>C7: The handshake ends as it should: a Finished message that the client has protected with its handshake key, with the verify data that the
  SmartNIC has calculated, makes the session active and hands the connection to the host.\<close>

theorem client_finished_accepted:
  fixes n p cfg
  defines "s \<equiv> nic_sess n p"
  defines "t \<equiv> ss_tls13_ctx s"
  assumes "gcm_law (nc_lib cfg)" "length (tx_calculated_vd t) = 48"
    and "ossl_gcm_enc (nc_lib cfg) (seg 0 32 (tx_client_handshake_key t)) (gcm_nonce (tx_client_handshake_iv t) (ss_recv_seq_num s))
      client_fin_hdr (client_fin (tx_calculated_vd t)) = (c, tag)"
    and "ss_handshake_state s = CLIENT_CIPHER_SPEC" "ss_state s \<noteq> STATE_ACTIVE" "ss_current_read_record s = None" "\<not> ss_waiting_crypto s"
    and "sp_bulk_cipher_algorithm (ss_read_sp s) \<noteq> NO_CIPHER" "sp_cipher_type (ss_read_sp s) = AEAD" "nonce_fits (ss_read_sp s)"
    and "bufs_wf n" "n_record_pool n = r # rs" "r \<notin> set rs" "n_op_pool n = op # ops" "op \<notin> set ops"
    and "length (n_wmbufs n (unat (tc_portid (n_conns n p)))) < MAX_PKT_BURST"
  shows "\<exists>n'. process_ssl_packet cfg p (client_fin_hdr @ c @ tag) n = Some (True, n') \<and> tc_onload (n_conns n' p) \<and>
    ss_state (nic_sess n' p) = STATE_ACTIVE \<and> ss_handshake_state (nic_sess n' p) = FINISHED"
proof -
  obtain m where m: "rc_state (n_records m r) = READ_READY" "rc_plain_type (n_records m r) = APPLICATION_DATA" "inner_type (n_records m r) = Some HANDSHAKE"
    "rc_fragment (n_records m r) = Frag_handshake 0 [0, 0, 48] (Body_finished (tx_calculated_vd t))" "n_record_pool m = rs" "n_wmbufs m = n_wmbufs n"
    "tc_portid (n_conns m p) = tc_portid (n_conns n p)" "ss_tls13_ctx (nic_sess m p) = t" "ss_handshake_state (nic_sess m p) = CLIENT_CIPHER_SPEC"
    "handle_read_record (nc_lib cfg) p r m = Some (ret, f) \<Longrightarrow>
      process_ssl_packet cfg p (client_fin_hdr @ c @ tag) n = Some (True, upd_sess p (\<lambda>s. s\<lparr> ss_current_read_record := None \<rparr>) f)" for ret f
    using client_fin_packet[OF assms(14,13) assms(8,9)[unfolded s_def] assms(3) assms(4,5)[unfolded t_def s_def]
      assms(10-12)[unfolded s_def] assms(7)[unfolded s_def] assms(16,17)] assms(6) by (auto simp: t_def s_def)
  have lt: "ss_handshake_state (nic_sess m p) < FINISHED" by (simp add: m handshake_type_defs)
  have eq: "tx_calculated_vd (ss_tls13_ctx (nic_sess m p)) = tx_calculated_vd t" by (simp add: m)
  obtain f where f: "handle_read_record (nc_lib cfg) p r m = Some (0, f)" "tc_onload (n_conns f p)" "ss_state (nic_sess f p) = STATE_ACTIVE"
    "ss_handshake_state (nic_sess f p) = FINISHED"
    using finished_handled[OF m(1-4) lt eq, of "nc_lib cfg"] assms(15,18) by (auto simp: m)
  show ?thesis using m(10)[OF f(1)] f by simp
qed

definition demo_sess_fin :: ssl_session where
  "demo_sess_fin = (sess_zero 520)\<lparr> ss_handshake_state := CLIENT_CIPHER_SPEC,
     ss_read_sp := sp_zero\<lparr> sp_bulk_cipher_algorithm := AES, sp_cipher_type := AEAD, sp_fixed_iv_length := 12 \<rparr> \<rparr>"

definition demo_sealed :: "bytes \<Rightarrow> bytes" where
  "demo_sealed vd = (let t = ss_tls13_ctx demo_sess_fin;
     e = ossl_gcm_enc demo_lib (seg 0 32 (tx_client_handshake_key t)) (gcm_nonce (tx_client_handshake_iv t) (ss_recv_seq_num demo_sess_fin)) client_fin_hdr (client_fin vd)
     in client_fin_hdr @ fst e @ snd e)"

lemma sess_zero_idle:
  "ss_state (sess_zero k) = STATE_INIT" "ss_pending_pka_op (sess_zero k) = None" "ss_pending_pka_op_1 (sess_zero k) = None" "ss_recv_q (sess_zero k) = []"
  by (simp_all add: sess_zero_def Let_def)

lemma demo_sess_fin_bufs: "bufs_wf (demo_tls demo_sess_fin)"
  using sess_zero_sz[of 520] by (intro demo_tls_bufs) (simp add: demo_sess_fin_def sess_sz_def)

theorem client_finished_accepted_witness:
  "\<exists>n'. process_ssl_packet demo_cfg 0 (demo_sealed (replicate 48 0)) (demo_tls demo_sess_fin) = Some (True, n') \<and> tc_onload (n_conns n' 0) \<and>
    ss_state (nic_sess n' 0) = STATE_ACTIVE \<and> ss_handshake_state (nic_sess n' 0) = FINISHED"
  using client_finished_accepted[where n = "demo_tls demo_sess_fin" and p = 0 and cfg = demo_cfg and r = 0 and rs = "[1, 2]" and op = 0 and ops = "[1, 2]",
      OF _ _ surjective_pairing] demo_sess_fin_bufs demo_lib_gcm
  by (simp add: demo_sealed_def Let_def)
    (simp add: demo_cfg_def demo_sess_fin_def sess_zero_fields sess_zero_idle sp_zero_def nonce_fits_def AES_def NO_CIPHER_def MAX_PKT_BURST_def)

text \<open>C8: A Finished message with other verify data ends the connection: it goes back to the free queue and is not handed to the
  host.\<close>

theorem wrong_finished_removed:
  fixes n p cfg
  defines "s \<equiv> nic_sess n p"
  defines "t \<equiv> ss_tls13_ctx s"
  assumes "gcm_law (nc_lib cfg)" "length vd = 48" "vd \<noteq> tx_calculated_vd t"
    and "ossl_gcm_enc (nc_lib cfg) (seg 0 32 (tx_client_handshake_key t)) (gcm_nonce (tx_client_handshake_iv t) (ss_recv_seq_num s))
      client_fin_hdr (client_fin vd) = (c, tag)"
    and "ss_handshake_state s = CLIENT_CIPHER_SPEC" "ss_state s \<noteq> STATE_ACTIVE" "ss_current_read_record s = None" "\<not> ss_waiting_crypto s"
    and "sp_bulk_cipher_algorithm (ss_read_sp s) \<noteq> NO_CIPHER" "sp_cipher_type (ss_read_sp s) = AEAD" "nonce_fits (ss_read_sp s)"
    and "bufs_wf n" "n_record_pool n = r # rs" "n_op_pool n = op # ops" "op \<notin> set ops"
    and "length (n_wmbufs n (unat (tc_portid (n_conns n p)))) < MAX_PKT_BURST" "\<not> tc_hws_applied (n_conns n p)"
    and "ss_pending_pka_op s = None" "ss_pending_pka_op_1 s = None" "ss_recv_q s = []" "0 < n_active_cnt n" "p \<notin> set (n_free_q n)"
  shows "\<exists>n'. process_ssl_packet cfg p (client_fin_hdr @ c @ tag) n = Some (True, n') \<and> n_free_q n' = n_free_q n @ [p] \<and>
    \<not> tc_onload (n_conns n' p) \<and> ss_state (nic_sess n' p) = STATE_INIT"
proof -
  obtain m where m: "rc_state (n_records m r) = READ_READY" "rc_plain_type (n_records m r) = APPLICATION_DATA" "inner_type (n_records m r) = Some HANDSHAKE"
    "rc_fragment (n_records m r) = Frag_handshake 0 [0, 0, 48] (Body_finished vd)" "n_record_pool m = rs" "n_wmbufs m = n_wmbufs n"
    "n_free_q m = n_free_q n" "n_active_cnt m = n_active_cnt n" "\<not> tc_hws_applied (n_conns m p)" "tc_portid (n_conns m p) = tc_portid (n_conns n p)"
    "ss_tls13_ctx (nic_sess m p) = t" "ss_handshake_state (nic_sess m p) = CLIENT_CIPHER_SPEC"
    "ss_pending_pka_op (nic_sess m p) = None" "ss_pending_pka_op_1 (nic_sess m p) = None" "ss_recv_q (nic_sess m p) = []"
    "handle_read_record (nc_lib cfg) p r m = Some (ret, f) \<Longrightarrow>
      process_ssl_packet cfg p (client_fin_hdr @ c @ tag) n = Some (True, upd_sess p (\<lambda>s. s\<lparr> ss_current_read_record := None \<rparr>) f)" for ret f
    using client_fin_packet[OF assms(15,14) assms(9,10)[unfolded s_def] assms(3,4) assms(6)[unfolded t_def s_def]
      assms(11-13)[unfolded s_def] assms(8)[unfolded s_def] assms(16,17)] assms(7,19-22) by (auto simp: t_def s_def)
  define n4 where "n4 = upd_tcp p (\<lambda>c. c\<lparr> tc_onload := True \<rparr>)
    (upd_sess p (\<lambda>s. s\<lparr> ss_handshake_state := FINISHED, ss_state := STATE_ACTIVE \<rparr>) m)"
  have n4: "ss_tls13_ctx (nic_sess n4 p) = t" "n_wmbufs n4 = n_wmbufs n" "tc_portid (n_conns n4 p) = tc_portid (n_conns n p)"
    "\<not> tc_hws_applied (n_conns n4 p)" "n_free_q n4 = n_free_q n" "n_active_cnt n4 = n_active_cnt n"
    "ss_pending_pka_op (nic_sess n4 p) = None" "ss_pending_pka_op_1 (nic_sess n4 p) = None" "ss_recv_q (nic_sess n4 p) = []"
    using m by (simp_all add: n4_def upd_tcp_def)
  obtain wm where wm: "send_tcp_packet p [] 0 (TCP_FLAG_RST OR TCP_FLAG_ACK) n4 = Some (upd_tcp p (seg_sent 0 0) (n4\<lparr> n_wmbufs := wm \<rparr>))"
    using empty_segment_run[of n4 p "TCP_FLAG_RST OR TCP_FLAG_ACK"] assms(18) n4 by auto
  obtain f where f: "remove_session p (upd_tcp p (seg_sent 0 0) (n4\<lparr> n_wmbufs := wm \<rparr>)) = Some f" "n_free_q f = n_free_q n @ [p]"
    "\<not> tc_onload (n_conns f p)" "ss_state (nic_sess f p) = STATE_INIT"
    using remove_session_frees[of "upd_tcp p (seg_sent 0 0) (n4\<lparr> n_wmbufs := wm \<rparr>)" p] n4 assms(23,24) by (auto simp: upd_tcp_def seg_sent_def)
  have "handle_read_record (nc_lib cfg) p r m = handle_client_finished vd p r m"
    using m by (simp add: handle_read_record_def Let_def handle_application_data_def handshake_type_defs
      APPLICATION_DATA_def HANDSHAKE_def CHANGE_CIPHER_SPEC_def ALERT_def)
  also have "\<dots> = Some (- 1, f)"
    using n4(1,4) assms(5) wm f(1) by (auto simp: handle_client_finished_def n4_def[symmetric] remove_hws_def abort_session_def)
  finally show ?thesis using m(16) f by fastforce
qed

theorem wrong_finished_removed_witness:
  "\<exists>n'. process_ssl_packet demo_cfg 0 (demo_sealed (replicate 48 1)) ((demo_tls demo_sess_fin)\<lparr> n_active_cnt := 1, n_free_q := [1] \<rparr>) = Some (True, n') \<and>
    n_free_q n' = [1, 0] \<and> \<not> tc_onload (n_conns n' 0) \<and> ss_state (nic_sess n' 0) = STATE_INIT"
  using wrong_finished_removed[where n = "(demo_tls demo_sess_fin)\<lparr> n_active_cnt := 1, n_free_q := [1] \<rparr>" and p = 0 and cfg = demo_cfg
      and vd = "replicate 48 1" and r = 0 and rs = "[1, 2]" and op = 0 and ops = "[1, 2]", OF _ _ _ surjective_pairing] demo_sess_fin_bufs demo_lib_gcm
  by (simp add: demo_sealed_def Let_def bufs_wf_def replicate_eq_replicate)
    (simp add: demo_cfg_def demo_sess_fin_def sess_zero_fields sess_zero_idle sp_zero_def nonce_fits_def AES_def NO_CIPHER_def MAX_PKT_BURST_def
      demo_tls_def nic_idle_def tcp_zero_def)

end
