(* ===== verification/Spec2Isabelle.thy ===== *)
theory Spec2Isabelle
  imports Ring Conn_Hash Host_Pool Host_Sock Host_Meta Nic_Io Nic_Meta Migration Http_Text Host_Http
    Host_Filter Dispatch Host_Worker
    Hkdf Pka_Operand Key_Schedule Nic_Session Nic_Inv Nic_Worker Nic_Waiting Tls_Props Tls_Flow
begin

text \<open>
  XTLS splits a TLS web server between a BlueField SmartNIC and its host.  The application on the SmartNIC
  (\<^verbatim>\<open>src/smartnic/offload_ssl\<close>, in C with DPDK) answers the TCP handshake with cookies, does the TLS 1.3
  handshake with the help of a public key accelerator, and then \<^emph>\<open>migrates\<close> the connection: it sends
  addresses, sequence numbers and traffic keys to the host in one frame.  The server on the host
  (\<^verbatim>\<open>src/host/custom_server\<close>) installs the connection in its kernel with \<^verbatim>\<open>TCP_REPAIR\<close> and kernel TLS,
  answers with a finish packet, and serves HTTP.  This development models both programs and the frames
  between them, in the configuration that \<^verbatim>\<open>include/option.h\<close> and the makefiles select.

  \<^bold>\<open>Conventions.\<close>  Machine integers are words of their width (\<open>u8\<close>, \<open>u16\<close>, \<open>u32\<close>, \<open>u64\<close>), C's \<open>int\<close> is \<open>int\<close>
  where the code keeps it in range, and buffers are byte lists (\<open>Xtls_Prelude\<close>).  A structure is a record, a
  pointer to a pooled object its number.  Every function of the code that changes state is a function from
  state to state; a result such as \<open>-1\<close> is part of the value.  \<open>None\<close> is a run that does not continue: a call
  of \<^verbatim>\<open>exit\<close>, a failed assertion, an access outside a buffer or through a null pointer, an object inserted into a
  queue that already holds it, or a loop that does not end.  Code that is not in the repository is a
  parameter: OpenSSL's hashes, MACs and AES-GCM (record \<open>openssl\<close>), the results of the accelerator, its random
  bytes, the transmit function of the driver, clocks, and the kernel, which gives the result of the n-th
  system call (\<open>world\<close>).  What is used of them is a named hypothesis (\<open>lib_spec\<close>, \<open>gcm_law\<close>, a driver that takes
  whole bursts), and each property that has one is applied to a concrete instance in its witness.

  \<^bold>\<open>SmartNIC.\<close>
  \<^item> \<open>Ring\<close>: \<^verbatim>\<open>ring.c\<close>.  Locale \<open>bounded_fifo\<close>, interpreted for the ring; a step relation on the single loads and stores of
    producer and consumer.  Operations behave as on a bounded queue, and no interleaving loses, repeats or reorders a request.
  \<^item> \<open>Conn_Hash\<close>: both copies of \<^verbatim>\<open>fhash.c\<close>.  Locale \<open>conn_table\<close>, a partial map from flows to connections, interpreted for the tables
    of the SmartNIC and of the host.
  \<^item> \<open>Nic_Types\<close>, \<open>Tls_Types\<close>: \<^verbatim>\<open>ssloff.h\<close>, \<^verbatim>\<open>ssl.h\<close>; the record \<open>nic\<close> is the context of a worker with its connections, sessions, records and operations.
  \<^item> \<open>Nic_Io\<close>: transmit tables of \<^verbatim>\<open>dpdk_io.c\<close>.  Frames leave in order; a full table and a driver that takes nothing make \<open>get_wptr\<close> wait forever.
  \<^item> \<open>Nic_Session\<close>, \<open>Nic_Tcp\<close>, \<open>Nic_Waiting\<close>: \<^verbatim>\<open>tcp.c\<close>.  Cookies, sequence numbers, clearing and recycling, segments, every kind of packet, the main loop, and
    SYNs that wait for a rule of the hardware.
  \<^item> \<open>Nic_Meta\<close>, \<open>Meta_Layout\<close>: the key packet and the reset packet (\<^verbatim>\<open>host.c\<close>, \<^verbatim>\<open>send_key_meta\<close>), and the answers of the host (\<^verbatim>\<open>process_host_packet\<close>).
  \<^item> \<open>Hkdf\<close>, \<open>Key_Schedule\<close>, \<open>Pka_Operand\<close>: \<^verbatim>\<open>ssl_crypto.c\<close>, the key schedule of \<^verbatim>\<open>ssl.c\<close>, and \<^verbatim>\<open>pka_helper.c\<close>, against RFC 5869, RFC 8446 and RFC 7748.
  \<^item> \<open>Tls_Codec\<close>, \<open>Tls_Record\<close>, \<open>Tls_Handshake\<close>: \<^verbatim>\<open>ssl.c\<close>.  Decoding of the ClientHello, encoding of the server's messages, protection of records, cutting of
    segments into records, the state machine of the handshake, and the requests to the accelerator through the ring.  Core 0, which drives the accelerator,
    is given by its steps on the state of one worker (\<open>handle_submitted_pka\<close>, \<open>handle_completed_pka\<close>).
  \<^item> \<open>Nic_Inv\<close>, \<open>Nic_Worker\<close>: the arguments and sizes of \<^verbatim>\<open>main.c\<close>, \<^verbatim>\<open>thread_local_init\<close>, and runs of a worker: \<open>nic_step\<close> is one event (a packet, one turn of the loop
    over the table, a step of core 0, transmission, a tick of the clock), \<open>nic_reach\<close> the reachable states.  The table, the free queue and the counters agree in every reachable
    state, and arrays keep their sizes.  The first invariant excludes segments that go on behind a record which aborts its session (\<open>clean\<close>): the code then
    continues on a connection that is already free.
  \<^item> \<open>Tls_Props\<close>: records survive protection, the server's Finished is the one of RFC 8446 and opens under the server's key, no nonce is used twice,
    the division of the stream into segments does not matter within records; and three ways in which a client disturbs the server.
  \<^item> \<open>Tls_Flow\<close>: a protected Finished message of the client, from its bytes on the wire to the end of the handshake: with the expected verify data the
    connection is handed to the host, with others it is removed.

  \<^bold>\<open>Host.\<close>
  \<^item> \<open>Host_Types\<close>, \<open>Host_Pool\<close>, \<open>Host_Sock\<close>: \<^verbatim>\<open>common.h\<close>, \<^verbatim>\<open>mempool.c\<close> (locale \<open>object_pool\<close>), \<^verbatim>\<open>multiplex_io.c\<close>, \<^verbatim>\<open>set_sock.c\<close>.
  \<^item> \<open>Bpf\<close>, \<open>Host_Filter\<close>, \<open>Dispatch\<close>: the packet filter of each thread, run by a model of the kernel's filter machine, and which thread receives which frame.
  \<^item> \<open>Host_Meta\<close>: \<^verbatim>\<open>meta_pkt.c\<close>; \<open>Http_Text\<close>, \<open>Host_Http\<close>: HTTP text, requests and responses (\<^verbatim>\<open>helpers.c\<close>, \<^verbatim>\<open>main.c\<close>).
  \<^item> \<open>Host_Worker\<close>: the event loop of a thread, with the states that it reaches.

  \<^bold>\<open>Both.\<close>  \<open>Migration\<close> shows that the host reads from a key packet what the SmartNIC put there and that the SmartNIC accepts the host's answers.  The theorem of this theory
  runs one migration from the packet of the SmartNIC through filter, event loop and socket calls to the flag on the SmartNIC.

  \<^bold>\<open>Bounds and loops.\<close>  No fuel is used.  Loops are structural recursion or \<open>function\<close> with a measure; loops that may not end are \<open>partial_function (option)\<close>
  (\<open>extension_loop\<close>, the loop around \<^verbatim>\<open>sendfile\<close>, \<open>wptr_flush\<close>, the block counters of the key derivation), and theorems say when they return and when not; \<open>process_session_read\<close> takes one
  record from a finite queue in each turn.  Buffers have their declared sizes: 16061 bytes
  for a record, 4096 for the transcript, 1024 for kept records and application data.

  \<^bold>\<open>Findings.\<close>  Theorems of kind \<^emph>\<open>error\<close> state what the code does where it is wrong: a loop that a ClientHello keeps from ending, extensions that are not skipped, a forged Finished
  message that is accepted, requests to the accelerator that stop the program or a worker, resets that the host never sees, keys that the kernel refused.

  \<^bold>\<open>Not modelled.\<close>  Port start-up and the rules for the hardware in \<^verbatim>\<open>dpdk_io.c\<close>, \<^verbatim>\<open>global_init\<close> and \<^verbatim>\<open>cert.c\<close> only call DPDK, OpenSSL and the accelerator's library; with
  \<^verbatim>\<open>REMOVE_HWS\<close> no rule is installed.  \<^verbatim>\<open>encrypt_aes_gcm\<close> and \<^verbatim>\<open>decrypt_aes_gcm\<close> are call sequences of OpenSSL and appear as \<open>ossl_gcm_enc\<close> and \<open>ossl_gcm_dec\<close>.  Statistics, hexadecimal dumps,
  code for other build options (\<^verbatim>\<open>OFFLOAD_AES_GCM\<close>, \<^verbatim>\<open>ZERO_COPY_RECV\<close>, TLS 1.2 with RSA, the mTCP host), \<^verbatim>\<open>thread_local_destroy\<close> and the functions that nothing calls are left out, as are threads
  of the host beyond one worker, \<^verbatim>\<open>load_file_cache\<close>, and the benchmark programs.  The workers of the SmartNIC share no connection, so one worker with core 0 is the whole state; the memory model
  of the ring is sequentially consistent.
\<close>

section \<open>One migration from the SmartNIC to the host and back\<close>

text \<open>A later world of the same environment.\<close>

abbreviation later :: "world \<Rightarrow> world \<Rightarrow> bool" where
  "later w w' \<equiv> w_env w' = w_env w \<and> w_n w \<le> w_n w'"

lemma set_mig_sock_later: "later w (snd (set_mig_sock mi w)) \<and> w_n w < w_n (snd (set_mig_sock mi w))"
  by (simp add: set_mig_sock_def Let_def case_prod_beta)

lemma set_nonblock_later: "later w (snd (set_nonblock fd w))"
  by (simp add: set_nonblock_def Let_def case_prod_beta)

lemma mig_tcp_conn_later: "mig_tcp_conn p c ep w = Some (r, w') \<Longrightarrow> later w w'"
  by (auto simp: mig_tcp_conn_def register_epoll_out_mig_sock_def epoll_op_def Let_def case_prod_beta
      split: option.splits if_splits)

lemma migrate_conn_later:
  assumes "migrate_conn p h = Some (0, h')"
  shows "later (wrld h) (wrld h')" "w_n (wrld h) < w_n (wrld h')" "epfd h' = epfd h"
proof -
  obtain fd w1 where s: "set_mig_sock (meta_info (conns h p)) (wrld h) = (fd, w1)" by fastforce
  obtain nb w2 where n: "set_nonblock fd w1 = (nb, w2)" by fastforce
  have w2: "later (wrld h) w2" "w_n (wrld h) < w_n w2"
    using set_mig_sock_later[where w = "wrld h" and mi = "meta_info (conns h p)"]
      set_nonblock_later[where w = w1 and fd = fd] s n by auto
  from assms s n obtain w where w: "later w2 w" "wrld h' = w" "epfd h' = epfd h"
    by (auto simp: migrate_conn_def Let_def upd_conn_def split: option.splits if_splits dest!: mig_tcp_conn_later)
  with w2 show "later (wrld h) (wrld h')" "w_n (wrld h) < w_n (wrld h')" "epfd h' = epfd h" by auto
qed

lemma fill_conn_later:
  assumes "fill_conn tls13 n h = Some (p, h')"
  shows "later (wrld h) (wrld h')" "epfd h' = epfd h" "w_n (wrld h') = w_n (wrld h) + 1"
  using assms
  by (auto simp: fill_conn_def conn_state_alloc_def Let_def upd_conn_def host_sys_def sys_def
      split: prod.splits option.splits if_splits)

lemma install_conn_later:
  assumes "install_conn tls13 n h = Some (0, h')"
  shows "w_env (wrld h') = w_env (wrld h)" "w_n (wrld h) + 2 \<le> w_n (wrld h')" "epfd h' = epfd h"
proof -
  from assms obtain p h1 where f: "fill_conn tls13 n h = Some (p, h1)"
    and g: "migrate_conn p (h1\<lparr> ht_conn := host_ht_insert (host_key h1) (ht_conn h1) p \<rparr>) = Some (0, h')"
    by (auto simp: install_conn_def split: option.splits)
  show "w_env (wrld h') = w_env (wrld h)" "w_n (wrld h) + 2 \<le> w_n (wrld h')" "epfd h' = epfd h"
    using fill_conn_later[OF f] migrate_conn_later[OF g] by simp_all
qed

text \<open>The host side: the event of the meta socket and two write events of the new connection.\<close>

lemma key_event_migrates:
  assumes inv: "thread_inv A m h" and buf: "buf = blit (meta_buf h) 0 (rdata (w_env (wrld h) (w_n (wrld h))))"
    and "0 \<le> rv (w_env (wrld h) (w_n (wrld h)))" "validate_meta_type buf = META_TYPE_KEY"
    and cl: "meta_client buf = (ip, port)" and none: "host_lookup h ip port = None"
    and "0 \<le> pool_top h" "0 \<le> epfd h" "sccs_in_range buf" and k: "kernel_ok fd (snd (sys (Sys_recvfrom (meta_sock h)) (wrld h)))"
    and fd: "fd \<noteq> meta_sock h" and ev: "ev_ptr ev = m"
  shows "\<exists>q h2. worker_events tls13 zc fcache www_main [ev, write_ready q, write_ready q] h = Some h2 \<and>
    host_lookup h2 ip port = Some q \<and> sock_state (conns h2 q) = READY_TO_RECV \<and>
    (\<forall>ip' port'. (ip', port') \<noteq> (ip, port) \<longrightarrow> host_lookup h2 ip' port' = host_lookup h ip' port') \<and>
    (meta_info (conns h2 q), crypto_info_rx (conns h2 q), crypto_info_tx (conns h2 q)) = handle_meta_data tls13 buf \<and>
    keyed (conns h2 q) (wrld h2) \<and> Sys_sendto (meta_sock h) (mig_fin_packet (conns h2 q)) \<in> calls (wrld h2)"
proof -
  define w where "w = snd (sys (Sys_recvfrom (meta_sock h)) (wrld h))"
  define h0 where "h0 = h\<lparr> wrld := w, meta_buf := buf, key_metas := key_metas h + 1 \<rparr>"
  have h0: "meta_buf h0 = buf" "wrld h0 = w" "epfd h0 = epfd h" "pool_top h0 = pool_top h" "meta_sock h0 = meta_sock h"
    "host_key h0 = host_key h" "ht_conn h0 = ht_conn h"
    by (simp_all add: h0_def)
  have i0: "host_inv A h0" using inv by (simp add: thread_inv_def host_inv_def pool_inv_def pool_free_list_def h0_def)
  have mfd: "sock_fd (conns h m) = meta_sock h" using inv by (simp add: thread_inv_def)
  have "\<exists>p h1 w'. install_conn tls13 (nat (rv (w_env (wrld h) (w_n (wrld h))))) h0 =
      Some (0, upd_conn p (\<lambda>c. c\<lparr> sock_fd := fd, sock_state := INIT \<rparr>) (h1\<lparr> wrld := w' \<rparr>))"
    using assms(7-9) k by (intro install_conn_total) (simp_all add: h0 w_def)
  then obtain h1 where ins: "install_conn tls13 (nat (rv (w_env (wrld h) (w_n (wrld h))))) h0 = Some (0, h1)" by blast
  have "handle_key_packet tls13 (nat (rv (w_env (wrld h) (w_n (wrld h))))) (h\<lparr> wrld := w, meta_buf := buf \<rparr>) = Some (0, h1)"
    using cl none ins by (simp add: handle_key_packet_def Let_def meta_client_def h0_def)
  then have e1: "worker_event tls13 zc fcache www_main ev h = Some h1"
    using assms(3,4) mfd ev buf
    by (simp add: worker_event_def Let_def handle_meta_packet_def host_sys_def sys_def w_def)
  have l0: "host_lookup h0 ip port = None" "meta_client (meta_buf h0) = (ip, port)" using none cl by (simp_all add: h0)
  from install_conn_success[OF i0 l0(2,1) ins] obtain q where q: "host_lookup h1 ip port = Some q"
    "sock_state (conns h1 q) = INIT" "sock_fd (conns h1 q) = fd"
    "(meta_info (conns h1 q), crypto_info_rx (conns h1 q), crypto_info_tx (conns h1 q)) = handle_meta_data tls13 buf"
    "\<forall>ip' port'. (ip', port') \<noteq> (ip, port) \<longrightarrow> host_lookup h1 ip' port' = host_lookup h ip' port'"
    using set_mig_sock_ok[of fd w] k by (auto simp: h0 w_def)
  have ms: "meta_sock h1 = meta_sock h" using install_conn_frame[OF i0 l0(2,1) ins] h0(5) by metis
  have r: "0 \<le> rv (w_env (wrld h1) j)" if "w_n (wrld h1) \<le> j" for j
    using k that install_conn_later[OF ins] by (auto simp: kernel_ok_def h0 w_def)
  from write_events[of h1 q tls13 zc fcache www_main] q(2,3) fd ms r install_conn_later(3)[OF ins] h0(3) assms(8)
  obtain h1' h2 where e2: "worker_event tls13 zc fcache www_main (write_ready q) h1 = Some h1'"
    "worker_event tls13 zc fcache www_main (write_ready q) h1' = Some h2"
    and c2: "conns h2 = (conns h1)(q := (conns h1 q)\<lparr> sock_state := READY_TO_RECV \<rparr>)"
      "keyed (conns h1 q) (wrld h2)" "Sys_sendto (meta_sock h1) (mig_fin_packet (conns h1 q)) \<in> calls (wrld h2)"
      "ht_conn h2 = ht_conn h1"
    by auto
  have "host_key h2 = host_key h1" by (auto simp: c2(1) conn_client_def)
  then have look: "host_lookup h2 = host_lookup h1" by (simp only: c2(4))
  have "mig_fin_packet (conns h2 q) = mig_fin_packet (conns h1 q)" "keyed (conns h2 q) (wrld h2)"
    using c2(2) by (simp_all add: c2(1) mig_fin_packet_def keyed_def)
  then show ?thesis
    using e1 e2 q c2(3) by (intro exI[of _ q] exI[of _ h2]) (simp add: look ms, simp add: c2(1))
qed


text \<open>A thread that receives the frame \<open>f\<close> in its first system call and whose meta event carries the pointer 9.\<close>

definition frame_env :: "bytes \<Rightarrow> nat \<Rightarrow> sysret" where
  "frame_env f k = (if k = 0 then ret_ok\<lparr> rv := int (length f), rdata := f \<rparr>
                    else if k = 2 then ret_ok\<lparr> rv := 5 \<rparr> else ret_ok)"

definition frame_host :: "bytes \<Rightarrow> host" where
  "frame_host f = (demo_host (frame_env f))\<lparr> conns := (\<lambda>_. conn_zero)(9 := conn_zero\<lparr> sock_fd := 3 \<rparr>) \<rparr>"

lemma frame_host_facts:
  "thread_inv {7} 9 (frame_host f)" "rdata (w_env (wrld (frame_host f)) (w_n (wrld (frame_host f)))) = f"
  "rv (w_env (wrld (frame_host f)) (w_n (wrld (frame_host f)))) = int (length f)"
  "host_lookup (frame_host f) ip port = None" "0 \<le> pool_top (frame_host f)" "0 \<le> epfd (frame_host f)"
  "kernel_ok 5 (snd (sys (Sys_recvfrom (meta_sock (frame_host f))) (wrld (frame_host f))))"
  "5 \<noteq> meta_sock (frame_host f)"
proof -
  have t: "table_inv host_calculate_hash key (ht_conn (frame_host f))" "ht_members (ht_conn (frame_host f)) = {}" for key
    by (simp_all add: frame_host_def demo_host_def host_init_def empty_ht_inv)
  have "host_inv {7} (frame_host f)"
    using demo_host_inv[of "frame_env f"] t
    by (simp add: host_inv_def pool_inv_def pool_free_list_def frame_host_def)
  moreover have "sock_fd (conns (frame_host f) 9) = meta_sock (frame_host f)"
    by (simp add: frame_host_def demo_host_def host_init_def)
  ultimately show "thread_inv {7} 9 (frame_host f)" using t(2) by (simp add: thread_inv_def)
  show "host_lookup (frame_host f) ip port = None"
    using host_tab.srch_found[OF t(1), of "host_key (frame_host f)" "(ip, port)"] t(2) by fastforce
qed (simp_all add: frame_host_def demo_host_def host_init_def idle_world_def frame_env_def ret_ok_def kernel_ok_def sys_def)


end
